(* ===== verification/Prelude.thy ===== *)
theory Prelude
  imports Main "HOL-Library.AList" "HOL-Library.Char_ord" "HOL-Library.List_Lexorder"
    "HOL-Library.Product_Lexorder" "HOL-Library.Option_ord"
begin

section \<open>Shared vocabulary: errors, clocks, dictionaries, tables\<close>

text \<open>
  What every component of the backend model uses: the exceptions of the Python code as values,
  the clock, dictionaries as association lists, database tables as lists of rows, and the
  lemmas about them that carry the component proofs.

  Collections: \<open>table_simps\<close> (tables and dictionaries), \<open>guard_defs\<close> (the guards that a
  property unfolds).
\<close>

named_theorems table_simps "rewriting lists of rows and dictionaries"
named_theorems guard_defs "definitions of guards and predicates"

subsection \<open>Exceptions and results\<close>

text \<open>
  An exception the code raises is a value: \<open>Inl e\<close>. \<open>HttpError\<close> is FastAPI's
  \<open>HTTPException\<close> with its status code and its detail text; \<open>IntegrityError\<close> is the
  database's refusal of a duplicate or dangling key.
\<close>

datatype py_exc =
    ValueError string
  | TypeError string
  | KeyError string
  | RuntimeErr string
  | IntegrityError string
  | DatabaseError string
  | HttpError nat string

type_synonym 'a result = "py_exc + 'a"

definition bindR :: "('e + 'a) \<Rightarrow> ('a \<Rightarrow> 'e + 'b) \<Rightarrow> 'e + 'b" where
  "bindR r f = (case r of Inl e \<Rightarrow> Inl e | Inr x \<Rightarrow> f x)"

lemma bindR_simps [simp]:
  "bindR (Inl e) f = Inl e"
  "bindR (Inr x) f = f x"
  by (simp_all add: bindR_def)

lemma bindR_eq_Inr: "bindR r f = Inr y \<longleftrightarrow> (\<exists>x. r = Inr x \<and> f x = Inr y)"
  by (cases r) simp_all

lemma bindR_eq_Inl: "bindR r f = Inl e \<longleftrightarrow> r = Inl e \<or> (\<exists>x. r = Inr x \<and> f x = Inl e)"
  by (cases r) auto

definition is_ok :: "('e + 'a) \<Rightarrow> bool" where
  "is_ok r = (case r of Inl _ \<Rightarrow> False | Inr _ \<Rightarrow> True)"

lemma is_ok_simps [simp]: "\<not> is_ok (Inl e)" "is_ok (Inr x)"
  by (simp_all add: is_ok_def)

text \<open>A Python \<open>for\<close> loop whose body may raise: it stops at the first exception.\<close>

fun foldR :: "('a \<Rightarrow> 's \<Rightarrow> 'e + 's) \<Rightarrow> 'a list \<Rightarrow> 's \<Rightarrow> 'e + 's" where
  "foldR f [] s = Inr s"
| "foldR f (x # xs) s = bindR (f x s) (foldR f xs)"

lemma foldR_append: "foldR f (xs @ ys) s = bindR (foldR f xs s) (foldR f ys)"
  by (induction xs arbitrary: s) (auto simp: bindR_def split: sum.splits)

lemma foldR_invariant:
  assumes "foldR f xs s = Inr s'" and "P s"
    and "\<And>x a b. x \<in> set xs \<Longrightarrow> P a \<Longrightarrow> f x a = Inr b \<Longrightarrow> P b"
  shows "P s'"
  using assms
proof (induction xs arbitrary: s)
  case Nil
  then show ?case by simp
next
  case (Cons x xs)
  from Cons.prems(1) obtain t where t: "f x s = Inr t" and rest: "foldR f xs t = Inr s'"
    by (auto simp: bindR_eq_Inr)
  have "P t" by (rule Cons.prems(3) [OF _ Cons.prems(2) t]) simp
  show ?case
  proof (rule Cons.IH [OF rest \<open>P t\<close>])
    fix y a b
    assume "y \<in> set xs" "P a" "f y a = Inr b"
    then show "P b" using Cons.prems(3) [of y a b] by simp
  qed
qed

text \<open>A comprehension whose element may raise.\<close>

fun mapR :: "('a \<Rightarrow> 'e + 'b) \<Rightarrow> 'a list \<Rightarrow> 'e + 'b list" where
  "mapR f [] = Inr []"
| "mapR f (x # xs) = bindR (f x) (\<lambda>y. bindR (mapR f xs) (\<lambda>ys. Inr (y # ys)))"

lemma mapR_map: "mapR f xs = Inr ys \<Longrightarrow> (\<And>x y. x \<in> set xs \<Longrightarrow> f x = Inr y \<Longrightarrow> g y = h x) \<Longrightarrow> map g ys = map h xs"
  by (induction xs arbitrary: ys) (auto simp: bindR_eq_Inr)

subsection \<open>Time\<close>

text \<open>
  An aware \<open>datetime\<close> is the number of microseconds since the epoch (Python's resolution), a
  \<open>timedelta\<close> a number of microseconds.
\<close>

type_synonym instant = int

definition seconds :: "int \<Rightarrow> int" where
  "seconds n = n * 1000000"

lemma seconds_simps [simp]: "seconds 0 = 0" "seconds (a + b) = seconds a + seconds b"
  by (simp_all add: seconds_def algebra_simps)

lemma seconds_le [simp]: "seconds a \<le> seconds b \<longleftrightarrow> a \<le> b"
  by (simp add: seconds_def)

lemma seconds_less [simp]: "seconds a < seconds b \<longleftrightarrow> a < b"
  by (simp add: seconds_def)

lemma seconds_nonneg [simp]: "0 \<le> seconds a \<longleftrightarrow> 0 \<le> a"
  by (simp add: seconds_def)

lemma seconds_pos [simp]: "0 < seconds a \<longleftrightarrow> 0 < a"
  by (simp add: seconds_def)

text \<open>\<open>int(delta.total_seconds())\<close>: whole seconds towards zero.\<close>

definition whole_seconds :: "int \<Rightarrow> int" where
  "whole_seconds d = (if 0 \<le> d then d div 1000000 else - ((- d) div 1000000))"

subsection \<open>Dictionaries\<close>

text \<open>
  A Python dictionary is an association list with distinct keys in insertion order:
  \<open>AList.update\<close> overwrites in place or appends, \<open>AList.delete\<close> removes.
\<close>

lemma map_of_update [table_simps]: "map_of (AList.update k v d) = (map_of d)(k \<mapsto> v)"
  by (rule update_conv')

lemma map_of_delete [table_simps]: "map_of (AList.delete k d) = (map_of d)(k := None)"
  by (rule delete_conv')

definition dict_get :: "('k \<times> 'v) list \<Rightarrow> 'k \<Rightarrow> 'v \<Rightarrow> 'v" where
  "dict_get d k dflt = (case map_of d k of None \<Rightarrow> dflt | Some v \<Rightarrow> v)"

lemma dict_get_update [table_simps]:
  "dict_get (AList.update k v d) k' dflt = (if k' = k then v else dict_get d k' dflt)"
  by (simp add: dict_get_def map_of_update)

lemma dict_get_delete [table_simps]:
  "dict_get (AList.delete k d) k' dflt = (if k' = k then dflt else dict_get d k' dflt)"
  by (simp add: dict_get_def map_of_delete)

lemma set_dict_update: "x \<in> set (AList.update k v d) \<Longrightarrow> x \<in> set d \<or> x = (k, v)"
  by (induction d) (auto split: if_splits)

lemma dict_get_Nil [simp]: "dict_get [] k dflt = dflt"
  by (simp add: dict_get_def)

subsection \<open>Lists\<close>

lemma sort_key_filter_le:
  fixes f :: "'a \<Rightarrow> 'b::linorder"
  assumes "x \<in> set (take n (sort_key f xs))" "y \<in> set (drop n (sort_key f xs))"
  shows "f x \<le> f y"
proof -
  have "sorted (map f (take n (sort_key f xs) @ drop n (sort_key f xs)))"
    by (metis append_take_drop_id sorted_sort_key)
  then show ?thesis
    unfolding map_append sorted_append using assms by auto
qed

lemma distinct_map_filter: "distinct (map k xs) \<Longrightarrow> distinct (map k (filter P xs))"
  by (induction xs) auto

lemma distinct_key_eq:
  "distinct (map k xs) \<Longrightarrow> x \<in> set xs \<Longrightarrow> y \<in> set xs \<Longrightarrow> k x = k y \<Longrightarrow> x = y"
  by (meson distinct_map inj_onD)

subsection \<open>Tables\<close>

text \<open>
  A table is the list of its rows. \<open>update_where\<close> is SQL's \<open>UPDATE ... WHERE\<close>,
  \<open>delete_where\<close> its \<open>DELETE ... WHERE\<close>; \<open>insert_absent\<close> is
  \<open>INSERT ... ON CONFLICT (key) DO NOTHING\<close>.
\<close>

definition update_where :: "('r \<Rightarrow> bool) \<Rightarrow> ('r \<Rightarrow> 'r) \<Rightarrow> 'r list \<Rightarrow> 'r list" where
  "update_where P f rows = map (\<lambda>r. if P r then f r else r) rows"

definition delete_where :: "('r \<Rightarrow> bool) \<Rightarrow> 'r list \<Rightarrow> 'r list" where
  "delete_where P rows = filter (\<lambda>r. \<not> P r) rows"

definition insert_absent :: "('r \<Rightarrow> 'k) \<Rightarrow> 'r \<Rightarrow> 'r list \<Rightarrow> 'r list" where
  "insert_absent key r rows = (if key r \<in> key ` set rows then rows else rows @ [r])"

lemma update_where_keys [table_simps]:
  "(\<And>r. key (f r) = key r) \<Longrightarrow> map key (update_where P f rows) = map key rows"
  by (simp add: update_where_def)

lemma update_where_keys_on:
  "(\<And>r. r \<in> set rows \<Longrightarrow> P r \<Longrightarrow> key (f r) = key r) \<Longrightarrow>
     map key (update_where P f rows) = map key rows"
  by (simp add: update_where_def)

lemma set_update_where:
  "set (update_where P f rows) = f ` {r \<in> set rows. P r} \<union> {r \<in> set rows. \<not> P r}"
  by (auto simp: update_where_def)

lemma update_where_forall:
  "(\<And>r. r \<in> set rows \<Longrightarrow> I r) \<Longrightarrow> (\<And>r. r \<in> set rows \<Longrightarrow> P r \<Longrightarrow> I r \<Longrightarrow> I (f r)) \<Longrightarrow>
     r \<in> set (update_where P f rows) \<Longrightarrow> I r"
  by (auto simp: update_where_def)

lemma updated_row:
  "r \<in> set (update_where (\<lambda>s. key s = k) f rows) \<Longrightarrow> key r = k \<Longrightarrow>
     \<exists>r0 \<in> set rows. key r0 = k \<and> r = f r0"
  by (auto simp: set_update_where)

lemma updated_in: "r \<in> set rows \<Longrightarrow> P r \<Longrightarrow> f r \<in> set (update_where P f rows)"
  by (simp add: set_update_where)

lemma length_update_where [table_simps]: "length (update_where P f rows) = length rows"
  by (simp add: update_where_def)

lemma update_where_none: "(\<And>r. r \<in> set rows \<Longrightarrow> \<not> P r) \<Longrightarrow> update_where P f rows = rows"
  by (simp add: update_where_def map_idI)

lemma distinct_insert_absent:
  "distinct (map key rows) \<Longrightarrow> distinct (map key (insert_absent key r rows))"
  by (auto simp: insert_absent_def)

lemma insert_absent_twice:
  "key r' = key r \<Longrightarrow> insert_absent key r' (insert_absent key r rows) = insert_absent key r rows"
  by (simp add: insert_absent_def)

lemma set_insert_absent: "set (insert_absent key r rows) \<subseteq> insert r (set rows)"
  by (simp add: insert_absent_def subset_insertI)

lemma keys_insert_absent:
  "key ` set (insert_absent key r rows) = insert (key r) (key ` set rows)"
  by (auto simp: insert_absent_def)

lemma map_key_cong: "(\<And>x. k (f x) = k x) \<Longrightarrow> map k (map f xs) = map k xs"
  by simp

end
