(* ===== verification/Py_Values.thy ===== *)
theory Py_Values
  imports Prelude Complex_Main
begin

section \<open>Python values and strings\<close>

text \<open>
  The dynamically typed values that travel in the dictionaries of the code (\<open>dict[str, Any]\<close>
  records, result envelopes, JSON documents), and the string and number functions of the Python
  standard library that the code calls on them. Text is ASCII: a \<open>string\<close> is a list of
  characters and case conversion touches the 26 Latin letters only. A float is an exact rational
  or one of the three special values; comparisons are those of IEEE 754, rounding is not
  modelled.
\<close>

subsection \<open>Floats\<close>

datatype pyfloat = Fin rat | PosInf | NegInf | NaN

fun f_le :: "pyfloat \<Rightarrow> pyfloat \<Rightarrow> bool" where
  "f_le NaN _ = False"
| "f_le _ NaN = False"
| "f_le NegInf _ = True"
| "f_le _ PosInf = True"
| "f_le (Fin a) (Fin b) = (a \<le> b)"
| "f_le _ _ = False"

fun f_eq :: "pyfloat \<Rightarrow> pyfloat \<Rightarrow> bool" where
  "f_eq NaN _ = False"
| "f_eq _ NaN = False"
| "f_eq a b = (a = b)"

definition f_lt :: "pyfloat \<Rightarrow> pyfloat \<Rightarrow> bool" where
  "f_lt a b = (f_le a b \<and> \<not> f_eq a b)"

abbreviation f_ge :: "pyfloat \<Rightarrow> pyfloat \<Rightarrow> bool" where
  "f_ge a b \<equiv> f_le b a"

abbreviation f_gt :: "pyfloat \<Rightarrow> pyfloat \<Rightarrow> bool" where
  "f_gt a b \<equiv> f_lt b a"

lemma f_le_NaN [simp]: "\<not> f_le x NaN" "\<not> f_le NaN x"
  by (cases x; simp)+

lemma f_lt_Fin [simp]: "f_lt (Fin a) (Fin b) \<longleftrightarrow> a < b"
  by (auto simp: f_lt_def)

lemma f_lt_NaN [simp]: "\<not> f_lt x NaN" "\<not> f_lt NaN x"
  by (simp_all add: f_lt_def)

lemma f_le_trans: "f_le a b \<Longrightarrow> f_le b c \<Longrightarrow> f_le a c"
  by (cases a; cases b; cases c; simp)

text \<open>\<open>abs(a - b)\<close>: the subtraction is exact; infinities follow IEEE 754.\<close>

fun f_absdiff :: "pyfloat \<Rightarrow> pyfloat \<Rightarrow> pyfloat" where
  "f_absdiff (Fin a) (Fin b) = Fin \<bar>a - b\<bar>"
| "f_absdiff NaN _ = NaN"
| "f_absdiff _ NaN = NaN"
| "f_absdiff PosInf PosInf = NaN"
| "f_absdiff NegInf NegInf = NaN"
| "f_absdiff _ _ = PosInf"

subsection \<open>Values\<close>

datatype pyval =
    PNone
  | PBool bool
  | PInt int
  | PFloat pyfloat
  | PStr string
  | PTime instant
  | PList "pyval list"
  | PDict "(string \<times> pyval) list"

type_synonym pydict = "(string \<times> pyval) list"

fun truthy :: "pyval \<Rightarrow> bool" where
  "truthy PNone = False"
| "truthy (PBool b) = b"
| "truthy (PInt i) = (i \<noteq> 0)"
| "truthy (PFloat x) = (x \<noteq> Fin 0)"
| "truthy (PStr s) = (s \<noteq> [])"
| "truthy (PTime _) = True"
| "truthy (PList xs) = (xs \<noteq> [])"
| "truthy (PDict d) = (d \<noteq> [])"

text \<open>\<open>a or b\<close>, and \<open>d.get(k)\<close>.\<close>

definition por :: "pyval \<Rightarrow> pyval \<Rightarrow> pyval" where
  "por a b = (if truthy a then a else b)"

definition get :: "pydict \<Rightarrow> string \<Rightarrow> pyval" where
  "get d k = dict_get d k PNone"

abbreviation has_key :: "pydict \<Rightarrow> string \<Rightarrow> bool" where
  "has_key d k \<equiv> map_of d k \<noteq> None"

abbreviation put :: "string \<Rightarrow> pyval \<Rightarrow> pydict \<Rightarrow> pydict" where
  "put \<equiv> AList.update"

lemma get_put [table_simps]: "get (put k v d) k' = (if k' = k then v else get d k')"
  by (simp add: get_def dict_get_update)

lemma get_Nil [simp]: "get [] k = PNone"
  by (simp add: get_def)

lemma get_Cons [simp]: "get ((k, v) # d) k' = (if k' = k then v else get d k')"
  by (simp add: get_def dict_get_def)

lemma por_simps [simp]: "truthy a \<Longrightarrow> por a b = a" "\<not> truthy a \<Longrightarrow> por a b = b"
  by (simp_all add: por_def)

text \<open>
  \<open>{**d, **e}\<close>: the entries of \<open>e\<close> over those of \<open>d\<close>, keys keeping the place where they
  were first seen.
\<close>

fun merge_dict :: "pydict \<Rightarrow> pydict \<Rightarrow> pydict" where
  "merge_dict d [] = d"
| "merge_dict d ((k, v) # e) = merge_dict (put k v d) e"

lemma get_merge_dict [table_simps]:
  "distinct (map fst e) \<Longrightarrow>
     get (merge_dict d e) k = (case map_of e k of None \<Rightarrow> get d k | Some v \<Rightarrow> v)"
proof (induction d e rule: merge_dict.induct)
  case (1 d)
  then show ?case by simp
next
  case (2 d k' v e)
  moreover from "2.prems" have "map_of e k' = None"
    by (simp add: map_of_eq_None_iff)
  ultimately show ?case by (auto simp: get_put split: option.splits)
qed

text \<open>\<open>(d.get(k) or {})\<close> used as a dictionary; a value that is no dictionary has no \<open>get\<close>.\<close>

definition sub_dict :: "pydict \<Rightarrow> string \<Rightarrow> pydict result" where
  "sub_dict d k =
     (case por (get d k) (PDict []) of PDict e \<Rightarrow> Inr e | _ \<Rightarrow> Inl (TypeError ''no attribute get''))"

subsection \<open>Characters and strings\<close>

definition is_space :: "char \<Rightarrow> bool" where
  "is_space c = (let n = of_char c :: nat in (9 \<le> n \<and> n \<le> 13) \<or> (28 \<le> n \<and> n \<le> 32))"

definition is_digit :: "char \<Rightarrow> bool" where
  "is_digit c = (let n = of_char c :: nat in 48 \<le> n \<and> n \<le> 57)"

definition is_lower :: "char \<Rightarrow> bool" where
  "is_lower c = (let n = of_char c :: nat in 97 \<le> n \<and> n \<le> 122)"

definition is_upper :: "char \<Rightarrow> bool" where
  "is_upper c = (let n = of_char c :: nat in 65 \<le> n \<and> n \<le> 90)"

definition upper_char :: "char \<Rightarrow> char" where
  "upper_char c = (if is_lower c then char_of (of_char c - 32 :: nat) else c)"

definition lower_char :: "char \<Rightarrow> char" where
  "lower_char c = (if is_upper c then char_of (of_char c + 32 :: nat) else c)"

text \<open>On the bits of a character the tests evaluate without arithmetic.\<close>

lemma is_upper_bits [code]:
  "is_upper (Char b0 b1 b2 b3 b4 b5 b6 b7) \<longleftrightarrow>
     \<not> b7 \<and> b6 \<and> \<not> b5 \<and> (b0 \<or> b1 \<or> b2 \<or> b3 \<or> b4) \<and> \<not> (b4 \<and> b3 \<and> (b2 \<or> b1 \<and> b0))"
  by (cases b0; cases b1; cases b2; cases b3; cases b4; cases b5; cases b6; cases b7)
     (simp_all add: is_upper_def)

lemma lower_char_bits [code]:
  "lower_char (Char b0 b1 b2 b3 b4 b5 b6 b7) =
     (if is_upper (Char b0 b1 b2 b3 b4 b5 b6 b7) then Char b0 b1 b2 b3 b4 True b6 b7
      else Char b0 b1 b2 b3 b4 b5 b6 b7)"
  unfolding lower_char_def is_upper_bits
  by (cases b0; cases b1; cases b2; cases b3; cases b4; cases b5; cases b6; cases b7)
     (simp_all add: char_of_def bit_iff_odd)

abbreviation upper :: "string \<Rightarrow> string" where
  "upper \<equiv> map upper_char"

abbreviation lower :: "string \<Rightarrow> string" where
  "lower \<equiv> map lower_char"

definition lstrip :: "string \<Rightarrow> string" where
  "lstrip s = dropWhile is_space s"

definition strip :: "string \<Rightarrow> string" where
  "strip s = rev (lstrip (rev (lstrip s)))"

definition starts_with :: "string \<Rightarrow> string \<Rightarrow> bool" where
  "starts_with p s = (take (length p) s = p)"

lemma starts_with_steps [code]:
  "starts_with [] s = True"
  "starts_with (c # p) s = (case s of [] \<Rightarrow> False | d # s' \<Rightarrow> if c = d then starts_with p s' else False)"
  by (auto simp: starts_with_def split: list.split)

definition ends_with :: "string \<Rightarrow> string \<Rightarrow> bool" where
  "ends_with p s = starts_with (rev p) (rev s)"

fun contains :: "string \<Rightarrow> string \<Rightarrow> bool" where
  "contains p [] = (p = [])"
| "contains p (c # s) = (starts_with p (c # s) \<or> contains p s)"

fun split_on :: "char \<Rightarrow> string \<Rightarrow> string list" where
  "split_on c [] = [[]]"
| "split_on c (x # xs) =
     (if x = c then [] # split_on c xs
      else case split_on c xs of [] \<Rightarrow> [[x]] | w # ws \<Rightarrow> (x # w) # ws)"

fun join :: "string \<Rightarrow> string list \<Rightarrow> string" where
  "join sep [] = []"
| "join sep [w] = w"
| "join sep (w # v # ws) = w @ sep @ join sep (v # ws)"

text \<open>\<open>s.replace(p, q)\<close> for a non-empty \<open>p\<close>\<close>

fun replace_str :: "string \<Rightarrow> string \<Rightarrow> string \<Rightarrow> string" where
  "replace_str p q [] = []"
| "replace_str p q (c # s) =
     (if starts_with p (c # s) then q @ replace_str p q (drop (length p - 1) s)
      else c # replace_str p q s)"

lemma split_on_nonempty [simp]: "split_on c s \<noteq> []"
  by (induction s) (auto split: list.splits)

lemma split_on_no_sep: "c \<notin> set s \<Longrightarrow> split_on c s = [s]"
  by (induction s) auto

lemma split_on_append: "c \<notin> set s \<Longrightarrow> split_on c (s @ c # t) = s # split_on c t"
  by (induction s) auto

lemma split_join:
  "ws \<noteq> [] \<Longrightarrow> \<forall>w \<in> set ws. c \<notin> set w \<Longrightarrow> split_on c (join [c] ws) = ws"
  by (induction "[c]" ws rule: join.induct) (auto simp: split_on_no_sep split_on_append)

lemma join_inject:
  assumes "ws \<noteq> []" "vs \<noteq> []" "\<forall>w \<in> set ws. c \<notin> set w" "\<forall>w \<in> set vs. c \<notin> set w"
  shows "join [c] ws = join [c] vs \<longleftrightarrow> ws = vs"
  using assms split_join by metis

subsection \<open>Numbers as text\<close>

definition digit_char :: "nat \<Rightarrow> char" where
  "digit_char d = char_of (48 + d)"

fun show_nat :: "nat \<Rightarrow> string" where
  "show_nat n = (if n < 10 then [digit_char n] else show_nat (n div 10) @ [digit_char (n mod 10)])"

declare show_nat.simps [simp del]

definition show_int :: "int \<Rightarrow> string" where
  "show_int i = (if i < 0 then CHR ''-'' # show_nat (nat (- i)) else show_nat (nat i))"

text \<open>
  \<open>str(v)\<close>: \<open>fmt\<close> gives the text of the values whose formatting is the runtime's own
  business (floats, dates, containers).
\<close>

fun py_str :: "(pyval \<Rightarrow> string) \<Rightarrow> pyval \<Rightarrow> string" where
  "py_str fmt PNone = ''None''"
| "py_str fmt (PBool b) = (if b then ''True'' else ''False'')"
| "py_str fmt (PInt i) = show_int i"
| "py_str fmt (PStr s) = s"
| "py_str fmt v = fmt v"

text \<open>Digits with single underscores between them, as \<open>int\<close> and \<open>float\<close> read them.\<close>

fun digits_ok :: "string \<Rightarrow> bool" where
  "digits_ok [] = False"
| "digits_ok [c] = is_digit c"
| "digits_ok (c # d # cs) =
     (is_digit c \<and> (if d = CHR ''_'' then digits_ok cs else digits_ok (d # cs)))"

definition digits_value :: "string \<Rightarrow> nat" where
  "digits_value s = foldl (\<lambda>n c. 10 * n + (of_char c - 48)) 0 (filter (\<lambda>c. c \<noteq> CHR ''_'') s)"

fun split_sign :: "string \<Rightarrow> bool \<times> string" where
  "split_sign (c # cs) =
     (if c = CHR ''-'' then (True, cs) else if c = CHR ''+'' then (False, cs) else (False, c # cs))"
| "split_sign [] = (False, [])"

definition parse_int :: "string \<Rightarrow> int option" where
  "parse_int s =
     (let (neg, ds) = split_sign (strip s)
      in if digits_ok ds then Some ((if neg then - 1 else 1) * int (digits_value ds)) else None)"

definition parse_exp :: "string list \<Rightarrow> int option" where
  "parse_exp es = (case es of [] \<Rightarrow> Some 0
     | [e] \<Rightarrow> (let (neg, ds) = split_sign e
              in if digits_ok ds then Some ((if neg then - 1 else 1) * int (digits_value ds)) else None)
     | _ \<Rightarrow> None)"

definition scale10 :: "rat \<Rightarrow> int \<Rightarrow> rat" where
  "scale10 m e = (if 0 \<le> e then m * 10 ^ nat e else m / 10 ^ nat (- e))"

definition count_digits :: "string \<Rightarrow> nat" where
  "count_digits s = length (filter (\<lambda>c. c \<noteq> CHR ''_'') s)"

definition parse_mantissa :: "string \<Rightarrow> rat option" where
  "parse_mantissa m = (case split_on (CHR ''.'') m of
       [i] \<Rightarrow> if digits_ok i then Some (of_nat (digits_value i)) else None
     | [i, f] \<Rightarrow>
         if (i = [] \<or> digits_ok i) \<and> (f = [] \<or> digits_ok f) \<and> (i \<noteq> [] \<or> f \<noteq> [])
         then Some (of_nat (digits_value i) + of_nat (digits_value f) / 10 ^ count_digits f)
         else None
     | _ \<Rightarrow> None)"

definition parse_float :: "string \<Rightarrow> pyfloat option" where
  "parse_float s =
     (let (neg, body) = split_sign (lower (strip s))
      in if body \<in> {''inf'', ''infinity''} then Some (if neg then NegInf else PosInf)
         else if body = ''nan'' then Some NaN
         else case split_on (CHR ''e'') body of
             [] \<Rightarrow> None
           | m # es \<Rightarrow>
               (case (parse_mantissa m, parse_exp es) of
                  (Some r, Some e) \<Rightarrow> Some (Fin ((if neg then - 1 else 1) * scale10 r e))
                | _ \<Rightarrow> None))"

text \<open>Decimal text and its value.\<close>

lemma digit_char_props:
  assumes "d < 10"
  shows "is_digit (digit_char d)" "of_char (digit_char d) - 48 = d" "digit_char d \<noteq> CHR ''_''"
proof -
  have code: "of_char (digit_char d) = (48 + d :: nat)"
    using assms by (simp add: digit_char_def)
  then show "is_digit (digit_char d)" "of_char (digit_char d) - 48 = d"
    using assms by (simp_all add: is_digit_def)
  show "digit_char d \<noteq> CHR ''_''"
  proof
    assume "digit_char d = CHR ''_''"
    with code have "(of_char CHR ''_'' :: nat) = 48 + d" by simp
    with assms show False by simp
  qed
qed

lemma show_nat_digits: "\<forall>c \<in> set (show_nat n). is_digit c \<and> c \<noteq> CHR ''_''"
proof (induction n rule: show_nat.induct)
  case (1 n)
  then show ?case
    by (subst show_nat.simps) (auto simp: digit_char_props)
qed

lemma show_nat_nonempty [simp]: "show_nat n \<noteq> []"
  by (subst show_nat.simps) simp

lemma digits_ok_plain:
  "ds \<noteq> [] \<Longrightarrow> \<forall>c \<in> set ds. is_digit c \<and> c \<noteq> CHR ''_'' \<Longrightarrow> digits_ok ds"
  by (induction ds rule: digits_ok.induct) auto

lemma digits_ok_show [simp]: "digits_ok (show_nat n)"
  by (rule digits_ok_plain) (simp_all add: show_nat_digits)

lemma digits_value_snoc:
  "d < 10 \<Longrightarrow> digits_value (s @ [digit_char d]) = 10 * digits_value s + d"
  by (simp add: digits_value_def digit_char_props)

lemma digits_value_show [simp]: "digits_value (show_nat n) = n"
proof (induction n rule: show_nat.induct)
  case (1 n)
  show ?case
  proof (cases "n < 10")
    case True
    then show ?thesis
      using digits_value_snoc [of n "[]"] by (subst show_nat.simps) (simp add: digits_value_def)
  next
    case False
    with 1 show ?thesis
      by (subst show_nat.simps) (simp add: digits_value_snoc)
  qed
qed

lemma takeWhile_show:
  "\<not> is_digit c \<Longrightarrow> takeWhile is_digit (show_nat n @ c # s) = show_nat n"
  "\<not> is_digit c \<Longrightarrow> dropWhile is_digit (show_nat n @ c # s) = c # s"
  using show_nat_digits [of n] by (simp_all add: takeWhile_append2 dropWhile_append2)

lemma show_nat_no_char: "\<not> is_digit c \<Longrightarrow> c \<notin> set (show_nat n)"
  using show_nat_digits by blast

lemma show_nat_inject: "show_nat m = show_nat n \<longleftrightarrow> m = n"
  by (metis digits_value_show)

lemma parse_mantissa_show [simp]: "parse_mantissa (show_nat n) = Some (of_nat n)"
  by (simp add: parse_mantissa_def split_on_no_sep show_nat_no_char is_digit_def)

text \<open>\<open>int(v)\<close> and \<open>float(v)\<close>.\<close>

fun py_int :: "pyval \<Rightarrow> int result" where
  "py_int (PBool b) = Inr (if b then 1 else 0)"
| "py_int (PInt i) = Inr i"
| "py_int (PFloat (Fin r)) = Inr (if r < 0 then - \<lfloor>- r\<rfloor> else \<lfloor>r\<rfloor>)"
| "py_int (PFloat NaN) = Inl (ValueError ''cannot convert float NaN to integer'')"
| "py_int (PFloat _) = Inl (ValueError ''cannot convert float infinity to integer'')"
| "py_int (PStr s) = (case parse_int s of
      None \<Rightarrow> Inl (ValueError ''invalid literal for int()'') | Some i \<Rightarrow> Inr i)"
| "py_int _ = Inl (TypeError ''int() argument'')"

fun py_float :: "pyval \<Rightarrow> pyfloat result" where
  "py_float (PBool b) = Inr (Fin (if b then 1 else 0))"
| "py_float (PInt i) = Inr (Fin (of_int i))"
| "py_float (PFloat x) = Inr x"
| "py_float (PStr s) = (case parse_float s of
      None \<Rightarrow> Inl (ValueError ''could not convert string to float'') | Some x \<Rightarrow> Inr x)"
| "py_float _ = Inl (TypeError ''float() argument'')"

subsection \<open>Rounding\<close>

text \<open>\<open>round(x, d)\<close>: the nearest multiple, halves to the even one.\<close>

definition round_half_even :: "rat \<Rightarrow> int" where
  "round_half_even x =
     (let f = \<lfloor>x\<rfloor>; d = x - of_int f
      in if d < 1 / 2 then f else if d > 1 / 2 then f + 1 else if even f then f else f + 1)"

definition round_to :: "nat \<Rightarrow> rat \<Rightarrow> rat" where
  "round_to d x = of_int (round_half_even (x * 10 ^ d)) / 10 ^ d"

lemma round_half_even_bounds:
  assumes "of_int a \<le> x" "x \<le> of_int b"
  shows "a \<le> round_half_even x" "round_half_even x \<le> b"
proof -
  have "a \<le> \<lfloor>x\<rfloor>" using assms(1) by linarith
  then show "a \<le> round_half_even x" by (simp add: round_half_even_def Let_def)
  show "round_half_even x \<le> b"
  proof (cases "x = of_int b")
    case False
    with assms(2) have "\<lfloor>x\<rfloor> < b" by linarith
    then show ?thesis by (simp add: round_half_even_def Let_def)
  qed (simp add: round_half_even_def)
qed

lemma round_to_bounds:
  assumes "of_int a \<le> x" "x \<le> of_int b"
  shows "of_int a \<le> round_to d x" "round_to d x \<le> of_int b"
proof -
  have p: "(0::rat) < 10 ^ d" by simp
  have "of_int (a * 10 ^ d) \<le> x * 10 ^ d" "x * 10 ^ d \<le> of_int (b * 10 ^ d)"
    using assms p by (simp_all add: mult_right_mono)
  from round_half_even_bounds [OF this] have "of_int (a * 10 ^ d) \<le> (of_int (round_half_even (x * 10 ^ d)) :: rat)" "of_int (round_half_even (x * 10 ^ d)) \<le> (of_int (b * 10 ^ d) :: rat)"
    by (simp_all only: of_int_le_iff)
  with p show "of_int a \<le> round_to d x" "round_to d x \<le> of_int b"
    by (simp_all add: round_to_def pos_le_divide_eq pos_divide_le_eq)
qed

subsection \<open>The runtime\<close>

text \<open>
  What the code takes from the runtime and the standard library without the model computing it:
  the text of floats, dates and containers, SHA-256 in hexadecimal, UUIDv5 in the URL namespace,
  ISO text of an instant and its parser.
\<close>

record runtime =
  rt_fmt :: "pyval \<Rightarrow> string"
  rt_sha :: "string \<Rightarrow> string"
  rt_uuid5 :: "string \<Rightarrow> string"
  rt_iso :: "instant \<Rightarrow> string"
  rt_parse_iso :: "string \<Rightarrow> instant option"

abbreviation text_of :: "runtime \<Rightarrow> pyval \<Rightarrow> string" where
  "text_of rt \<equiv> py_str (rt_fmt rt)"

text \<open>\<open>d.get(k1) or d.get(k2) or ... or dflt\<close>\<close>

fun get_or :: "pydict \<Rightarrow> string list \<Rightarrow> pyval \<Rightarrow> pyval" where
  "get_or d [] dflt = dflt"
| "get_or d (k # ks) dflt = por (get d k) (get_or d ks dflt)"

end
