(* ===== verification/Topology_Rca.thy ===== *)
theory Topology_Rca
  imports Py_Values "HOL-Library.Product_Lexorder"
begin

section \<open>Root causes from the topology (repositories/topology_repo.py, engines/correlation.py)\<close>

text \<open>
  The correlation traversal over relationships and status-gated physical links, the index of open
  parents, the index of parents observed in the same cycle, and the choice of the observations that
  become root events. Identifiers are strings, the empty one standing for a missing value; a
  dictionary of sets is a function to lists.
\<close>

subsection \<open>The traversal\<close>

datatype hop = Ci_hop | Link_hop

text \<open>A variant: the position of its physical link, and its hops; the pure variant takes 1 to depth hops.\<close>

type_synonym path_variant = "nat option \<times> hop list"

definition correlation_path_variants :: "int \<Rightarrow> path_variant list" where
  "correlation_path_variants max_depth =
     (let depth = nat (max 1 max_depth) in
      (None, [Ci_hop]) #
      concat (map (\<lambda>p. map (\<lambda>n. (Some p, replicate (p - 1) Ci_hop @ [Link_hop] @ replicate (n - p) Ci_hop)) [p..<depth + 1]) [1..<depth + 1]))"

definition correlation_max_depth :: int where
  "correlation_max_depth = 3"

definition correlation_relationship_types :: "string list" where
  "correlation_relationship_types = [''DEPENDS_ON'', ''HOSTED_ON'', ''CONNECTS_TO'']"

definition propagating_physical_link_statuses :: "string list" where
  "propagating_physical_link_statuses = [''UNKNOWN'', ''UP'']"

type_synonym relation = "string \<times> string \<times> string"

record topology =
  tp_edges :: "relation list"
  tp_via :: "(string \<times> string) list"
  tp_status :: "(string \<times> string) list"

text \<open>
  The matches of a hop sequence from a node: the relationships used, the nodes after the start and
  the link crossed with its status. Cypher uses no relationship twice in one match.
\<close>

fun match_hops :: "topology \<Rightarrow> string \<Rightarrow> hop list \<Rightarrow> (relation list \<times> string list \<times> (string \<times> string) option) list" where
  "match_hops T n [] = [([], [], None)]"
| "match_hops T n (Ci_hop # hs) =
     concat (map (\<lambda>(a, ty, b). map (\<lambda>(es, ns, l). ((a, ty, b) # es, b # ns, l)) (match_hops T b hs))
       (filter (\<lambda>(a, ty, b). a = n \<and> ty \<in> set correlation_relationship_types) (tp_edges T)))"
| "match_hops T n (Link_hop # hs) =
     concat (map (\<lambda>(a, pl). case map_of (tp_status T) pl of None \<Rightarrow> []
        | Some st \<Rightarrow> if st \<notin> set propagating_physical_link_statuses then []
          else concat (map (\<lambda>(b, pl'). map (\<lambda>(es, ns, l). (es, b # ns, Some (pl, st))) (match_hops T b hs))
                 (filter (\<lambda>(b, pl'). pl' = pl \<and> b \<noteq> n) (tp_via T))))
       (filter (\<lambda>(a, pl). a = n) (tp_via T)))"

definition variant_matches :: "topology \<Rightarrow> int \<Rightarrow> string \<Rightarrow> path_variant \<Rightarrow> (relation list \<times> string list \<times> (string \<times> string) option) list" where
  "variant_matches T max_depth n v =
     filter (\<lambda>(es, ns, l). distinct es)
       (case v of (None, hs) \<Rightarrow> concat (map (\<lambda>k. match_hops T n (replicate k Ci_hop)) [1..<nat (max 1 max_depth) + 1])
        | (Some p, hs) \<Rightarrow> match_hops T n hs)"

definition enabled_variants :: "bool \<Rightarrow> int \<Rightarrow> path_variant list" where
  "enabled_variants links_on max_depth =
     filter (\<lambda>(p, hs). p = None \<or> links_on) (correlation_path_variants max_depth)"

definition correlation_parents :: "topology \<Rightarrow> bool \<Rightarrow> int \<Rightarrow> string \<Rightarrow> (string \<times> (string \<times> string) option) list" where
  "correlation_parents T links_on max_depth n =
     remdups (concat (map (\<lambda>v. map (\<lambda>(es, ns, l). (List.last ns, l)) (variant_matches T max_depth n v)) (enabled_variants links_on max_depth)))"

definition correlation_edges :: "topology \<Rightarrow> bool \<Rightarrow> int \<Rightarrow> string \<Rightarrow> (string \<times> string) list" where
  "correlation_edges T links_on max_depth n =
     remdups (concat (map (\<lambda>v. concat (map (\<lambda>(es, ns, l). zip (n # ns) ns) (variant_matches T max_depth n v))) (enabled_variants links_on max_depth)))"

definition get_topology_relations :: "topology \<Rightarrow> bool \<Rightarrow> string list \<Rightarrow> string \<Rightarrow> string list" where
  "get_topology_relations T links_on cis_ids =
     (let edges = concat (map (correlation_edges T links_on correlation_max_depth) (filter (\<lambda>c. c \<noteq> []) cis_ids))
      in (\<lambda>n. remdups (map snd (filter (\<lambda>(a, b). a = n \<and> a \<noteq> [] \<and> b \<noteq> []) edges))))"

subsection \<open>Parents with an open root event\<close>

record parent_entry =
  pa_event :: string
  pa_root_ci :: string
  pa_link :: "(string \<times> string) option"

type_synonym parent_index = "((string \<times> string) \<times> parent_entry) list"

text \<open>What the query reads of an event; the root cause may be missing.\<close>

record open_event =
  oe_id :: string
  oe_ci :: string
  oe_severity :: string
  oe_created :: instant
  oe_root :: "string option"

definition parent_rank :: "open_event \<times> (string \<times> string) option \<Rightarrow> nat \<times> int \<times> bool" where
  "parent_rank c =
     (case c of (e, l) \<Rightarrow> (if oe_severity e = ''CRITICAL'' then 1 else if oe_severity e = ''WARNING'' then 2 else 3, oe_created e, l = None))"

text \<open>\<open>find_open_parent_event\<close>: the best open root event of a parent.\<close>

definition find_open_parent_event :: "topology \<Rightarrow> bool \<Rightarrow> int \<Rightarrow> open_event list \<Rightarrow> string \<Rightarrow> parent_entry option" where
  "find_open_parent_event T links_on max_depth evs n =
     (case sort_key parent_rank
        (concat (map (\<lambda>(p, l). map (\<lambda>e. (e, l)) (filter (\<lambda>e. oe_ci e = p) evs)) (correlation_parents T links_on max_depth n))) of
        [] \<Rightarrow> None
      | (e, l) # _ \<Rightarrow> Some \<lparr>pa_event = oe_id e, pa_root_ci = (case oe_root e of Some r \<Rightarrow> if r = [] then oe_ci e else r | None \<Rightarrow> oe_ci e), pa_link = l\<rparr>)"

definition build_open_parent_index ::
  "topology \<Rightarrow> bool \<Rightarrow> string list \<Rightarrow> (string \<times> bool option) list \<Rightarrow> open_event list \<Rightarrow> (string \<times> string) list \<Rightarrow> parent_index" where
  "build_open_parent_index T links_on items metrics evs pairs =
     List.map_filter (\<lambda>(ci, m).
         if ci \<in> set items \<and> m \<in> fst ` set metrics \<and> map_of metrics m \<noteq> Some (Some False)
         then map_option (\<lambda>p. ((ci, m), p)) (find_open_parent_event T links_on correlation_max_depth evs ci) else None)
       (remdups pairs)"

subsection \<open>Observations and the parents observed with them\<close>

record observation =
  ob_ci :: string
  ob_metric :: string
  ob_type :: string
  ob_family :: "string option"
  ob_protocol :: string
  ob_source :: "string option"
  ob_avail :: "string option"
  ob_kind :: string
  ob_status :: string
  ob_severity :: string
  ob_message :: string
  ob_value :: "rat option"
  ob_corr :: string
  ob_from :: "string option"
  ob_root :: "string option"
  ob_link :: "string option"
  ob_link_status :: "string option"

definition event_producing :: "observation \<Rightarrow> bool" where
  "event_producing o1 = (ob_ci o1 \<noteq> [] \<and> ob_metric o1 \<noteq> [] \<and> ob_type o1 \<noteq> [])"

definition triplet :: "observation \<Rightarrow> string \<times> string \<times> string" where
  "triplet o1 = (ob_ci o1, ob_metric o1, ob_type o1)"

text \<open>
  The walk of \<open>build_cycle_parent_index\<close>: up to \<open>d\<close> more levels from the frontier, the least
  observed item of the first level that has one.
\<close>

fun cycle_walk :: "(string \<Rightarrow> string list) \<Rightarrow> string list \<Rightarrow> nat \<Rightarrow> string list \<Rightarrow> string list \<Rightarrow> string option" where
  "cycle_walk rel observed 0 visited frontier = None"
| "cycle_walk rel observed (Suc d) visited frontier =
     (let upstream = remdups (filter (\<lambda>p. p \<noteq> [] \<and> p \<notin> set visited) (concat (map rel frontier)))
      in if upstream = [] then None
         else case sort (filter (\<lambda>p. p \<in> set observed) upstream) of
           p # _ \<Rightarrow> Some p
         | [] \<Rightarrow> cycle_walk rel observed d (visited @ upstream) upstream)"

definition build_cycle_parent_index :: "observation list \<Rightarrow> (string \<Rightarrow> string list) \<Rightarrow> ((string \<times> string) \<times> string) list" where
  "build_cycle_parent_index obs rel =
     (let rows = filter event_producing obs; observed = map ob_ci rows
      in fold (\<lambda>r ix. case cycle_walk rel observed 3 [ob_ci r] [ob_ci r] of
             None \<Rightarrow> ix | Some p \<Rightarrow> AList.update (ob_ci r, ob_metric r) p ix) rows [])"

definition current_cycle_parent_candidates :: "observation list \<Rightarrow> (string \<times> string \<times> string) set" where
  "current_cycle_parent_candidates obs = triplet ` set (filter event_producing obs)"

definition cycle_root_candidates ::
  "observation list \<Rightarrow> parent_index \<Rightarrow> ((string \<times> string) \<times> string) list \<Rightarrow> (string \<times> string \<times> string) set" where
  "cycle_root_candidates obs ix cycle_parents =
     triplet ` set (filter (\<lambda>r. event_producing r \<and> map_of ix (ob_ci r, ob_metric r) = None
        \<and> map_of cycle_parents (ob_ci r, ob_metric r) = None) obs)"

subsection \<open>The nearest observed parent\<close>

definition upstream_edge :: "(string \<Rightarrow> string list) \<Rightarrow> (string \<times> string) set" where
  "upstream_edge rel = {(a, b). b \<in> set (rel a) \<and> b \<noteq> []}"

text \<open>The items whose shortest path from \<open>n\<close> has \<open>d\<close> hops.\<close>

definition layer :: "(string \<Rightarrow> string list) \<Rightarrow> string \<Rightarrow> nat \<Rightarrow> string set" where
  "layer rel n d = {p. (n, p) \<in> upstream_edge rel ^^ d \<and> (\<forall>j < d. (n, p) \<notin> upstream_edge rel ^^ j)}"

definition nearest_observed :: "(string \<Rightarrow> string list) \<Rightarrow> string set \<Rightarrow> nat \<Rightarrow> string \<Rightarrow> string \<Rightarrow> bool" where
  "nearest_observed rel obs depth n p \<longleftrightarrow>
     (\<exists>d. 1 \<le> d \<and> d \<le> depth \<and> p \<in> layer rel n d \<inter> obs \<and> (\<forall>q \<in> layer rel n d \<inter> obs. p \<le> q)
        \<and> (\<forall>j. 1 \<le> j \<and> j < d \<longrightarrow> layer rel n j \<inter> obs = {}))"

lemma layer_0: "layer rel n 0 = {n}"
  by (simp add: layer_def)

lemma reached_layer: "(n, b) \<in> upstream_edge rel ^^ k \<Longrightarrow> \<exists>j \<le> k. b \<in> layer rel n j"
proof (induction k rule: less_induct)
  case (less k)
  show ?case
  proof (cases "\<exists>j < k. (n, b) \<in> upstream_edge rel ^^ j")
    case True
    then obtain j where "j < k" "(n, b) \<in> upstream_edge rel ^^ j" by blast
    with less.IH obtain i where "i \<le> j" "b \<in> layer rel n i" by blast
    with \<open>j < k\<close> show ?thesis by (intro exI [of _ i]) simp
  next
    case False
    with less.prems show ?thesis by (auto simp: layer_def)
  qed
qed

lemma layer_Suc:
  "layer rel n (Suc k) = {b. b \<noteq> [] \<and> (\<exists>a \<in> layer rel n k. b \<in> set (rel a)) \<and> b \<notin> (\<Union>j \<le> k. layer rel n j)}"
  (is "?L = ?R")
proof (rule set_eqI, rule iffI)
  fix b
  assume b: "b \<in> ?L"
  then obtain a where a: "(n, a) \<in> upstream_edge rel ^^ k" "(a, b) \<in> upstream_edge rel"
    by (auto simp: layer_def)
  have "(n, a) \<notin> upstream_edge rel ^^ j" if "j < k" for j
  proof
    assume "(n, a) \<in> upstream_edge rel ^^ j"
    with a(2) have "(n, b) \<in> upstream_edge rel ^^ Suc j" by auto
    with b that show False unfolding layer_def by blast
  qed
  with a(1) have "a \<in> layer rel n k" by (simp add: layer_def)
  moreover have "b \<notin> layer rel n j" if "j \<le> k" for j
    using b that unfolding layer_def by (auto simp: less_Suc_eq_le)
  ultimately show "b \<in> ?R" using a(2) by (auto simp: upstream_edge_def)
next
  fix b
  assume b: "b \<in> ?R"
  then obtain a where "a \<in> layer rel n k" "(a, b) \<in> upstream_edge rel" by (auto simp: upstream_edge_def)
  then have "(n, b) \<in> upstream_edge rel ^^ Suc k" by (auto simp: layer_def)
  moreover have "(n, b) \<notin> upstream_edge rel ^^ j" if "j < Suc k" for j
  proof
    assume "(n, b) \<in> upstream_edge rel ^^ j"
    then obtain i where "i \<le> j" "b \<in> layer rel n i" using reached_layer by blast
    with b that show False by auto
  qed
  ultimately show "b \<in> ?L" by (simp add: layer_def)
qed

lemma layers_end: "layer rel n (Suc k) = {} \<Longrightarrow> layer rel n (Suc k + i) = {}"
  by (induction i) (simp_all add: layer_Suc [of rel n "Suc k + _"] layer_Suc [of rel n "Suc (k + _)"])

lemma least_of_list: "(case sort ys of p # _ \<Rightarrow> Some p | [] \<Rightarrow> None) = Some (p :: string) \<longleftrightarrow> p \<in> set ys \<and> (\<forall>q \<in> set ys. p \<le> q)"
proof (cases "sort ys")
  case (Cons x zs)
  have "sorted (x # zs)" "set (x # zs) = set ys" by (simp_all flip: Cons)
  then have "x \<in> set ys" "\<forall>q \<in> set ys. x \<le> q" by auto
  then show ?thesis using Cons by (auto intro: antisym)
next
  case Nil
  then have "ys = []" by (metis set_empty set_sort)
  then show ?thesis by simp
qed

lemma walk_is_nearest:
  assumes "set frontier = layer rel n k" "set visited = (\<Union>j \<le> k. layer rel n j)"
  shows "cycle_walk rel observed d visited frontier = Some p \<longleftrightarrow>
    (\<exists>m. k < m \<and> m \<le> k + d \<and> p \<in> layer rel n m \<inter> set observed \<and> (\<forall>q \<in> layer rel n m \<inter> set observed. p \<le> q)
       \<and> (\<forall>j. k < j \<and> j < m \<longrightarrow> layer rel n j \<inter> set observed = {}))"
  using assms
proof (induction d arbitrary: k visited frontier)
  case (Suc d)
  define up where "up = remdups (filter (\<lambda>p. p \<noteq> [] \<and> p \<notin> set visited) (concat (map rel frontier)))"
  have up: "set up = layer rel n (Suc k)"
    unfolding layer_Suc by (auto simp: up_def Suc.prems)
  have visited: "set (visited @ up) = (\<Union>j \<le> Suc k. layer rel n j)"
    by (auto simp: up Suc.prems atMost_Suc)
  define ys where "ys = filter (\<lambda>p. p \<in> set observed) up"
  have ys: "set ys = layer rel n (Suc k) \<inter> set observed" by (auto simp: ys_def up)
  have step: "cycle_walk rel observed (Suc d) visited frontier =
      (if up = [] then None else case sort ys of p # _ \<Rightarrow> Some p | [] \<Rightarrow> cycle_walk rel observed d (visited @ up) up)"
    unfolding cycle_walk.simps(2) Let_def up_def [symmetric] ys_def by (rule refl)
  show ?case
  proof (cases "ys = []")
    case False
    then have "sort ys \<noteq> []" by (metis set_empty set_sort)
    moreover have "up \<noteq> []" using False by (auto simp: ys_def)
    ultimately have "cycle_walk rel observed (Suc d) visited frontier = (case sort ys of p # _ \<Rightarrow> Some p | [] \<Rightarrow> None)"
      unfolding step by (cases "sort ys") simp_all
    then have "cycle_walk rel observed (Suc d) visited frontier = Some p \<longleftrightarrow> p \<in> set ys \<and> (\<forall>q \<in> set ys. p \<le> q)"
      by (simp only: least_of_list)
    moreover have "m = Suc k" if "k < m" "\<forall>j. k < j \<and> j < m \<longrightarrow> layer rel n j \<inter> set observed = {}" for m
    proof (rule ccontr)
      assume "m \<noteq> Suc k"
      with that have "layer rel n (Suc k) \<inter> set observed = {}" by auto
      with False ys show False by simp
    qed
    moreover have "p \<in> set ys \<and> (\<forall>q \<in> set ys. p \<le> q) \<longleftrightarrow>
        k < Suc k \<and> Suc k \<le> k + Suc d \<and> p \<in> layer rel n (Suc k) \<inter> set observed \<and> (\<forall>q \<in> layer rel n (Suc k) \<inter> set observed. p \<le> q)
          \<and> (\<forall>j. k < j \<and> j < Suc k \<longrightarrow> layer rel n j \<inter> set observed = {})"
      unfolding ys by auto
    ultimately show ?thesis by metis
  next
    case True
    then have empty: "layer rel n (Suc k) \<inter> set observed = {}" using ys by simp
    have rest: "cycle_walk rel observed (Suc d) visited frontier = cycle_walk rel observed d (visited @ up) up"
    proof (cases "up = []")
      case up_nil: True
      then have none: "layer rel n (Suc k + i) = {}" for i using layers_end up by (metis set_empty)
      have "cycle_walk rel observed d (visited @ up) up = None" by (cases d) (simp_all add: up_nil)
      then show ?thesis unfolding step using up_nil by simp
    next
      case False
      then show ?thesis unfolding step using True by simp
    qed
    have "k < m \<and> m \<le> k + Suc d \<and> p \<in> layer rel n m \<inter> set observed \<and> (\<forall>q \<in> layer rel n m \<inter> set observed. p \<le> q)
         \<and> (\<forall>j. k < j \<and> j < m \<longrightarrow> layer rel n j \<inter> set observed = {}) \<longleftrightarrow>
       Suc k < m \<and> m \<le> Suc k + d \<and> p \<in> layer rel n m \<inter> set observed \<and> (\<forall>q \<in> layer rel n m \<inter> set observed. p \<le> q)
         \<and> (\<forall>j. Suc k < j \<and> j < m \<longrightarrow> layer rel n j \<inter> set observed = {})" for m
    proof -
      have "(\<forall>j. k < j \<and> j < m \<longrightarrow> layer rel n j \<inter> set observed = {}) \<longleftrightarrow> (\<forall>j. Suc k < j \<and> j < m \<longrightarrow> layer rel n j \<inter> set observed = {})"
        using empty by (metis Suc_lessD Suc_lessI)
      moreover have "k < m \<longleftrightarrow> Suc k < m" if "p \<in> layer rel n m \<inter> set observed"
        using empty that by (metis Suc_lessD Suc_lessI empty_iff)
      ultimately show ?thesis by auto
    qed
    from this [symmetric] show ?thesis unfolding rest Suc.IH [OF up visited] by (rule ex_cong1)
  qed
qed simp

lemma nearest_walk: "cycle_walk rel observed 3 [n] [n] = Some p \<longleftrightarrow> nearest_observed rel (set observed) 3 n p"
  using walk_is_nearest [of "[n]" rel n 0 "[n]" observed 3 p]
  by (simp add: layer_0 nearest_observed_def Suc_le_eq)

lemma index_entry:
  "map_of (build_cycle_parent_index obs rel) (c, m) =
     (if \<exists>r \<in> set obs. event_producing r \<and> ob_ci r = c \<and> ob_metric r = m
      then cycle_walk rel (map ob_ci (filter event_producing obs)) 3 [c] [c] else None)"
proof -
  define f where "f = (\<lambda>(r :: observation) ix. case cycle_walk rel (map ob_ci (filter event_producing obs)) 3 [ob_ci r] [ob_ci r] of
             None \<Rightarrow> ix | Some p \<Rightarrow> AList.update (ob_ci r, ob_metric r) p ix)"
  have "map_of (fold f rs ix) (c, m) =
     (if (\<exists>r \<in> set rs. ob_ci r = c \<and> ob_metric r = m) \<and> cycle_walk rel (map ob_ci (filter event_producing obs)) 3 [c] [c] \<noteq> None
      then cycle_walk rel (map ob_ci (filter event_producing obs)) 3 [c] [c] else map_of ix (c, m))" for rs ix
    by (induction rs arbitrary: ix) (auto simp: f_def update_conv' split: option.splits)
  from this [of "filter event_producing obs" "[]"] show ?thesis
    unfolding build_cycle_parent_index_def Let_def f_def [symmetric] by auto
qed

text \<open>
  C33: The parent of an observation in its cycle is the nearest upstream item that also has an
  event-producing observation, among equally near ones the first by identifier, and there is none
  exactly when no such item is within three hops: the level by level walk with its visited set is
  the shortest-path definition, cycles in the topology included.
\<close>

theorem cycle_parent_is_nearest:
  "map_of (build_cycle_parent_index obs rel) (c, m) = Some p \<longleftrightarrow>
     (\<exists>r \<in> set obs. event_producing r \<and> ob_ci r = c \<and> ob_metric r = m)
     \<and> nearest_observed rel (ob_ci ` set (filter event_producing obs)) 3 c p"
  by (auto simp: index_entry nearest_walk)

subsection \<open>Which observations become roots\<close>

lemma parent_upstream:
  assumes "map_of (build_cycle_parent_index obs rel) (c, m) = Some p"
  shows "(c, p) \<in> (upstream_edge rel)\<^sup>+" "p \<in> ob_ci ` set (filter event_producing obs)"
proof -
  have "nearest_observed rel (set (map ob_ci (filter event_producing obs))) 3 c p"
    using assms by (auto simp: index_entry nearest_walk split: if_splits)
  then obtain d where d: "1 \<le> d" "p \<in> layer rel c d" "p \<in> ob_ci ` set (filter event_producing obs)"
    by (auto simp: nearest_observed_def)
  then show "(c, p) \<in> (upstream_edge rel)\<^sup>+"
    using relpow_imp_rtrancl [of "(c, p)" d] by (auto simp: layer_def trancl_power intro!: exI [of _ d])
  show "p \<in> ob_ci ` set (filter event_producing obs)" by (fact d(3))
qed

lemma parent_reaches_root:
  assumes "acyclic (upstream_edge rel)" "r \<in> set obs" "event_producing r"
  shows "\<exists>r' \<in> set obs. event_producing r' \<and> (ob_ci r, ob_ci r') \<in> (upstream_edge rel)\<^sup>*
    \<and> map_of (build_cycle_parent_index obs rel) (ob_ci r', ob_metric r') = None"
proof -
  define S where "S = ob_ci ` set (filter event_producing obs)"
  define R where "R = {(p, c). p \<in> S \<and> c \<in> S \<and> (c, p) \<in> (upstream_edge rel)\<^sup>+}"
  have "finite R"
    by (rule finite_subset [of _ "S \<times> S"]) (auto simp: R_def S_def)
  moreover have "acyclic R"
  proof -
    have "R \<subseteq> ((upstream_edge rel)\<^sup>+)\<inverse>" by (auto simp: R_def)
    moreover have "acyclic (((upstream_edge rel)\<^sup>+)\<inverse>)" using assms(1) by (simp add: acyclic_converse acyclic_def)
    ultimately show ?thesis by (rule acyclic_subset [rotated])
  qed
  ultimately have "wf R" by (rule finite_acyclic_wf)
  then show ?thesis using assms(2, 3)
  proof (induction "ob_ci r" arbitrary: r rule: wf_induct_rule)
    case less
    show ?case
    proof (cases "map_of (build_cycle_parent_index obs rel) (ob_ci r, ob_metric r)")
      case None
      with less.prems show ?thesis by (intro bexI [of _ r]) simp_all
    next
      case (Some p)
      note up = parent_upstream [OF Some]
      then obtain q where q: "q \<in> set obs" "event_producing q" "ob_ci q = p" by auto
      have "(ob_ci q, ob_ci r) \<in> R" using up q less.prems by (auto simp: R_def S_def)
      from less.hyps [OF this q(1, 2)] obtain r' where r': "r' \<in> set obs" "event_producing r'"
        "(ob_ci q, ob_ci r') \<in> (upstream_edge rel)\<^sup>*" "map_of (build_cycle_parent_index obs rel) (ob_ci r', ob_metric r') = None" by blast
      have "(ob_ci r, ob_ci r') \<in> (upstream_edge rel)\<^sup>*" using up(1) r'(3) q(3) by (simp add: trancl_into_rtrancl rtrancl_trans)
      with r' show ?thesis by blast
    qed
  qed
qed

text \<open>
  C34: In a topology without cycles every failing observation has its root cause among the
  failing items: some observation of the item itself or of one upstream of it becomes a root event,
  or already has an open parent event.
\<close>

theorem acyclic_has_root:
  assumes "acyclic (upstream_edge rel)" "r \<in> set obs" "event_producing r"
  shows "\<exists>r' \<in> set obs. (ob_ci r, ob_ci r') \<in> (upstream_edge rel)\<^sup>*
    \<and> (triplet r' \<in> cycle_root_candidates obs ix (build_cycle_parent_index obs rel) \<or> map_of ix (ob_ci r', ob_metric r') \<noteq> None)"
proof -
  from parent_reaches_root [OF assms] obtain r' where r': "r' \<in> set obs" "event_producing r'" "(ob_ci r, ob_ci r') \<in> (upstream_edge rel)\<^sup>*"
    "map_of (build_cycle_parent_index obs rel) (ob_ci r', ob_metric r') = None" by blast
  then show ?thesis by (intro bexI [of _ r']) (auto simp: cycle_root_candidates_def)
qed

lemma candidate_observed: "(c, m, t) \<in> cycle_root_candidates obs ix cp \<Longrightarrow> c \<in> ob_ci ` set obs"
  by (auto simp: cycle_root_candidates_def triplet_def)

lemma mutual_parents_no_root:
  assumes "b \<in> set (rel a)" "a \<in> set (rel b)" "a \<noteq> b"
    and "ra \<in> set obs" "event_producing ra" "ob_ci ra = a" "rb \<in> set obs" "event_producing rb" "ob_ci rb = b"
  shows "(c, m, t) \<in> cycle_root_candidates obs ix (build_cycle_parent_index obs rel) \<Longrightarrow> c \<noteq> a \<and> c \<noteq> b"
proof -
  have names: "a \<noteq> []" "b \<noteq> []" using assms(5, 6, 8, 9) by (auto simp: event_producing_def)
  have near: "cycle_walk rel (map ob_ci (filter event_producing obs)) 3 [x] [x] \<noteq> None"
    if "y \<in> set (rel x)" "x \<noteq> y" "y \<noteq> []" "y \<in> ob_ci ` set (filter event_producing obs)" for x y
  proof -
    define Y where "Y = layer rel x 1 \<inter> ob_ci ` set (filter event_producing obs)"
    have "y \<in> Y" using that by (auto simp: Y_def layer_def upstream_edge_def)
    then have Y: "finite Y" "Y \<noteq> {}" by (auto simp: Y_def)
    then have "(1::nat) \<le> 1 \<and> (1::nat) \<le> 3 \<and> Min Y \<in> Y \<and> (\<forall>q \<in> Y. Min Y \<le> q)
        \<and> (\<forall>j. 1 \<le> j \<and> j < 1 \<longrightarrow> layer rel x j \<inter> ob_ci ` set (filter event_producing obs) = {})" by simp
    then have "nearest_observed rel (set (map ob_ci (filter event_producing obs))) 3 x (Min Y)"
      unfolding nearest_observed_def set_map Y_def by blast
    then have "cycle_walk rel (map ob_ci (filter event_producing obs)) 3 [x] [x] = Some (Min Y)" by (rule iffD2 [OF nearest_walk])
    then show ?thesis by simp
  qed
  assume "(c, m, t) \<in> cycle_root_candidates obs ix (build_cycle_parent_index obs rel)"
  then obtain r where r: "r \<in> set obs" "event_producing r" "ob_ci r = c" "map_of (build_cycle_parent_index obs rel) (c, ob_metric r) = None"
    by (auto simp: cycle_root_candidates_def triplet_def)
  then have "cycle_walk rel (map ob_ci (filter event_producing obs)) 3 [c] [c] = None" by (auto simp: index_entry split: if_splits)
  moreover have "b \<in> ob_ci ` set (filter event_producing obs)" "a \<in> ob_ci ` set (filter event_producing obs)"
    using assms(4-9) by auto
  ultimately show ?thesis using near [of b a] near [of a b] assms(1-3) names by blast
qed

lemma link_edge:
  assumes "(a, pl) \<in> set (tp_via T)" "(b, pl) \<in> set (tp_via T)" "a \<noteq> b"
    and "map_of (tp_status T) pl = Some st" "st \<in> set propagating_physical_link_statuses"
  shows "(a, b) \<in> set (correlation_edges T True correlation_max_depth a)"
proof -
  have v: "(Some 1, [Link_hop]) \<in> set (enabled_variants True correlation_max_depth)" by code_simp
  have "([], [b], Some (pl, st)) \<in> set (match_hops T a [Link_hop])"
    using assms by (force simp: image_iff)
  then have m: "([], [b], Some (pl, st)) \<in> set (variant_matches T correlation_max_depth a (Some 1, [Link_hop]))"
    by (simp add: variant_matches_def)
  show ?thesis
    unfolding correlation_edges_def set_remdups set_concat set_map using v m by (force intro!: UnionI imageI)
qed

lemma link_relation:
  assumes "(a, pl) \<in> set (tp_via T)" "(b, pl) \<in> set (tp_via T)" "a \<noteq> b"
    and "map_of (tp_status T) pl = Some st" "st \<in> set propagating_physical_link_statuses" "a \<in> set ids" "a \<noteq> []" "b \<noteq> []"
  shows "b \<in> set (get_topology_relations T True ids a)"
  using link_edge [OF assms(1-5)] assms(6-8) by (force simp: get_topology_relations_def Let_def)

text \<open>
  When both ends of a physical link that is up or unknown fail in one cycle, both are withheld:
  neither becomes a root event, whatever else is observed, because each is the parent of the other.
\<close>

theorem linked_pair_no_root:
  assumes "(a, pl) \<in> set (tp_via T)" "(b, pl) \<in> set (tp_via T)" "a \<noteq> b"
    and "map_of (tp_status T) pl = Some st" "st \<in> set propagating_physical_link_statuses"
    and "ra \<in> set obs" "event_producing ra" "ob_ci ra = a" "rb \<in> set obs" "event_producing rb" "ob_ci rb = b"
    and "(c, m, t) \<in> cycle_root_candidates obs ix (build_cycle_parent_index obs (get_topology_relations T True (map ob_ci obs)))"
  shows "c \<noteq> a \<and> c \<noteq> b"
proof (rule mutual_parents_no_root [OF _ _ assms(3) assms(6-12)])
  have names: "a \<noteq> []" "b \<noteq> []" "a \<in> set (map ob_ci obs)" "b \<in> set (map ob_ci obs)"
    using assms(6-11) by (auto simp: event_producing_def)
  show "b \<in> set (get_topology_relations T True (map ob_ci obs) a)"
    by (rule link_relation [OF assms(1-5)]) (use names in auto)
  show "a \<in> set (get_topology_relations T True (map ob_ci obs) b)"
    by (rule link_relation [OF assms(2, 1) not_sym [OF assms(3)] assms(4, 5)]) (use names in auto)
qed

definition failing :: "string \<Rightarrow> observation" where
  "failing c = \<lparr>ob_ci = c, ob_metric = ''cpu'', ob_type = ''COLLECTION_FAILURE'', ob_family = Some ''SNMP_NO_RESPONSE'', ob_protocol = [],
     ob_source = Some ''SNMP'', ob_avail = None, ob_kind = [], ob_status = [], ob_severity = ''WARNING'', ob_message = ''Metric Collection Failed: timeout'',
     ob_value = None, ob_corr = [], ob_from = None, ob_root = None, ob_link = None, ob_link_status = None\<rparr>"

text \<open>A switch behind a router; and the two joined by a physical link.\<close>

definition tree_rel :: "string \<Rightarrow> string list" where
  "tree_rel c = (if c = ''switch'' then [''router''] else [])"

definition linked :: topology where
  "linked = \<lparr>tp_edges = [], tp_via = [(''switch'', ''l1''), (''router'', ''l1'')], tp_status = [(''l1'', ''UP'')]\<rparr>"

theorem cycle_parent_is_nearest_witness:
  "nearest_observed tree_rel {''switch'', ''router''} 3 ''switch'' ''router''"
proof -
  have "map_of (build_cycle_parent_index [failing ''switch'', failing ''router''] tree_rel) (''switch'', ''cpu'') = Some ''router''"
    by code_simp
  then show ?thesis
    unfolding cycle_parent_is_nearest by (simp add: event_producing_def failing_def insert_commute)
qed

theorem acyclic_has_root_witness:
  "\<exists>r' \<in> set [failing ''switch'', failing ''router'']. (ob_ci (failing ''switch''), ob_ci r') \<in> (upstream_edge tree_rel)\<^sup>*
    \<and> (triplet r' \<in> cycle_root_candidates [failing ''switch'', failing ''router''] [] (build_cycle_parent_index [failing ''switch'', failing ''router''] tree_rel)
       \<or> map_of [] (ob_ci r', ob_metric r') \<noteq> (None :: parent_entry option))"
proof (rule acyclic_has_root)
  have "upstream_edge tree_rel = {(''switch'', ''router'')}" by (auto simp: upstream_edge_def tree_rel_def split: if_splits)
  then show "acyclic (upstream_edge tree_rel)" by (auto simp: acyclic_def trancl_insert2)
qed (simp_all add: failing_def event_producing_def)

theorem linked_pair_no_root_witness:
  "cycle_root_candidates [failing ''switch'', failing ''router''] []
     (build_cycle_parent_index [failing ''switch'', failing ''router''] (get_topology_relations linked True (map ob_ci [failing ''switch'', failing ''router'']))) = {}"
proof -
  let ?obs = "[failing ''switch'', failing ''router'']"
  let ?cand = "cycle_root_candidates ?obs [] (build_cycle_parent_index ?obs (get_topology_relations linked True (map ob_ci ?obs)))"
  have "c \<noteq> ''switch'' \<and> c \<noteq> ''router''" if "(c, m, t) \<in> ?cand" for c m t
    by (rule linked_pair_no_root [OF _ _ _ _ _ _ _ _ _ _ _ that, where pl = "''l1''" and st = "''UP''" and ra = "failing ''switch''" and rb = "failing ''router''"])
      (simp_all add: linked_def failing_def event_producing_def propagating_physical_link_statuses_def)
  moreover have "c = ''router'' \<or> c = ''switch''" if "(c, m, t) \<in> ?cand" for c m t
    using candidate_observed [OF that] by (auto simp: failing_def)
  ultimately show ?thesis by fast
qed

end
