(* ===== verification/Poll_Events.thy ===== *)
theory Poll_Events
  imports Topology_Rca
begin

section \<open>Events of a polling cycle (engines/snmp_worker.py, engines/correlation.py)\<close>

text \<open>
  The event writes of the polling engine: resolving a row against the parent index, the five
  families of root events with their recoveries, the degraded children of unknown links, the items
  attached to a root, and the passes of one cycle that compose them. A Cypher clause is evaluated
  for all rows before the next one; \<open>head(collect(existing))\<close> is the first in storage order;
  \<open>uuid n\<close> is the n-th random UUID, and one reading of the clock stands for all of a cycle.
\<close>

subsection \<open>The graph\<close>

record poll_event =
  pe_id :: string
  pe_ci :: string
  pe_metric :: string
  pe_status :: string
  pe_type :: "string option"
  pe_family :: "string option"
  pe_source :: "string option"
  pe_avail :: "string option"
  pe_severity :: string
  pe_message :: string
  pe_created :: instant
  pe_seen :: instant
  pe_ack :: bool
  pe_recovered :: "instant option"
  pe_corr :: "string option"
  pe_from :: "string option"
  pe_root :: "string option"
  pe_affected :: "string list"
  pe_count :: nat
  pe_comments :: "string list"
  pe_degraded :: bool
  pe_link :: "string option"

record world =
  w_items :: "string list"
  w_metrics :: "(string \<times> bool option) list"
  w_topology :: topology
  w_events :: "poll_event list"
  w_next :: nat

definition is_root :: "poll_event \<Rightarrow> bool" where
  "is_root e = (pe_corr e = None \<or> pe_corr e = Some ''ROOT'')"

definition is_open :: "poll_event \<Rightarrow> bool" where
  "is_open e = (pe_status e \<in> {''OPEN'', ''ACK''})"

definition is_live :: "poll_event \<Rightarrow> bool" where
  "is_live e = (pe_status e \<in> {''OPEN'', ''ACK'', ''RECOVERED''})"

definition open_roots :: "world \<Rightarrow> open_event list" where
  "open_roots w = map (\<lambda>e. \<lparr>oe_id = pe_id e, oe_ci = pe_ci e, oe_severity = pe_severity e, oe_created = pe_created e, oe_root = pe_root e\<rparr>)
     (filter (\<lambda>e. is_open e \<and> is_root e) (w_events w))"

definition parent_index_of :: "bool \<Rightarrow> world \<Rightarrow> (string \<times> string) list \<Rightarrow> parent_index" where
  "parent_index_of links_on w pairs =
     build_open_parent_index (w_topology w) links_on (w_items w) (w_metrics w) (open_roots w) pairs"

subsection \<open>Resolving a row\<close>

definition resolve_correlation :: "parent_index \<Rightarrow> observation \<Rightarrow> observation" where
  "resolve_correlation cache r =
     (let root = r\<lparr>ob_corr := ''ROOT'', ob_from := None, ob_root := Some (ob_ci r)\<rparr> in
      case map_of cache (ob_ci r, ob_metric r) of
        None \<Rightarrow> root
      | Some p \<Rightarrow>
          if pa_event p = [] \<or> pa_root_ci p = [] then root
          else let q = r\<lparr>ob_corr := ''PROPAGATED'', ob_from := Some (pa_event p), ob_root := Some (pa_root_ci p)\<rparr>
               in case pa_link p of None \<Rightarrow> q
                  | Some (l, st) \<Rightarrow> q\<lparr>ob_link := if l = [] then ob_link r else Some l, ob_link_status := if st = [] then ob_link_status r else Some st\<rparr>)"

definition propagated :: "observation \<Rightarrow> bool" where
  "propagated r = (ob_corr r = ''PROPAGATED'')"

subsection \<open>Attaching items to a root\<close>

definition build_propagated_root_update_comment :: "observation \<Rightarrow> string" where
  "build_propagated_root_update_comment r =
     ''CI '' @ [CHR 0x27] @ ob_ci r @ [CHR 0x27] @ '' is affected by root cause CI '' @ [CHR 0x27]
       @ (case ob_root r of None \<Rightarrow> ''None'' | Some c \<Rightarrow> c) @ [CHR 0x27] @ '' reported by child dependency polling.''"

text \<open>\<open>MATCH (root:Event {id: row.propagated_from})\<close>\<close>

definition attaches_to :: "poll_event \<Rightarrow> observation \<Rightarrow> bool" where
  "attaches_to e r = (ob_from r = Some (pe_id e) \<and> ob_ci r \<noteq> [] \<and> is_live e \<and> is_root e)"

definition add_once :: "'a \<Rightarrow> 'a list \<Rightarrow> 'a list" where
  "add_once x xs = (if x \<in> set xs then xs else xs @ [x])"

text \<open>
  The new list of affected items is computed for every row from the stored one, in the clause before
  the \<open>SET\<close>; the comments are read and written by the \<open>SET\<close> itself, row by row.
\<close>

definition attach_rows :: "observation list \<Rightarrow> poll_event \<Rightarrow> poll_event" where
  "attach_rows rows e =
     fold (\<lambda>r x. let affected = add_once (ob_ci r) (pe_affected e) in
        x\<lparr>pe_affected := affected, pe_count := length affected,
          pe_comments := add_once (build_propagated_root_update_comment r) (pe_comments x)\<rparr>)
       (filter (attaches_to e) rows) e"

definition update_propagated_root_events :: "observation list \<Rightarrow> world \<Rightarrow> world" where
  "update_propagated_root_events rows w = w\<lparr>w_events := map (attach_rows rows) (w_events w)\<rparr>"

definition attach_dependents_to_roots :: "observation list \<Rightarrow> world \<Rightarrow> nat \<times> world" where
  "attach_dependents_to_roots rows w =
     (length (remdups (filter (\<lambda>c. c \<noteq> []) (map ob_ci rows))), update_propagated_root_events rows w)"

subsection \<open>Degraded children\<close>

definition degrading_physical_link_status :: string where
  "degrading_physical_link_status = ''UNKNOWN''"

definition degrades_propagated_severity :: "string option \<Rightarrow> bool" where
  "degrades_propagated_severity st =
     (case st of None \<Rightarrow> False
      | Some s \<Rightarrow> s \<noteq> [] \<and> upper (strip s) = degrading_physical_link_status \<and> upper (strip s) \<in> set propagating_physical_link_statuses)"

definition build_degraded_propagated_message :: "observation \<Rightarrow> string" where
  "build_degraded_propagated_message r =
     (let base = strip (ob_message r);
          link = (case ob_link r of None \<Rightarrow> [] | Some l \<Rightarrow> strip l);
          suffix = ''Propagation degraded to WARNING: PhysicalLink '' @ (if link = [] then ''unknown'' else link) @ '' status is UNKNOWN''
      in if base = [] then suffix else base @ '' ('' @ suffix @ '')'')"

definition degraded_key :: "observation \<Rightarrow> string \<times> string \<times> string \<times> string option" where
  "degraded_key r = (ob_ci r, ob_metric r, ob_type r, ob_from r)"

fun keep_first :: "('a \<Rightarrow> 'k) \<Rightarrow> 'k list \<Rightarrow> 'a list \<Rightarrow> 'a list" where
  "keep_first k seen [] = []"
| "keep_first k seen (x # xs) = (if k x \<in> set seen then keep_first k seen xs else x # keep_first k (k x # seen) xs)"

definition degraded_propagated_rows :: "observation list \<Rightarrow> observation list" where
  "degraded_propagated_rows rows =
     map (\<lambda>r. r\<lparr>ob_severity := ''WARNING'', ob_message := build_degraded_propagated_message r, ob_link_status := Some degrading_physical_link_status\<rparr>)
       (keep_first degraded_key []
         (filter (\<lambda>r. propagated r \<and> degrades_propagated_severity (ob_link_status r) \<and> event_producing r
            \<and> ob_from r \<notin> {None, Some []} \<and> ob_root r \<notin> {None, Some []}) rows))"

text \<open>
  \<open>MATCH (n:CI ...) MATCH (m:MetricDef ...) OPTIONAL MATCH (existing ...)\<close>, \<open>head(collect(existing))\<close>, then
  \<open>CREATE\<close> or \<open>SET\<close>: the existing events are looked up for all rows before any is written.
\<close>

definition row_matches :: "world \<Rightarrow> observation \<Rightarrow> bool" where
  "row_matches w r = (ob_ci r \<in> set (w_items w) \<and> ob_metric r \<in> fst ` set (w_metrics w))"

definition write_row :: "(string \<Rightarrow> observation \<Rightarrow> poll_event) \<Rightarrow> (observation \<Rightarrow> poll_event \<Rightarrow> poll_event) \<Rightarrow> (nat \<Rightarrow> string)
    \<Rightarrow> observation \<times> poll_event option \<Rightarrow> world \<Rightarrow> world" where
  "write_row mk upd uuid rx w =
     (case rx of (r, None) \<Rightarrow> w\<lparr>w_events := w_events w @ [mk (uuid (w_next w)) r], w_next := w_next w + 1\<rparr>
      | (r, Some x) \<Rightarrow> w\<lparr>w_events := map (\<lambda>e. if pe_id e = pe_id x then upd r e else e) (w_events w)\<rparr>)"

definition newest :: "(poll_event \<Rightarrow> bool) \<Rightarrow> poll_event list \<Rightarrow> poll_event option" where
  "newest P es = (case sort_key (\<lambda>e. - pe_created e) (filter P es) of [] \<Rightarrow> None | e # _ \<Rightarrow> Some e)"

definition upsert_events ::
  "(observation \<Rightarrow> poll_event list \<Rightarrow> poll_event option) \<Rightarrow> (string \<Rightarrow> observation \<Rightarrow> poll_event) \<Rightarrow> (observation \<Rightarrow> poll_event \<Rightarrow> poll_event) \<Rightarrow> (nat \<Rightarrow> string)
    \<Rightarrow> observation list \<Rightarrow> world \<Rightarrow> world" where
  "upsert_events existing mk upd uuid rows w =
     fold (write_row mk upd uuid) (map (\<lambda>r. (r, existing r (w_events w))) (filter (row_matches w) rows)) w"

definition new_poll_event :: "instant \<Rightarrow> string \<Rightarrow> observation \<Rightarrow> poll_event" where
  "new_poll_event now i r =
     \<lparr>pe_id = i, pe_ci = ob_ci r, pe_metric = ob_metric r, pe_status = ''OPEN'', pe_type = Some (ob_type r), pe_family = ob_family r,
      pe_source = ob_source r, pe_avail = ob_avail r, pe_severity = ob_severity r, pe_message = ob_message r, pe_created = now, pe_seen = now,
      pe_ack = False, pe_recovered = None, pe_corr = Some (ob_corr r), pe_from = ob_from r, pe_root = ob_root r, pe_affected = [],
      pe_count = 0, pe_comments = [], pe_degraded = False, pe_link = None\<rparr>"

definition degraded_child_of :: "observation \<Rightarrow> poll_event \<Rightarrow> bool" where
  "degraded_child_of r e =
     (pe_ci e = ob_ci r \<and> pe_metric e = ob_metric r \<and> is_live e \<and> pe_corr e = Some ''PROPAGATED'' \<and> pe_from e = ob_from r \<and> pe_type e = Some (ob_type r))"

definition update_degraded :: "instant \<Rightarrow> observation \<Rightarrow> poll_event \<Rightarrow> poll_event" where
  "update_degraded now r e =
     e\<lparr>pe_status := if pe_status e = ''ACK'' then ''ACK'' else ''OPEN'', pe_severity := ob_severity r, pe_message := ob_message r, pe_seen := now,
       pe_ack := if pe_status e = ''ACK'' then pe_ack e else False, pe_recovered := None, pe_root := ob_root r,
       pe_degraded := True, pe_link := ob_link r\<rparr>"

definition create_degraded_propagated_events :: "(nat \<Rightarrow> string) \<Rightarrow> instant \<Rightarrow> observation list \<Rightarrow> world \<Rightarrow> world" where
  "create_degraded_propagated_events uuid now rows w =
     upsert_events (\<lambda>r. newest (degraded_child_of r)) (\<lambda>i r. (new_poll_event now i r)\<lparr>pe_corr := Some ''PROPAGATED'', pe_degraded := True, pe_link := ob_link r\<rparr>)
       (update_degraded now) uuid (degraded_propagated_rows rows) w"


subsection \<open>Root events of the families\<close>

definition dedupe_snmp_collection_failures :: "observation list \<Rightarrow> observation list" where
  "dedupe_snmp_collection_failures rows =
     map snd (fold (\<lambda>r d. AList.update (ob_ci r, ob_metric r, ob_family r) r d) rows [])"

definition source_matches :: "observation \<Rightarrow> poll_event \<Rightarrow> bool" where
  "source_matches r e = (case pe_source e of None \<Rightarrow> True | Some s \<Rightarrow> ob_source r = Some (upper s))"

definition collection_event :: "poll_event \<Rightarrow> bool" where
  "collection_event e =
     ((pe_type e = Some ''COLLECTION_FAILURE'' \<or> pe_type e = None \<and> starts_with ''Metric Collection Failed:'' (pe_message e))
      \<and> (pe_family e = Some ''SNMP_NO_RESPONSE'' \<or> pe_family e = None))"

definition collection_root_of :: "observation \<Rightarrow> poll_event \<Rightarrow> bool" where
  "collection_root_of r e =
     (pe_ci e = ob_ci r \<and> pe_metric e = ob_metric r \<and> is_live e \<and> collection_event e \<and> is_root e \<and> source_matches r e)"

definition reopen :: "instant \<Rightarrow> observation \<Rightarrow> poll_event \<Rightarrow> poll_event" where
  "reopen now r e =
     e\<lparr>pe_status := ''OPEN'', pe_severity := ob_severity r, pe_message := ob_message r, pe_seen := now, pe_recovered := None,
       pe_ack := False, pe_type := Some (ob_type r), pe_source := ob_source r\<rparr>"

text \<open>The common end of a refresh: root rows, degraded children, attached items.\<close>

definition write_family ::
  "(observation \<Rightarrow> poll_event \<Rightarrow> bool) \<Rightarrow> (string \<Rightarrow> observation \<Rightarrow> poll_event) \<Rightarrow> (observation \<Rightarrow> poll_event \<Rightarrow> poll_event)
    \<Rightarrow> (observation \<Rightarrow> bool) \<Rightarrow> (nat \<Rightarrow> string) \<Rightarrow> instant \<Rightarrow> parent_index \<Rightarrow> observation list \<Rightarrow> world \<Rightarrow> world" where
  "write_family found mk upd wanted uuid now cache rows w =
     (let resolved = map (resolve_correlation cache) rows;
          roots = filter (\<lambda>r. \<not> propagated r) resolved; children = filter propagated resolved
      in update_propagated_root_events children
           (create_degraded_propagated_events uuid now children
             (upsert_events (\<lambda>r. find (found r)) mk upd uuid (filter wanted roots) w)))"

definition refresh_snmp_collection_failures :: "(nat \<Rightarrow> string) \<Rightarrow> instant \<Rightarrow> parent_index \<Rightarrow> observation list \<Rightarrow> world \<Rightarrow> world" where
  "refresh_snmp_collection_failures uuid now cache rows w =
     write_family collection_root_of (\<lambda>i r. (new_poll_event now i r)\<lparr>pe_avail := None\<rparr>) (\<lambda>r e. (reopen now r e)\<lparr>pe_family := ob_family r\<rparr>)
       (\<lambda>_. True) uuid now cache (dedupe_snmp_collection_failures rows) w"

definition ping_availability_source :: "string option \<Rightarrow> string option" where
  "ping_availability_source v =
     (let s = upper (strip (case v of None \<Rightarrow> [] | Some x \<Rightarrow> x)) in if s \<in> {''PING'', ''ICMP''} then Some s else None)"

definition down_value :: "observation \<Rightarrow> bool" where
  "down_value r = (case ob_value r of None \<Rightarrow> True | Some x \<Rightarrow> x = 0)"

definition icmp_availability :: "observation \<Rightarrow> bool" where
  "icmp_availability r = (upper (ob_protocol r) = ''ICMP'' \<and> ping_availability_source (ob_avail r) \<noteq> None)"

definition availability_root_of :: "observation \<Rightarrow> poll_event \<Rightarrow> bool" where
  "availability_root_of r e =
     (pe_ci e = ob_ci r \<and> pe_metric e = ob_metric r \<and> is_live e \<and> pe_type e = Some ''AVAILABILITY'' \<and> is_root e
      \<and> pe_avail e \<in> {Some ''PING'', Some ''ICMP''} \<and> source_matches r e)"

definition refresh_icmp_availability_events :: "(nat \<Rightarrow> string) \<Rightarrow> instant \<Rightarrow> parent_index \<Rightarrow> observation list \<Rightarrow> world \<Rightarrow> world" where
  "refresh_icmp_availability_events uuid now cache rows w =
     write_family availability_root_of (\<lambda>i r. (new_poll_event now i r)\<lparr>pe_family := None\<rparr>) (\<lambda>r e. (reopen now r e)\<lparr>pe_avail := ob_avail r\<rparr>)
       (\<lambda>r. ob_type r = ''AVAILABILITY'' \<and> ob_source r = Some ''ICMP'' \<and> ob_avail r \<in> {Some ''PING'', Some ''ICMP''})
       uuid now cache (filter (\<lambda>r. icmp_availability r \<and> down_value r) rows) w"

definition breach_row :: "string \<Rightarrow> observation \<Rightarrow> bool" where
  "breach_row metric r =
     (upper (ob_protocol r) = ''ICMP'' \<and> ob_metric r = metric \<and> ob_type r = ''THRESHOLD_BREACH'' \<and> ob_status r \<in> {''WARNING'', ''CRITICAL''})"

definition breach_root_of :: "observation \<Rightarrow> poll_event \<Rightarrow> bool" where
  "breach_root_of r e =
     (pe_ci e = ob_ci r \<and> pe_metric e = ob_metric r \<and> pe_type e = Some ''THRESHOLD_BREACH'' \<and> is_live e \<and> is_root e)"

definition update_breach :: "instant \<Rightarrow> observation \<Rightarrow> poll_event \<Rightarrow> poll_event" where
  "update_breach now r e =
     e\<lparr>pe_severity := ob_status r, pe_message := ob_message r, pe_source := ob_source r, pe_seen := now,
       pe_ack := if pe_status e = ''ACK'' then pe_ack e else False, pe_recovered := None,
       pe_corr := Some (case pe_corr e of None \<Rightarrow> ''ROOT'' | Some c \<Rightarrow> c), pe_root := Some (case pe_root e of None \<Rightarrow> ob_ci r | Some c \<Rightarrow> c)\<rparr>"

definition refresh_threshold_events :: "string \<Rightarrow> (nat \<Rightarrow> string) \<Rightarrow> instant \<Rightarrow> parent_index \<Rightarrow> observation list \<Rightarrow> world \<Rightarrow> world" where
  "refresh_threshold_events metric uuid now cache rows w =
     write_family breach_root_of (\<lambda>i r. (new_poll_event now i r)\<lparr>pe_severity := ob_status r, pe_family := None, pe_avail := None\<rparr>)
       (update_breach now) (\<lambda>_. True) uuid now cache (filter (breach_row metric) rows) w"

definition icmp_latency_metric :: string where
  "icmp_latency_metric = ''icmp_latency_ms''"

definition icmp_jitter_metric :: string where
  "icmp_jitter_metric = ''icmp_jitter_ms''"

definition icmp_packet_loss_metric :: string where
  "icmp_packet_loss_metric = ''packet_loss_pct''"

definition refresh_icmp_latency_events :: "(nat \<Rightarrow> string) \<Rightarrow> instant \<Rightarrow> parent_index \<Rightarrow> observation list \<Rightarrow> world \<Rightarrow> world" where
  "refresh_icmp_latency_events = refresh_threshold_events icmp_latency_metric"

definition refresh_icmp_jitter_events :: "(nat \<Rightarrow> string) \<Rightarrow> instant \<Rightarrow> parent_index \<Rightarrow> observation list \<Rightarrow> world \<Rightarrow> world" where
  "refresh_icmp_jitter_events = refresh_threshold_events icmp_jitter_metric"

definition refresh_icmp_packet_loss_events :: "(nat \<Rightarrow> string) \<Rightarrow> instant \<Rightarrow> parent_index \<Rightarrow> observation list \<Rightarrow> world \<Rightarrow> world" where
  "refresh_icmp_packet_loss_events = refresh_threshold_events icmp_packet_loss_metric"

subsection \<open>Recoveries\<close>

text \<open>
  The matching events are found for all rows first; then they are recovered, and then the open
  propagated events that belong to one of them and whose metric may propagate.
\<close>

definition may_propagate :: "world \<Rightarrow> string \<Rightarrow> bool" where
  "may_propagate w m = (m \<in> fst ` set (w_metrics w) \<and> map_of (w_metrics w) m \<noteq> Some (Some False))"

definition recover :: "instant \<Rightarrow> poll_event \<Rightarrow> poll_event" where
  "recover now e = e\<lparr>pe_status := ''RECOVERED'', pe_recovered := Some now\<rparr>"

definition recover_events ::
  "(observation \<Rightarrow> poll_event \<Rightarrow> bool) \<Rightarrow> (poll_event \<Rightarrow> poll_event \<Rightarrow> bool) \<Rightarrow> (observation \<Rightarrow> string) \<Rightarrow> instant
    \<Rightarrow> observation list \<Rightarrow> world \<Rightarrow> world" where
  "recover_events ends belongs text now rows w =
     (let hits = (\<lambda>e. filter (\<lambda>r. ob_ci r \<in> set (w_items w) \<and> pe_ci e = ob_ci r \<and> pe_metric e = ob_metric r \<and> is_open e \<and> ends r e) rows);
          over = filter (\<lambda>e. hits e \<noteq> []) (w_events w);
          es = map (\<lambda>e. if hits e = [] then e else (recover now e)\<lparr>pe_message := text (List.last (hits e))\<rparr>) (w_events w)
      in w\<lparr>w_events := map (\<lambda>p. if pe_corr p = Some ''PROPAGATED'' \<and> is_open p \<and> may_propagate w (pe_metric p) \<and> list_ex (\<lambda>e. belongs e p) over
             then recover now p else p) es\<rparr>)"

definition recover_snmp_collection_failures :: "instant \<Rightarrow> observation list \<Rightarrow> world \<Rightarrow> world" where
  "recover_snmp_collection_failures now rows w =
     recover_events (\<lambda>r e. collection_event e \<and> (case pe_source e of None \<Rightarrow> True | Some s \<Rightarrow> upper s = ob_protocol r))
       (\<lambda>e p. pe_root p = Some (pe_ci e)) (\<lambda>_. ''Metric collection recovered. Latest sample collected by legacy SNMP worker'')
       now (filter (\<lambda>r. upper (ob_protocol r) = ''SNMP'') rows) w"

definition direct_child :: "poll_event \<Rightarrow> poll_event \<Rightarrow> bool" where
  "direct_child e p = (pe_from p = Some (pe_id e) \<and> pe_root p = Some (pe_ci e))"

definition recover_icmp_availability_events :: "instant \<Rightarrow> observation list \<Rightarrow> world \<Rightarrow> world" where
  "recover_icmp_availability_events now rows w =
     recover_events (\<lambda>r e. is_root e \<and> pe_type e = Some ''AVAILABILITY'' \<and> pe_avail e \<in> {Some ''PING'', Some ''ICMP''}
         \<and> (case pe_source e of None \<Rightarrow> True | Some s \<Rightarrow> upper s = ob_protocol r))
       direct_child (\<lambda>_. ''Metric ICMP availability recovered. Latest sample collected by legacy SNMP worker'')
       now (filter (\<lambda>r. icmp_availability r \<and> ob_value r = Some 1) rows) w"

definition recover_threshold_events :: "string \<Rightarrow> instant \<Rightarrow> observation list \<Rightarrow> world \<Rightarrow> world" where
  "recover_threshold_events metric now rows w =
     recover_events (\<lambda>r e. is_root e \<and> pe_type e = Some ''THRESHOLD_BREACH'' \<and> source_matches r e) direct_child ob_message
       now (filter (\<lambda>r. upper (ob_protocol r) = ''ICMP'' \<and> ob_metric r = metric \<and> ob_status r = ''OK'') rows) w"

definition recover_icmp_latency_events :: "instant \<Rightarrow> observation list \<Rightarrow> world \<Rightarrow> world" where
  "recover_icmp_latency_events = recover_threshold_events icmp_latency_metric"

definition recover_icmp_jitter_events :: "instant \<Rightarrow> observation list \<Rightarrow> world \<Rightarrow> world" where
  "recover_icmp_jitter_events = recover_threshold_events icmp_jitter_metric"

definition recover_icmp_packet_loss_events :: "instant \<Rightarrow> observation list \<Rightarrow> world \<Rightarrow> world" where
  "recover_icmp_packet_loss_events = recover_threshold_events icmp_packet_loss_metric"

subsection \<open>The passes of a cycle\<close>

definition unreachable :: "observation list \<Rightarrow> string list" where
  "unreachable availability =
     map fst (filter (\<lambda>(c, r). down_value r)
       (fold (\<lambda>r d. if ob_ci r = [] \<or> ping_availability_source (ob_avail r) = None then d else AList.update (ob_ci r) r d) availability []))"

definition synthetic_breach :: "string \<Rightarrow> string \<Rightarrow> observation" where
  "synthetic_breach c metric =
     \<lparr>ob_ci = c, ob_metric = metric, ob_type = ''THRESHOLD_BREACH'', ob_family = None, ob_protocol = ''ICMP'', ob_source = Some ''ICMP'',
      ob_avail = None, ob_kind = [], ob_status = ''CRITICAL'', ob_severity = ''CRITICAL'',
      ob_message = ''Unable to measure: CI unreachable (availability=0)'', ob_value = None, ob_corr = [], ob_from = None, ob_root = None,
      ob_link = None, ob_link_status = None\<rparr>"

definition inject_synthetic_breaches_for_down_cis ::
  "observation list \<Rightarrow> observation list \<Rightarrow> string \<Rightarrow> (string \<times> string) list \<Rightarrow> observation list" where
  "inject_synthetic_breaches_for_down_cis updates availability metric configured =
     updates @ map (\<lambda>c. synthetic_breach c metric)
       (filter (\<lambda>c. (c, metric) \<in> set configured \<and> (c, metric) \<notin> (\<lambda>u. (ob_ci u, ob_metric u)) ` set updates) (unreachable availability))"

definition event_family :: "string \<Rightarrow> string option" where
  "event_family ty =
     (if ty = ''COLLECTION_FAILURE'' then Some ''collection'' else if ty = ''AVAILABILITY'' then Some ''availability''
      else if ty = ''THRESHOLD_BREACH'' then Some ''latency'' else None)"

type_synonym refresh = "parent_index \<Rightarrow> observation list \<Rightarrow> world \<Rightarrow> world"

definition materialize_current_cycle_roots ::
  "observation list \<Rightarrow> (string \<times> string \<times> string) set \<Rightarrow> refresh \<Rightarrow> refresh \<Rightarrow> refresh \<Rightarrow> world \<Rightarrow> nat \<times> world" where
  "materialize_current_cycle_roots obs candidates collection availability latency w =
     fold (\<lambda>(family, refresh) (n, v).
         let rows = filter (\<lambda>r. event_producing r \<and> triplet r \<in> candidates \<and> event_family (ob_type r) = Some family) obs
         in if rows = [] then (n, v) else (n + length rows, refresh [] rows v))
       [(''collection'', collection), (''availability'', availability), (''latency'', latency)] (0, w)"

text \<open>
  The settings and the outcomes of the calls that may fail: whether the two index builds and the
  preload of the topology succeed, and whether the samples are stored.
\<close>

record cycle_env =
  cy_rca :: bool
  cy_links :: bool
  cy_index_ok :: bool
  cy_relations_ok :: bool
  cy_stored_ok :: bool
  cy_rebuild_ok :: bool

definition open_pair :: "observation \<Rightarrow> bool" where
  "open_pair u =
     (upper (ob_protocol u) = ''ICMP''
      \<and> (ping_availability_source (ob_avail u) \<noteq> None \<and> down_value u
         \<or> ob_metric u \<in> {icmp_latency_metric, icmp_jitter_metric, icmp_packet_loss_metric} \<and> ob_type u = ''THRESHOLD_BREACH''
            \<and> ob_status u \<in> {''WARNING'', ''CRITICAL''}))"

definition correlation_pairs :: "observation list \<Rightarrow> observation list \<Rightarrow> (string \<times> string) list" where
  "correlation_pairs failures latest =
     remdups (filter (\<lambda>(c, m). c \<noteq> [] \<and> m \<noteq> []) (map (\<lambda>u. (ob_ci u, ob_metric u)) (failures @ filter open_pair latest)))"

definition cycle_candidates :: "cycle_env \<Rightarrow> observation list \<Rightarrow> observation list \<Rightarrow> world \<Rightarrow> (string \<times> string \<times> string) set" where
  "cycle_candidates env failures latest w =
     (let pairs = correlation_pairs failures latest; on = cy_rca env \<and> pairs \<noteq> [];
          cache = (if on \<and> cy_index_ok env then parent_index_of (cy_links env) w pairs else []);
          obs = failures @ filter (\<lambda>u. ob_type u \<noteq> []) latest;
          parents = (if on \<and> cy_index_ok env \<and> cy_relations_ok env
                     then build_cycle_parent_index obs (get_topology_relations (w_topology w) (cy_links env) (map fst pairs)) else [])
      in cycle_root_candidates obs cache parents)"

definition of_metric :: "string \<Rightarrow> observation list \<Rightarrow> observation list" where
  "of_metric m us = filter (\<lambda>u. ob_metric u = m) us"

definition roots_of :: "(string \<times> string \<times> string) set \<Rightarrow> string \<Rightarrow> refresh \<Rightarrow> observation list \<Rightarrow> world \<Rightarrow> world" where
  "roots_of candidates metric refresh us w =
     (let rows = filter (\<lambda>u. triplet u \<in> candidates \<and> ob_metric u = metric) us in if rows = [] then w else refresh [] rows w)"

definition if_any :: "refresh \<Rightarrow> parent_index \<Rightarrow> observation list \<Rightarrow> world \<Rightarrow> world" where
  "if_any refresh cache rows w = (if rows = [] then w else refresh cache rows w)"

text \<open>The first half: root events of the collection failures, before the samples are stored.\<close>

definition poll_before_store :: "(nat \<Rightarrow> string) \<Rightarrow> instant \<Rightarrow> cycle_env \<Rightarrow> observation list \<Rightarrow> observation list \<Rightarrow> world \<Rightarrow> world" where
  "poll_before_store uuid now env failures latest w =
     snd (materialize_current_cycle_roots failures (cycle_candidates env failures latest w)
       (refresh_snmp_collection_failures uuid now) (\<lambda>_ _ v. v) (\<lambda>_ _ v. v) w)"

text \<open>The second half: the other root events, synthetic breaches, recoveries and the dependents.\<close>

definition poll_after_store ::
  "(nat \<Rightarrow> string) \<Rightarrow> instant \<Rightarrow> cycle_env \<Rightarrow> (string \<times> string \<times> string) set \<Rightarrow> observation list \<Rightarrow> observation list \<Rightarrow> (string \<times> string) list \<Rightarrow> world \<Rightarrow> world" where
  "poll_after_store uuid now env candidates failures latest configured w =
     (let availability = filter (\<lambda>u. ob_kind u = ''availability'') latest;
          latency = of_metric icmp_latency_metric latest; jitter = of_metric icmp_jitter_metric latest; loss = of_metric icmp_packet_loss_metric latest;
          icmp = filter (\<lambda>r. ob_type r \<in> {''AVAILABILITY'', ''THRESHOLD_BREACH''}) (failures @ filter (\<lambda>u. ob_type u \<noteq> []) latest);
          w1 = snd (materialize_current_cycle_roots icmp candidates (\<lambda>_ _ v. v) (refresh_icmp_availability_events uuid now) (refresh_icmp_latency_events uuid now) w);
          w2 = roots_of candidates icmp_packet_loss_metric (refresh_icmp_packet_loss_events uuid now) loss
                 (roots_of candidates icmp_jitter_metric (refresh_icmp_jitter_events uuid now) jitter w1);
          jitter' = inject_synthetic_breaches_for_down_cis jitter availability icmp_jitter_metric configured;
          loss' = inject_synthetic_breaches_for_down_cis loss availability icmp_packet_loss_metric configured;
          w3 = recover_icmp_packet_loss_events now loss' (recover_icmp_jitter_events now jitter' (recover_icmp_latency_events now latency
                 (recover_icmp_availability_events now availability (recover_snmp_collection_failures now latest w2))));
          pairs = correlation_pairs failures latest;
          cache = (if cy_rca env \<and> pairs \<noteq> [] \<and> cy_rebuild_ok env then parent_index_of (cy_links env) w3 pairs else []);
          rest = filter (\<lambda>u. triplet u \<notin> candidates)
      in if_any (refresh_icmp_packet_loss_events uuid now) cache (rest loss')
           (if_any (refresh_icmp_jitter_events uuid now) cache (rest jitter')
             (if_any (refresh_icmp_latency_events uuid now) cache (rest latency)
               (if_any (refresh_icmp_availability_events uuid now) cache (rest availability)
                 (if_any (refresh_snmp_collection_failures uuid now) cache (rest failures) w3)))))"

definition poll_events ::
  "(nat \<Rightarrow> string) \<Rightarrow> instant \<Rightarrow> cycle_env \<Rightarrow> observation list \<Rightarrow> observation list \<Rightarrow> (string \<times> string) list \<Rightarrow> world \<Rightarrow> world" where
  "poll_events uuid now env failures latest configured w =
     (let v = poll_before_store uuid now env failures latest w
      in if cy_stored_ok env then poll_after_store uuid now env (cycle_candidates env failures latest w) failures latest configured v else v)"

end
