(* ===== verification/Poll_Roots.thy ===== *)
theory Poll_Roots
  imports Poll_Events
begin

section \<open>What a polling cycle does to events\<close>

text \<open>
  The shape of a write to the events, stated once as the interface \<open>event_write\<close> and met by the
  collection failures, the reachability outages, the threshold breaches and the degraded children.
  From it: one live breach per item and metric over any cycles, and what a failed store leaves
  undone. Then, on concrete cycles: the updates that lose an acknowledgement, a second breach, or
  all but the last attached item, and two linked items that are each the root of the other.
\<close>

subsection \<open>The shape of a write\<close>

definition ids_ok :: "(nat \<Rightarrow> string) \<Rightarrow> world \<Rightarrow> bool" where
  "ids_ok uuid w \<longleftrightarrow> inj uuid \<and> distinct (map pe_id (w_events w)) \<and> (\<forall>n \<ge> w_next w. uuid n \<notin> pe_id ` set (w_events w))"

fun created :: "(string \<Rightarrow> observation \<Rightarrow> poll_event) \<Rightarrow> (nat \<Rightarrow> string) \<Rightarrow> nat \<Rightarrow> observation list \<Rightarrow> poll_event list" where
  "created mk uuid n [] = []"
| "created mk uuid n (r # rs) = mk (uuid n) r # created mk uuid (Suc n) rs"

lemma created_ids: "(\<And>i r. pe_id (mk i r) = i) \<Longrightarrow> map pe_id (created mk uuid n rs) = map uuid [n..<n + length rs]"
  by (induction rs arbitrary: n) (simp_all add: upt_rec)

lemma created_mem: "e \<in> set (created mk uuid n rs) \<Longrightarrow> \<exists>i. \<exists>r \<in> set rs. e = mk i r"
  by (induction rs arbitrary: n) (simp, force)

definition updates_of :: "(observation \<times> poll_event option) list \<Rightarrow> poll_event \<Rightarrow> observation list" where
  "updates_of L e = map fst (filter (\<lambda>(r, x). x = Some e) L)"

lemma write_rows:
  assumes "inj uuid" "distinct (map pe_id E)" "\<forall>n \<ge> n0. uuid n \<notin> pe_id ` set E"
    and "\<forall>(r, x) \<in> set L. \<forall>e. x = Some e \<longrightarrow> e \<in> set E"
    and "\<And>r e. pe_id (upd r e) = pe_id e"
    and "\<And>e. pe_id (g e) = pe_id e"
    and "w_events w = map g E @ N" "n0 \<le> w_next w" "pe_id ` set N \<subseteq> uuid ` {n0..}"
    and "\<And>i r. pe_id (mk i r) = i"
  shows "w_events (fold (write_row mk upd uuid) L w) =
      map (\<lambda>e. fold upd (updates_of L e) (g e)) E @ N @ created mk uuid (w_next w) (map fst (filter (\<lambda>(r, x). x = None) L)) \<and>
    w_next (fold (write_row mk upd uuid) L w) = w_next w + length (filter (\<lambda>(r, x). x = None) L)"
  using assms(4-9)
proof (induction L arbitrary: w g N)
  case Nil
  then show ?case by (simp add: updates_of_def)
next
  case (Cons p L)
  obtain r x where p: "p = (r, x)" by (cases p)
  show ?case
  proof (cases x)
    case None
    let ?w = "write_row mk upd uuid p w"
    have w: "w_events ?w = map g E @ (N @ [mk (uuid (w_next w)) r])" "w_next ?w = Suc (w_next w)"
      using Cons.prems(4) by (simp_all add: write_row_def p None)
    have "pe_id ` set (N @ [mk (uuid (w_next w)) r]) \<subseteq> uuid ` {n0..}"
      using Cons.prems(5, 6) assms(10) by auto
    then have "w_events (fold (write_row mk upd uuid) L ?w) = map (\<lambda>e. fold upd (updates_of L e) (g e)) E @ (N @ [mk (uuid (w_next w)) r])
          @ created mk uuid (w_next ?w) (map fst (filter (\<lambda>(r, x). x = None) L)) \<and>
        w_next (fold (write_row mk upd uuid) L ?w) = w_next ?w + length (filter (\<lambda>(r, x). x = None) L)"
      using Cons.prems(1, 5) by (intro Cons.IH) (simp_all add: w Cons.prems(2, 3))
    moreover have "updates_of (p # L) = updates_of L" by (rule ext) (simp add: updates_of_def p None)
    ultimately show ?thesis using w by (simp add: p None)
  next
    case (Some y)
    then have y: "y \<in> set E" using Cons.prems(1) by (simp add: p)
    have same: "pe_id e = pe_id y \<longleftrightarrow> e = y" if "e \<in> set E" for e
      using assms(2) that y by (auto simp: distinct_map dest: inj_onD)
    have apart: "pe_id e \<noteq> pe_id y" if "e \<in> set N" for e
    proof
      assume same_id: "pe_id e = pe_id y"
      have "pe_id e \<in> uuid ` {n0..}" using Cons.prems(6) that by blast
      then obtain n where "n0 \<le> n" "pe_id y = uuid n" by (auto simp: same_id)
      with assms(3) y show False by (metis image_eqI)
    qed
    let ?w = "write_row mk upd uuid p w" and ?g = "\<lambda>e. if e = y then upd r (g e) else g e"
    have "map (\<lambda>e. if pe_id e = pe_id y then upd r e else e) (map g E) = map ?g E"
      using same Cons.prems(3) by (auto intro!: map_cong)
    moreover have "map (\<lambda>e. if pe_id e = pe_id y then upd r e else e) N = N"
      using apart by (intro map_idI) simp
    ultimately have w: "w_events ?w = map ?g E @ N" "w_next ?w = w_next w"
      using Cons.prems(4) by (simp_all add: write_row_def p Some del: map_map)
    have "fold upd (updates_of L e) (?g e) = fold upd (updates_of (p # L) e) (g e)" for e
      by (auto simp: updates_of_def p Some)
    moreover have "w_events (fold (write_row mk upd uuid) L ?w) = map (\<lambda>e. fold upd (updates_of L e) (?g e)) E @ N
          @ created mk uuid (w_next ?w) (map fst (filter (\<lambda>(r, x). x = None) L)) \<and>
        w_next (fold (write_row mk upd uuid) L ?w) = w_next ?w + length (filter (\<lambda>(r, x). x = None) L)"
      using Cons.prems(1) by (intro Cons.IH) (simp_all add: w Cons.prems(2, 3, 5, 6))
    ultimately show ?thesis using w by (simp add: p Some)
  qed
qed

definition found_rows :: "(observation \<Rightarrow> poll_event list \<Rightarrow> poll_event option) \<Rightarrow> observation list \<Rightarrow> world \<Rightarrow> poll_event \<Rightarrow> observation list" where
  "found_rows existing rows w e = filter (\<lambda>r. row_matches w r \<and> existing r (w_events w) = Some e) rows"

definition fresh_rows :: "(observation \<Rightarrow> poll_event list \<Rightarrow> poll_event option) \<Rightarrow> observation list \<Rightarrow> world \<Rightarrow> observation list" where
  "fresh_rows existing rows w = filter (\<lambda>r. row_matches w r \<and> existing r (w_events w) = None) rows"

locale event_write =
  fixes existing :: "observation \<Rightarrow> poll_event list \<Rightarrow> poll_event option"
    and mk :: "string \<Rightarrow> observation \<Rightarrow> poll_event"
    and upd :: "observation \<Rightarrow> poll_event \<Rightarrow> poll_event"
  assumes existing_in: "existing r es = Some e \<Longrightarrow> e \<in> set es"
    and mk_id: "pe_id (mk i r) = i"
    and upd_id: "pe_id (upd r e) = pe_id e"
begin

lemma shape:
  assumes "ids_ok uuid w"
  shows "w_events (upsert_events existing mk upd uuid rows w) =
      map (\<lambda>e. fold upd (found_rows existing rows w e) e) (w_events w) @ created mk uuid (w_next w) (fresh_rows existing rows w)"
    "w_next (upsert_events existing mk upd uuid rows w) = w_next w + length (fresh_rows existing rows w)"
proof -
  let ?L = "map (\<lambda>r. (r, existing r (w_events w))) (filter (row_matches w) rows)"
  have found: "updates_of ?L e = found_rows existing rows w e" for e
    by (induction rows) (auto simp: updates_of_def found_rows_def)
  have fresh: "map fst (filter (\<lambda>(r, x). x = None) ?L) = fresh_rows existing rows w"
    by (induction rows) (auto simp: fresh_rows_def)
  have "w_events (fold (write_row mk upd uuid) ?L w) =
      map (\<lambda>e. fold upd (updates_of ?L e) (id e)) (w_events w) @ [] @ created mk uuid (w_next w) (map fst (filter (\<lambda>(r, x). x = None) ?L)) \<and>
    w_next (fold (write_row mk upd uuid) ?L w) = w_next w + length (filter (\<lambda>(r, x). x = None) ?L)"
    by (rule write_rows) (use assms existing_in in \<open>auto simp: ids_ok_def mk_id upd_id\<close>)
  moreover have "length (filter (\<lambda>(r, x). x = None) ?L) = length (fresh_rows existing rows w)"
    by (simp flip: fresh)
  ultimately show "w_events (upsert_events existing mk upd uuid rows w) =
      map (\<lambda>e. fold upd (found_rows existing rows w e) e) (w_events w) @ created mk uuid (w_next w) (fresh_rows existing rows w)"
    "w_next (upsert_events existing mk upd uuid rows w) = w_next w + length (fresh_rows existing rows w)"
    by (simp_all add: upsert_events_def found fresh)
qed

lemma updates_id: "pe_id (fold upd rs e) = pe_id e"
  by (induction rs arbitrary: e) (simp_all add: upd_id)

lemma keeps_ids:
  assumes "ids_ok uuid w"
  shows "ids_ok uuid (upsert_events existing mk upd uuid rows w)"
proof -
  let ?k = "length (fresh_rows existing rows w)" and ?v = "upsert_events existing mk upd uuid rows w"
  have ids: "map pe_id (w_events ?v) = map pe_id (w_events w) @ map uuid [w_next w..<w_next w + ?k]"
    by (simp add: shape [OF assms] created_ids mk_id updates_id comp_def)
  have inj: "inj uuid" and fresh: "\<forall>n \<ge> w_next w. uuid n \<notin> set (map pe_id (w_events w))" and dist: "distinct (map pe_id (w_events w))"
    using assms by (auto simp: ids_ok_def)
  have "distinct (map pe_id (w_events ?v))"
  proof -
    have "distinct (map uuid [w_next w..<w_next w + ?k])" by (simp add: distinct_map inj_on_subset [OF inj subset_UNIV])
    moreover have "x \<notin> set (map pe_id (w_events w))" if "x \<in> set (map uuid [w_next w..<w_next w + ?k])" for x
    proof -
      from that obtain n where "w_next w \<le> n" "x = uuid n" by auto
      with fresh show ?thesis by blast
    qed
    ultimately show ?thesis unfolding ids distinct_append using dist by blast
  qed
  moreover have "uuid n \<notin> set (map pe_id (w_events ?v))" if "w_next w + ?k \<le> n" for n
    unfolding ids using fresh that by (auto simp: inj_eq [OF inj])
  ultimately show ?thesis using inj shape(2) [OF assms] by (auto simp: ids_ok_def)
qed

end

lemma find_in: "find P es = Some e \<Longrightarrow> e \<in> set es \<and> P e"
  by (induction es) (auto split: if_splits)

lemma newest_in: "newest P es = Some e \<Longrightarrow> e \<in> set es \<and> P e"
proof -
  assume "newest P es = Some e"
  then obtain xs where "sort_key (\<lambda>e. - pe_created e) (filter P es) = e # xs"
    by (auto simp: newest_def split: list.splits)
  then have "e \<in> set (sort_key (\<lambda>e. - pe_created e) (filter P es))" by simp
  then show ?thesis by simp
qed

abbreviation collection_new :: "instant \<Rightarrow> string \<Rightarrow> observation \<Rightarrow> poll_event" where
  "collection_new now \<equiv> \<lambda>i r. (new_poll_event now i r)\<lparr>pe_avail := None\<rparr>"

abbreviation collection_update :: "instant \<Rightarrow> observation \<Rightarrow> poll_event \<Rightarrow> poll_event" where
  "collection_update now \<equiv> \<lambda>r e. (reopen now r e)\<lparr>pe_family := ob_family r\<rparr>"

abbreviation availability_new :: "instant \<Rightarrow> string \<Rightarrow> observation \<Rightarrow> poll_event" where
  "availability_new now \<equiv> \<lambda>i r. (new_poll_event now i r)\<lparr>pe_family := None\<rparr>"

abbreviation availability_update :: "instant \<Rightarrow> observation \<Rightarrow> poll_event \<Rightarrow> poll_event" where
  "availability_update now \<equiv> \<lambda>r e. (reopen now r e)\<lparr>pe_avail := ob_avail r\<rparr>"

abbreviation breach_new :: "instant \<Rightarrow> string \<Rightarrow> observation \<Rightarrow> poll_event" where
  "breach_new now \<equiv> \<lambda>i r. (new_poll_event now i r)\<lparr>pe_severity := ob_status r, pe_family := None, pe_avail := None\<rparr>"

abbreviation degraded_new :: "instant \<Rightarrow> string \<Rightarrow> observation \<Rightarrow> poll_event" where
  "degraded_new now \<equiv> \<lambda>i r. (new_poll_event now i r)\<lparr>pe_corr := Some ''PROPAGATED'', pe_degraded := True, pe_link := ob_link r\<rparr>"

interpretation col: event_write "\<lambda>r. find (collection_root_of r)" "collection_new now" "collection_update now" for now
  by unfold_locales (auto simp: new_poll_event_def reopen_def dest: find_in)

interpretation ava: event_write "\<lambda>r. find (availability_root_of r)" "availability_new now" "availability_update now" for now
  by unfold_locales (auto simp: new_poll_event_def reopen_def dest: find_in)

interpretation bre: event_write "\<lambda>r. find (breach_root_of r)" "breach_new now" "update_breach now" for now
  by unfold_locales (auto simp: new_poll_event_def update_breach_def dest: find_in)

interpretation deg: event_write "\<lambda>r. newest (degraded_child_of r)" "degraded_new now" "update_degraded now" for now
  by unfold_locales (auto simp: new_poll_event_def update_degraded_def dest: newest_in)

subsection \<open>Writes that leave live breaches alone\<close>

definition live_breach :: "poll_event \<Rightarrow> bool" where
  "live_breach e = (is_live e \<and> is_root e \<and> pe_type e = Some ''THRESHOLD_BREACH'')"

definition breach_keys :: "world \<Rightarrow> (string \<times> string) list" where
  "breach_keys w = map (\<lambda>e. (pe_ci e, pe_metric e)) (filter live_breach (w_events w))"

lemma fold_keeps: "(\<And>r e. r \<in> set rs \<Longrightarrow> f (upd r e) = f e) \<Longrightarrow> f (fold upd rs e) = f e"
  by (induction rs arbitrary: e) simp_all

lemma filter_map_keeps: "(\<And>e. e \<in> set es \<Longrightarrow> P (f e) = P e \<and> (P e \<longrightarrow> k (f e) = k e)) \<Longrightarrow> map k (filter P (map f es)) = map k (filter P es)"
  by (induction es) auto

lemma attach_fields:
  "pe_id (attach_rows rows e) = pe_id e" "pe_ci (attach_rows rows e) = pe_ci e" "pe_metric (attach_rows rows e) = pe_metric e"
  "pe_status (attach_rows rows e) = pe_status e" "pe_type (attach_rows rows e) = pe_type e" "pe_corr (attach_rows rows e) = pe_corr e"
  unfolding attach_rows_def by (rule fold_keeps, simp add: Let_def)+

lemma attach_same:
  "ids_ok uuid w \<Longrightarrow> ids_ok uuid (update_propagated_root_events rows w)"
  "breach_keys (update_propagated_root_events rows w) = breach_keys w"
  by (simp_all add: ids_ok_def update_propagated_root_events_def attach_fields comp_def image_image)
    (simp add: breach_keys_def update_propagated_root_events_def, rule filter_map_keeps,
     simp add: live_breach_def is_live_def is_root_def attach_fields)

lemma recover_same:
  "ids_ok uuid w \<Longrightarrow> ids_ok uuid (recover_events ends belongs text now rows w)"
  "breach_keys (recover_events ends belongs text now rows w) = breach_keys w"
proof -
  define hits where "hits = (\<lambda>e. filter (\<lambda>r. ob_ci r \<in> set (w_items w) \<and> pe_ci e = ob_ci r \<and> pe_metric e = ob_metric r \<and> is_open e \<and> ends r e) rows)"
  define f where "f = (\<lambda>e. if hits e = [] then e else (recover now e)\<lparr>pe_message := text (List.last (hits e))\<rparr>)"
  define h where "h = (\<lambda>p. if pe_corr p = Some ''PROPAGATED'' \<and> is_open p \<and> may_propagate w (pe_metric p)
      \<and> list_ex (\<lambda>e. belongs e p) (filter (\<lambda>e. hits e \<noteq> []) (w_events w)) then recover now p else p)"
  have shape: "recover_events ends belongs text now rows w = w\<lparr>w_events := map (\<lambda>e. h (f e)) (w_events w)\<rparr>"
    unfolding recover_events_def Let_def f_def h_def hits_def map_map comp_def by (rule refl)
  have opened: "hits e \<noteq> [] \<Longrightarrow> is_open e" for e by (auto simp: hits_def filter_empty_conv)
  have fields: "pe_id (h (f e)) = pe_id e" "pe_ci (h (f e)) = pe_ci e" "pe_metric (h (f e)) = pe_metric e" "live_breach (h (f e)) = live_breach e" for e
    using opened [of e] by (auto simp: h_def f_def recover_def live_breach_def is_live_def is_root_def is_open_def)
  show "ids_ok uuid w \<Longrightarrow> ids_ok uuid (recover_events ends belongs text now rows w)"
    by (simp add: shape ids_ok_def fields comp_def image_image)
  show "breach_keys (recover_events ends belongs text now rows w) = breach_keys w"
    by (simp add: shape breach_keys_def, rule filter_map_keeps) (simp add: fields)
qed

lemma fresh_sub: "r \<in> set (fresh_rows existing rows w) \<Longrightarrow> r \<in> set rows \<and> existing r (w_events w) = None \<and> row_matches w r"
  by (simp add: fresh_rows_def)

lemma found_sub: "r \<in> set (found_rows existing rows w e) \<Longrightarrow> r \<in> set rows \<and> existing r (w_events w) = Some e"
  by (simp add: found_rows_def)

context event_write
begin

lemma others_kept:
  assumes "ids_ok uuid w"
    and "\<And>r e. r \<in> set rows \<Longrightarrow> existing r (w_events w) = Some e \<Longrightarrow> Q e"
    and "\<And>r e. r \<in> set rows \<Longrightarrow> Q e \<Longrightarrow> Q (upd r e)"
    and "\<And>i r. r \<in> set rows \<Longrightarrow> Q (mk i r)"
  shows "filter (\<lambda>e. \<not> Q e) (w_events (upsert_events existing mk upd uuid rows w)) = filter (\<lambda>e. \<not> Q e) (w_events w)"
proof -
  have "Q e" if "e \<in> set (created mk uuid (w_next w) (fresh_rows existing rows w))" for e
    using created_mem [OF that] assms(4) fresh_sub by blast
  then have new: "filter (\<lambda>e. \<not> Q e) (created mk uuid (w_next w) (fresh_rows existing rows w)) = []"
    by (simp add: filter_empty_conv)
  have old: "Q (fold upd (found_rows existing rows w e) e) = Q e \<and> (\<not> Q e \<longrightarrow> fold upd (found_rows existing rows w e) e = e)" for e
  proof (cases "found_rows existing rows w e = []")
    case False
    then obtain r where "r \<in> set (found_rows existing rows w e)" by (meson list.set_sel(1))
    then have "Q e" using assms(2) found_sub by blast
    moreover have "Q (fold upd rs x)" if "set rs \<subseteq> set rows" "Q x" for rs x
      using that assms(3) by (induction rs arbitrary: x) simp_all
    moreover have "set (found_rows existing rows w e) \<subseteq> set rows" using found_sub by blast
    ultimately show ?thesis by blast
  qed simp
  have "filter (\<lambda>e. \<not> Q e) (map (\<lambda>e. fold upd (found_rows existing rows w e) e) es) = filter (\<lambda>e. \<not> Q e) es" for es
    using old by (induction es) auto
  with new show ?thesis by (simp only: shape(1) [OF assms(1)] filter_append append_Nil2)
qed

lemma same_breaches:
  assumes "ids_ok uuid w"
    and "\<And>r e. r \<in> set rows \<Longrightarrow> existing r (w_events w) = Some e \<Longrightarrow> Q e"
    and "\<And>r e. r \<in> set rows \<Longrightarrow> Q e \<Longrightarrow> Q (upd r e)"
    and "\<And>i r. r \<in> set rows \<Longrightarrow> Q (mk i r)"
    and none: "\<And>e. Q e \<Longrightarrow> \<not> live_breach e"
  shows "breach_keys (upsert_events existing mk upd uuid rows w) = breach_keys w"
proof -
  have "filter live_breach es = filter live_breach (filter (\<lambda>e. \<not> Q e) es)" for es
    using none by (induction es) auto
  note split = this
  have "filter live_breach (w_events (upsert_events existing mk upd uuid rows w)) =
      filter live_breach (filter (\<lambda>e. \<not> Q e) (w_events (upsert_events existing mk upd uuid rows w)))" by (rule split)
  also have "\<dots> = filter live_breach (filter (\<lambda>e. \<not> Q e) (w_events w))"
    by (rule arg_cong [of _ _ "filter live_breach"], rule others_kept, fact assms(1), fact assms(2), fact assms(3), fact assms(4))
  also have "\<dots> = filter live_breach (w_events w)" by (rule split [symmetric])
  finally show ?thesis by (simp add: breach_keys_def)
qed

end

lemma resolve_fields:
  "ob_ci (resolve_correlation c r) = ob_ci r" "ob_metric (resolve_correlation c r) = ob_metric r" "ob_type (resolve_correlation c r) = ob_type r"
  "ob_status (resolve_correlation c r) = ob_status r" "ob_severity (resolve_correlation c r) = ob_severity r" "ob_message (resolve_correlation c r) = ob_message r"
  "ob_source (resolve_correlation c r) = ob_source r" "ob_avail (resolve_correlation c r) = ob_avail r" "ob_family (resolve_correlation c r) = ob_family r"
  "ob_protocol (resolve_correlation c r) = ob_protocol r" "ob_value (resolve_correlation c r) = ob_value r"
  by (simp_all add: resolve_correlation_def Let_def split: option.split prod.split)

lemma degraded_same:
  assumes "ids_ok uuid w"
  shows "ids_ok uuid (create_degraded_propagated_events uuid now rows w)"
    "breach_keys (create_degraded_propagated_events uuid now rows w) = breach_keys w"
proof -
  show "ids_ok uuid (create_degraded_propagated_events uuid now rows w)"
    unfolding create_degraded_propagated_events_def by (rule deg.keeps_ids [OF assms])
  show "breach_keys (create_degraded_propagated_events uuid now rows w) = breach_keys w"
    unfolding create_degraded_propagated_events_def
  proof (rule deg.same_breaches [OF assms, where Q = "\<lambda>e. pe_corr e = Some ''PROPAGATED''"])
    show "pe_corr e = Some ''PROPAGATED''" if "newest (degraded_child_of r) (w_events w) = Some e" for r e
      using newest_in [OF that] by (simp add: degraded_child_of_def)
  qed (simp_all add: update_degraded_def live_breach_def is_root_def)
qed

subsection \<open>One live breach per item and metric\<close>

definition breach_inv :: "(nat \<Rightarrow> string) \<Rightarrow> world \<Rightarrow> bool" where
  "breach_inv uuid w \<longleftrightarrow> ids_ok uuid w \<and> distinct (breach_keys w)"

definition key_of :: "observation \<Rightarrow> string \<times> string" where
  "key_of r = (ob_ci r, ob_metric r)"

lemma children_inv: "breach_inv uuid w \<Longrightarrow> breach_inv uuid (update_propagated_root_events rs (create_degraded_propagated_events uuid now rs' w))"
  by (simp add: breach_inv_def attach_same degraded_same)

lemma recover_inv: "breach_inv uuid w \<Longrightarrow> breach_inv uuid (recover_events ends belongs text now rows w)"
  by (simp add: breach_inv_def recover_same)

lemma deduped_in: "set (dedupe_snmp_collection_failures rows) \<subseteq> set rows"
proof -
  have "snd ` set (fold (\<lambda>r d. AList.update (ob_ci r, ob_metric r, ob_family r) r d) rows d0) \<subseteq> set rows \<union> snd ` set d0" for d0
  proof (induction rows arbitrary: d0)
    case (Cons r rows)
    have "snd ` set (AList.update k r d0) \<subseteq> insert r (snd ` set d0)" for k
      by (induction d0) auto
    from this [of "(ob_ci r, ob_metric r, ob_family r)"] Cons [of "AList.update (ob_ci r, ob_metric r, ob_family r) r d0"]
    have "snd ` set (fold (\<lambda>r d. AList.update (ob_ci r, ob_metric r, ob_family r) r d) rows (AList.update (ob_ci r, ob_metric r, ob_family r) r d0))
        \<subseteq> set rows \<union> insert r (snd ` set d0)" by (meson subset_trans Un_mono subset_refl)
    then show ?case by simp
  qed simp
  from this [of "[]"] show ?thesis by (simp add: dedupe_snmp_collection_failures_def)
qed

lemma collection_inv:
  assumes "breach_inv uuid w" "list_all (\<lambda>r. ob_type r \<noteq> ''THRESHOLD_BREACH'') rows"
  shows "breach_inv uuid (refresh_snmp_collection_failures uuid now cache rows w)"
proof -
  have types: "ob_type r \<noteq> ''THRESHOLD_BREACH''"
    if "r \<in> set (filter (\<lambda>_. True) (filter (\<lambda>r. \<not> propagated r) (map (resolve_correlation cache) (dedupe_snmp_collection_failures rows))))" for r
    using that assms(2) subsetD [OF deduped_in] by (auto simp: resolve_fields list_all_iff)
  have ids: "ids_ok uuid w" using assms(1) by (simp add: breach_inv_def)
  show ?thesis
    unfolding refresh_snmp_collection_failures_def write_family_def Let_def
  proof (rule children_inv, unfold breach_inv_def, intro conjI col.keeps_ids [OF ids], subst col.same_breaches [OF ids, where Q = "\<lambda>e. pe_type e \<noteq> Some ''THRESHOLD_BREACH''"])
    show "pe_type e \<noteq> Some ''THRESHOLD_BREACH''" if "find (collection_root_of r) (w_events w) = Some e" for r e
      using find_in [OF that] by (auto simp: collection_root_of_def collection_event_def)
  qed (use types assms(1) in \<open>auto simp: reopen_def new_poll_event_def live_breach_def breach_inv_def\<close>)
qed

lemma availability_inv:
  assumes "breach_inv uuid w"
  shows "breach_inv uuid (refresh_icmp_availability_events uuid now cache rows w)"
proof -
  have ids: "ids_ok uuid w" using assms by (simp add: breach_inv_def)
  show ?thesis
    unfolding refresh_icmp_availability_events_def write_family_def Let_def
  proof (rule children_inv, unfold breach_inv_def, intro conjI ava.keeps_ids [OF ids], subst ava.same_breaches [OF ids, where Q = "\<lambda>e. pe_type e \<noteq> Some ''THRESHOLD_BREACH''"])
    show "pe_type e \<noteq> Some ''THRESHOLD_BREACH''" if "find (availability_root_of r) (w_events w) = Some e" for r e
      using find_in [OF that] by (auto simp: availability_root_of_def)
  qed (use assms in \<open>auto simp: reopen_def new_poll_event_def live_breach_def breach_inv_def\<close>)
qed

lemma breach_write:
  assumes "breach_inv uuid w" "distinct (map key_of rows)"
  shows "breach_inv uuid (upsert_events (\<lambda>r. find (breach_root_of r)) (breach_new now) (update_breach now) uuid rows w)"
proof -
  let ?ex = "\<lambda>r. find (breach_root_of r)"
  have ids: "ids_ok uuid w" and dist: "distinct (breach_keys w)" using assms(1) by (auto simp: breach_inv_def)
  have upd: "pe_ci (update_breach now r e) = pe_ci e" "pe_metric (update_breach now r e) = pe_metric e"
    "live_breach (update_breach now r e) = live_breach e" for r e
    by (auto simp: update_breach_def live_breach_def is_live_def is_root_def split: option.splits)
  have "pe_ci (fold (update_breach now) rs e) = pe_ci e" "pe_metric (fold (update_breach now) rs e) = pe_metric e"
    "live_breach (fold (update_breach now) rs e) = live_breach e" for rs e
    by (rule fold_keeps, rule upd)+
  then have old: "map (\<lambda>e. (pe_ci e, pe_metric e)) (filter live_breach (map (\<lambda>e. fold (update_breach now) (found_rows ?ex rows w e) e) (w_events w))) = breach_keys w"
    unfolding breach_keys_def by (intro filter_map_keeps) simp
  have new: "map (\<lambda>e. (pe_ci e, pe_metric e)) (created (breach_new now) uuid n rs) = map key_of rs" for n rs
    by (induction rs arbitrary: n) (simp_all add: new_poll_event_def key_of_def)
  have "distinct (map key_of (fresh_rows ?ex rows w))"
    unfolding fresh_rows_def by (rule distinct_map_filter [OF assms(2)])
  then have "distinct (map (\<lambda>e. (pe_ci e, pe_metric e)) (filter live_breach (created (breach_new now) uuid (w_next w) (fresh_rows ?ex rows w))))"
    by (intro distinct_map_filter) (simp only: new)
  moreover have "(pe_ci e, pe_metric e) \<notin> set (breach_keys w)" if "e \<in> set (created (breach_new now) uuid (w_next w) (fresh_rows ?ex rows w))" for e
  proof -
    from created_mem [OF that] obtain i r where r: "r \<in> set (fresh_rows ?ex rows w)" "e = breach_new now i r" by blast
    then have "\<forall>x \<in> set (w_events w). \<not> breach_root_of r x" using fresh_sub [OF r(1)] by (simp add: find_None_iff)
    with r(2) show ?thesis by (auto simp: breach_keys_def live_breach_def breach_root_of_def new_poll_event_def)
  qed
  then have "k \<notin> set (breach_keys w)"
    if "k \<in> set (map (\<lambda>e. (pe_ci e, pe_metric e)) (filter live_breach (created (breach_new now) uuid (w_next w) (fresh_rows ?ex rows w))))" for k
    using that by force
  ultimately have "distinct (breach_keys w @ map (\<lambda>e. (pe_ci e, pe_metric e)) (filter live_breach (created (breach_new now) uuid (w_next w) (fresh_rows ?ex rows w))))"
    unfolding distinct_append using dist by blast
  then have "distinct (breach_keys (upsert_events ?ex (breach_new now) (update_breach now) uuid rows w))"
    by (simp only: breach_keys_def [of "upsert_events _ _ _ _ _ _"] bre.shape(1) [OF ids] filter_append map_append old)
  then show ?thesis using bre.keeps_ids [OF ids] by (simp add: breach_inv_def)
qed

lemma resolved_keys: "map key_of (map (resolve_correlation c) rows) = map key_of rows"
  by (simp add: key_of_def resolve_fields)

lemma threshold_inv:
  assumes "breach_inv uuid w" "distinct (map key_of rows)"
  shows "breach_inv uuid (refresh_threshold_events metric uuid now cache rows w)"
proof -
  have "distinct (map key_of (filter (\<lambda>_. True) (filter (\<lambda>r. \<not> propagated r) (map (resolve_correlation cache) (filter (breach_row metric) rows)))))"
    by (intro distinct_map_filter) (simp only: resolved_keys distinct_map_filter [OF assms(2)])
  then show ?thesis
    unfolding refresh_threshold_events_def write_family_def Let_def by (intro children_inv breach_write [OF assms(1)])
qed

definition family_rows :: "observation list \<Rightarrow> (string \<times> string \<times> string) set \<Rightarrow> string \<Rightarrow> observation list" where
  "family_rows obs candidates family =
     filter (\<lambda>r. event_producing r \<and> triplet r \<in> candidates \<and> event_family (ob_type r) = Some family) obs"

lemma materialize_steps:
  "snd (materialize_current_cycle_roots obs candidates f1 f2 f3 w) =
     if_any f3 [] (family_rows obs candidates ''latency'') (if_any f2 [] (family_rows obs candidates ''availability'')
       (if_any f1 [] (family_rows obs candidates ''collection'') w))"
  by (simp add: materialize_current_cycle_roots_def if_any_def family_rows_def Let_def)

lemma if_any_inv: "P w \<Longrightarrow> (\<And>v. P v \<Longrightarrow> P (f c rows v)) \<Longrightarrow> P (if_any f c rows w)"
  by (simp add: if_any_def)

lemma roots_of_inv: "P w \<Longrightarrow> (\<And>v. P v \<Longrightarrow> P (f [] (filter (\<lambda>u. triplet u \<in> candidates \<and> ob_metric u = m) us) v)) \<Longrightarrow> P (roots_of candidates m f us w)"
  by (simp add: roots_of_def Let_def)

lemma family_types:
  "r \<in> set (family_rows obs c ''collection'') \<Longrightarrow> ob_type r = ''COLLECTION_FAILURE''"
  "r \<in> set (family_rows obs c ''latency'') \<Longrightarrow> ob_type r = ''THRESHOLD_BREACH''"
  by (auto simp: family_rows_def event_family_def split: if_splits)

lemma unreachable_distinct: "distinct (unreachable availability)"
proof -
  have "distinct (map fst (fold (\<lambda>r d. if ob_ci r = [] \<or> ping_availability_source (ob_avail r) = None then d else AList.update (ob_ci r) r d) us d0))"
    if "distinct (map fst d0)" for us d0
    using that by (induction us arbitrary: d0) (simp_all add: distinct_update)
  from this [of "[]" availability] show ?thesis unfolding unreachable_def by (intro distinct_map_filter) simp_all
qed

lemma injected_keys:
  assumes "distinct (map key_of updates)"
  shows "distinct (map key_of (inject_synthetic_breaches_for_down_cis updates availability metric configured))"
proof -
  let ?cs = "filter (\<lambda>c. (c, metric) \<in> set configured \<and> (c, metric) \<notin> (\<lambda>u. (ob_ci u, ob_metric u)) ` set updates) (unreachable availability)"
  have keys: "map key_of (map (\<lambda>c. synthetic_breach c metric) ?cs) = map (\<lambda>c. (c, metric)) ?cs"
    by (simp add: key_of_def synthetic_breach_def)
  have "distinct (map (\<lambda>c. (c, metric)) ?cs)"
    using unreachable_distinct by (simp add: distinct_map inj_on_def)
  moreover have "set (map key_of updates) \<inter> set (map (\<lambda>c. (c, metric)) ?cs) = {}" by (auto simp: key_of_def)
  ultimately show ?thesis
    unfolding inject_synthetic_breaches_for_down_cis_def map_append keys distinct_append using assms by blast
qed

lemma before_store_inv: "breach_inv uuid w \<Longrightarrow> breach_inv uuid (poll_before_store uuid now env failures latest w)"
  unfolding poll_before_store_def materialize_steps
  by (intro if_any_inv [where P = "breach_inv uuid"] collection_inv) (auto simp: list_all_iff dest: family_types)

lemma recoveries_inv:
  "breach_inv uuid w \<Longrightarrow> breach_inv uuid (recover_snmp_collection_failures now rows w)"
  "breach_inv uuid w \<Longrightarrow> breach_inv uuid (recover_icmp_availability_events now rows w)"
  "breach_inv uuid w \<Longrightarrow> breach_inv uuid (recover_icmp_latency_events now rows w)"
  "breach_inv uuid w \<Longrightarrow> breach_inv uuid (recover_icmp_jitter_events now rows w)"
  "breach_inv uuid w \<Longrightarrow> breach_inv uuid (recover_icmp_packet_loss_events now rows w)"
  by (simp_all add: recover_snmp_collection_failures_def recover_icmp_availability_events_def recover_icmp_latency_events_def
      recover_icmp_jitter_events_def recover_icmp_packet_loss_events_def recover_threshold_events_def recover_inv)

lemma thresholds_inv:
  "breach_inv uuid w \<Longrightarrow> distinct (map key_of rows) \<Longrightarrow> breach_inv uuid (refresh_icmp_latency_events uuid now cache rows w)"
  "breach_inv uuid w \<Longrightarrow> distinct (map key_of rows) \<Longrightarrow> breach_inv uuid (refresh_icmp_jitter_events uuid now cache rows w)"
  "breach_inv uuid w \<Longrightarrow> distinct (map key_of rows) \<Longrightarrow> breach_inv uuid (refresh_icmp_packet_loss_events uuid now cache rows w)"
  by (simp_all add: refresh_icmp_latency_events_def refresh_icmp_jitter_events_def refresh_icmp_packet_loss_events_def threshold_inv)

lemma after_store_inv:
  assumes "breach_inv uuid w" "list_all (\<lambda>r. ob_type r = ''COLLECTION_FAILURE'') failures" "distinct (map key_of latest)"
  shows "breach_inv uuid (poll_after_store uuid now env candidates failures latest configured w)"
proof -
  have rows: "distinct (map key_of (family_rows (filter P (failures @ filter Q latest)) candidates ''latency''))" for P Q
  proof -
    have "\<forall>r \<in> set failures. event_family (ob_type r) \<noteq> Some ''latency''"
      using assms(2) by (auto simp: list_all_iff event_family_def)
    then have "family_rows (filter P failures) candidates ''latency'' = []"
      by (auto simp: family_rows_def filter_empty_conv)
    then have "family_rows (filter P (failures @ filter Q latest)) candidates ''latency'' = family_rows (filter P (filter Q latest)) candidates ''latency''"
      by (simp add: family_rows_def)
    then show ?thesis unfolding family_rows_def by (simp only: distinct_map_filter [OF assms(3)] distinct_map_filter)
  qed
  have metric: "distinct (map key_of (of_metric m latest))" for m
    unfolding of_metric_def by (rule distinct_map_filter [OF assms(3)])
  have types: "list_all (\<lambda>r. ob_type r \<noteq> ''THRESHOLD_BREACH'') (filter P failures)" for P
    using assms(2) by (auto simp: list_all_iff)
  show ?thesis
    unfolding poll_after_store_def materialize_steps Let_def
    by (intro if_any_inv [where P = "breach_inv uuid"] roots_of_inv [where P = "breach_inv uuid"] thresholds_inv collection_inv availability_inv recoveries_inv
        distinct_map_filter injected_keys rows metric types assms(1, 3))
qed

lemma poll_inv:
  assumes "breach_inv uuid w" "list_all (\<lambda>r. ob_type r = ''COLLECTION_FAILURE'') failures" "distinct (map key_of latest)"
  shows "breach_inv uuid (poll_events uuid now env failures latest configured w)"
  using before_store_inv [OF assms(1)] after_store_inv [OF _ assms(2, 3)] by (simp add: poll_events_def Let_def)

type_synonym cycle = "instant \<times> cycle_env \<times> observation list \<times> observation list \<times> (string \<times> string) list"

definition run_cycles :: "(nat \<Rightarrow> string) \<Rightarrow> cycle list \<Rightarrow> world \<Rightarrow> world" where
  "run_cycles uuid cycles w =
     foldl (\<lambda>v (now, env, failures, latest, configured). poll_events uuid now env failures latest configured v) w cycles"

text \<open>The rows a cycle collects: failures of one type, at most one sample of a metric of an item.\<close>

definition collected :: "cycle \<Rightarrow> bool" where
  "collected c = (case c of (now, env, failures, latest, configured) \<Rightarrow>
     list_all (\<lambda>r. ob_type r = ''COLLECTION_FAILURE'') failures \<and> distinct (map key_of latest))"


subsection \<open>A second breach, an acknowledgement, several affected items\<close>

lemma no_children:
  "update_propagated_root_events [] (create_degraded_propagated_events uuid now [] w) = w"
proof -
  have "attach_rows [] = (\<lambda>e. e)" by (rule ext) (simp add: attach_rows_def)
  then show ?thesis
    by (simp add: update_propagated_root_events_def create_degraded_propagated_events_def degraded_propagated_rows_def
      upsert_events_def)
qed

lemma resolve_root: "resolve_correlation [] r = r\<lparr>ob_corr := ''ROOT'', ob_from := None, ob_root := Some (ob_ci r)\<rparr>"
  by (simp add: resolve_correlation_def)

lemma source_resolved: "source_matches (resolve_correlation c r) e = source_matches r e"
  by (simp add: source_matches_def resolve_fields split: option.split)

lemma single_update:
  assumes "distinct (map pe_id es)" "e \<in> set es"
  shows "map (\<lambda>x. if pe_id x = pe_id e then f x else x) es = map (\<lambda>x. if x = e then f x else x) es"
  using assms by (auto simp: distinct_map intro!: map_cong dest: inj_onD)




subsection \<open>A failed store\<close>

definition collection_type :: "poll_event \<Rightarrow> bool" where
  "collection_type e = (pe_type e = None \<or> pe_type e = Some ''COLLECTION_FAILURE'')"

text \<open>
  C36: When storing the samples fails, the cycle has written collection failures only: every event of
  another type is exactly as before, so no reachability or threshold event reports a sample that
  was not stored.
\<close>

theorem failed_store_writes_failures_only:
  assumes "ids_ok uuid w" "\<not> cy_stored_ok env"
  shows "filter (\<lambda>e. \<not> collection_type e) (w_events (poll_events uuid now env failures latest configured w)) =
    filter (\<lambda>e. \<not> collection_type e) (w_events w)"
proof -
  have "filter (\<lambda>e. \<not> collection_type e) (w_events (refresh_snmp_collection_failures uuid now [] rows w)) = filter (\<lambda>e. \<not> collection_type e) (w_events w)"
    if "\<forall>r \<in> set rows. ob_type r = ''COLLECTION_FAILURE''" for rows
  proof -
    have types: "ob_type r = ''COLLECTION_FAILURE''"
      if "r \<in> set (filter (\<lambda>_. True) (filter (\<lambda>r. \<not> propagated r) (map (resolve_correlation []) (dedupe_snmp_collection_failures rows))))" for r
      using that \<open>\<forall>r \<in> set rows. _\<close> subsetD [OF deduped_in] by (auto simp: resolve_fields)
    have none: "filter propagated (map (resolve_correlation []) rs) = []" for rs
      by (simp add: filter_empty_conv propagated_def resolve_root)
    show ?thesis
      unfolding refresh_snmp_collection_failures_def write_family_def Let_def none no_children
    proof (rule col.others_kept [OF assms(1)])
      show "collection_type e" if "find (collection_root_of r) (w_events w) = Some e" for r e
        using find_in [OF that] by (auto simp: collection_root_of_def collection_event_def collection_type_def)
    qed (use types in \<open>auto simp: reopen_def new_poll_event_def collection_type_def\<close>)
  qed
  then show ?thesis
    using assms(2) by (auto simp: poll_events_def poll_before_store_def materialize_steps if_any_def dest: family_types)
qed

subsection \<open>Two linked items blame each other\<close>

definition demo_uuid :: "nat \<Rightarrow> string" where
  "demo_uuid n = replicate n CHR ''e''"

lemma demo_uuid_inj: "inj demo_uuid"
  by (rule injI) (metis demo_uuid_def length_replicate)

definition linked_world :: world where
  "linked_world = \<lparr>w_items = [''switch'', ''router''], w_metrics = [(''cpu'', None), (''icmp_latency_ms'', None)], w_topology = linked, w_events = [], w_next = 1\<rparr>"

definition all_well :: cycle_env where
  "all_well = \<lparr>cy_rca = True, cy_links = True, cy_index_ok = True, cy_relations_ok = True, cy_stored_ok = True, cy_rebuild_ok = True\<rparr>"

definition both_failing :: "instant \<Rightarrow> cycle" where
  "both_failing now = (now, all_well, [failing ''switch'', failing ''router''], [], [])"

text \<open>The root event of an item and, once another is attached to it, that item and the comment.\<close>

definition pair_event :: "string \<Rightarrow> string \<Rightarrow> string list \<Rightarrow> poll_event" where
  "pair_event i c others =
     (new_poll_event 10 i (failing c)) \<lparr>pe_corr := Some ''ROOT'', pe_root := Some c, pe_avail := None, pe_affected := others, pe_count := length others,
        pe_comments := map (\<lambda>x. build_propagated_root_update_comment ((failing x)\<lparr>ob_root := Some c\<rparr>)) others\<rparr>"

definition pair_world :: "string list \<Rightarrow> string list \<Rightarrow> world" where
  "pair_world xs ys = linked_world\<lparr>w_events := [pair_event ''e'' ''switch'' xs, pair_event ''ee'' ''router'' ys], w_next := 3\<rparr>"

lemma pair_cycle_1: "poll_events demo_uuid 10 all_well [failing ''switch'', failing ''router''] [] [] linked_world = pair_world [] []"
  by code_simp

lemma pair_cycle_2: "poll_events demo_uuid t all_well [failing ''switch'', failing ''router''] [] [] (pair_world [] []) = pair_world [''router''] [''switch'']"
  by code_simp

lemma pair_cycle_3: "poll_events demo_uuid t all_well [failing ''switch'', failing ''router''] [] [] (pair_world [''router''] [''switch'']) = pair_world [''router''] [''switch'']"
  by code_simp


text \<open>Witnesses\<close>

definition over_breach :: poll_event where
  "over_breach = (new_poll_event 5 [] (synthetic_breach ''router'' icmp_latency_metric))\<lparr>pe_status := ''RECOVERED'', pe_recovered := Some 7\<rparr>"

definition quiet_world :: "poll_event list \<Rightarrow> world" where
  "quiet_world es = linked_world\<lparr>w_events := es\<rparr>"

lemma quiet_ids: "pe_id e = [] \<Longrightarrow> ids_ok demo_uuid (quiet_world [e])"
  by (simp add: ids_ok_def demo_uuid_inj quiet_world_def linked_world_def) (simp add: demo_uuid_def)

lemma start_ids: "ids_ok demo_uuid linked_world"
  by (simp add: ids_ok_def demo_uuid_inj linked_world_def)




theorem failed_store_writes_failures_only_witness:
  "filter (\<lambda>e. \<not> collection_type e) (w_events (poll_events demo_uuid 10 (all_well\<lparr>cy_stored_ok := False\<rparr>) [failing ''router'']
     [synthetic_breach ''router'' icmp_latency_metric] [] linked_world)) = []"
proof -
  have "\<not> cy_stored_ok (all_well\<lparr>cy_stored_ok := False\<rparr>)" by simp
  from failed_store_writes_failures_only [OF start_ids this] show ?thesis by (simp add: linked_world_def)
qed

end
