(* ===== verification/Icmp_Measurements.thy ===== *)
theory Icmp_Measurements
  imports Py_Values
begin

section \<open>Ping measurements (polling/icmp_measurements.py)\<close>

text \<open>
  Reading a latency out of the text of a ping, the telemetry samples derived from one
  measurement, the graded evaluation of a sample against its thresholds, and the test that keeps
  telemetry out of availability.
\<close>

definition sidecar_metric_ids :: "string list" where
  "sidecar_metric_ids = [''icmp_latency_ms'', ''icmp_jitter_ms'', ''packet_loss_pct'']"

record ping_measurement =
  pm_available :: bool
  pm_latency :: "pyfloat option"
  pm_raw :: "string option"
  pm_error :: "string option"

definition ping_result :: "bool \<Rightarrow> pyfloat option \<Rightarrow> ping_measurement" where
  "ping_result av lat = \<lparr>pm_available = av, pm_latency = lat, pm_raw = None, pm_error = None\<rparr>"

definition availability_value :: "ping_measurement \<Rightarrow> pyfloat" where
  "availability_value m = (if pm_available m then Fin 1 else Fin 0)"

subsection \<open>The three patterns\<close>

text \<open>
  Each pattern is matched at one position by a deterministic scanner: after the greedy digits a
  shorter match of them is never followed by what the pattern wants next, so backtracking cannot
  succeed where the greedy match fails.
\<close>

definition lit :: "string \<Rightarrow> string \<Rightarrow> string option" where
  "lit p s = (if lower (take (length p) s) = p then Some (drop (length p) s) else None)"

text \<open>\<open>\d+(?:\.\d+)?\<close>: the matched text and the rest.\<close>

definition scan_number :: "string \<Rightarrow> (string \<times> string) option" where
  "scan_number s =
     (let ds = takeWhile is_digit s; rest = dropWhile is_digit s in
      if ds = [] then None
      else case rest of
          c # rest' \<Rightarrow>
            (let fs = takeWhile is_digit rest' in
             if c = CHR ''.'' \<and> fs \<noteq> [] then Some (ds @ c # fs, dropWhile is_digit rest')
             else Some (ds, rest))
        | [] \<Rightarrow> Some (ds, rest))"

definition scan_ms :: "string \<Rightarrow> string option" where
  "scan_ms s = (case scan_number s of
       None \<Rightarrow> None
     | Some (n, rest) \<Rightarrow> map_option (\<lambda>_. n) (lit ''ms'' (lstrip rest)))"

text \<open>\<open>time\s*[=<]\s*N\s*ms\<close>; the flag says that the match contains \<open>time<\<close>.\<close>

definition time_at :: "string \<Rightarrow> (bool \<times> string) option" where
  "time_at s = (case lit ''time'' s of
       None \<Rightarrow> None
     | Some rest \<Rightarrow>
         (case lstrip rest of
            c # rest' \<Rightarrow>
              if c = CHR ''='' \<or> c = CHR ''<''
              then map_option (\<lambda>n. (starts_with ''<'' rest, n)) (scan_ms (lstrip rest'))
              else None
          | [] \<Rightarrow> None))"

text \<open>\<open>Average\s*=\s*N\s*ms\<close>\<close>

definition average_at :: "string \<Rightarrow> string option" where
  "average_at s = (case lit ''average'' s of
       None \<Rightarrow> None
     | Some rest \<Rightarrow>
         (case lit ''='' (lstrip rest) of None \<Rightarrow> None | Some rest' \<Rightarrow> scan_ms (lstrip rest')))"

text \<open>\<open>(?:round-trip|rtt)[^=]*=\s*N/(N)/\<close>\<close>

definition scan_slash :: "string \<Rightarrow> (string \<times> string) option" where
  "scan_slash s = (case scan_number s of
       None \<Rightarrow> None
     | Some (n, rest) \<Rightarrow> map_option (\<lambda>r. (n, r)) (lit ''/'' rest))"

definition rtt_at :: "string \<Rightarrow> string option" where
  "rtt_at s =
     (case (case lit ''round-trip'' s of Some r \<Rightarrow> Some r | None \<Rightarrow> lit ''rtt'' s) of
        None \<Rightarrow> None
      | Some rest \<Rightarrow>
          (case lit ''='' (dropWhile (\<lambda>c. c \<noteq> CHR ''='') rest) of
             None \<Rightarrow> None
           | Some r1 \<Rightarrow>
               (case scan_slash (lstrip r1) of
                  None \<Rightarrow> None
                | Some (_, r2) \<Rightarrow> map_option fst (scan_slash r2))))"

text \<open>\<open>regex.search\<close>: the first position at which the pattern matches.\<close>

fun search :: "(string \<Rightarrow> 'a option) \<Rightarrow> string \<Rightarrow> 'a option" where
  "search m [] = m []"
| "search m (c # s) = (case m (c # s) of Some x \<Rightarrow> Some x | None \<Rightarrow> search m s)"

definition number_value :: "string \<Rightarrow> rat" where
  "number_value s = (case parse_mantissa s of Some r \<Rightarrow> r | None \<Rightarrow> 0)"

definition halved :: "rat \<Rightarrow> rat" where
  "halved v = (if v \<le> 1 then 1 / 2 else v / 2)"

definition parse_ping_latency_ms :: "string option \<Rightarrow> rat option" where
  "parse_ping_latency_ms output =
     (case output of
        None \<Rightarrow> None
      | Some text \<Rightarrow>
          if text = [] then None
          else case search time_at text of
              Some (half, n) \<Rightarrow> Some (if half then halved (number_value n) else number_value n)
            | None \<Rightarrow>
                (case search average_at text of
                   Some n \<Rightarrow> Some (number_value n)
                 | None \<Rightarrow> map_option number_value (search rtt_at text)))"

subsection \<open>Measurements and samples\<close>

text \<open>The raw value of a ping fetcher: a measurement, a tuple, or any other value.\<close>

datatype ping_raw = Measured ping_measurement | Tuple "pyval list" | Other pyval

definition coerce_ping_measurement :: "ping_raw \<Rightarrow> ping_measurement result" where
  "coerce_ping_measurement raw =
     (case raw of
        Measured m \<Rightarrow> Inr m
      | Tuple (a # b # _) \<Rightarrow>
          if b = PNone then Inr (ping_result (truthy a) None)
          else bindR (py_float b) (\<lambda>l. Inr (ping_result (truthy a) (Some l)))
      | Tuple [] \<Rightarrow> Inr (ping_result False None)
      | Tuple [_] \<Rightarrow> Inl (TypeError ''float() argument'')
      | Other v \<Rightarrow> bindR (py_float (por v (PFloat (Fin 0)))) (\<lambda>x. Inr (ping_result (f_gt x (Fin 0)) None)))"

definition sample :: "string \<Rightarrow> string \<Rightarrow> pyfloat \<Rightarrow> pydict" where
  "sample node m v = [(''node_id'', PStr node), (''metric_id'', PStr m), (''value'', PFloat v)]"

definition stamp_sample :: "pyval \<Rightarrow> pydict \<Rightarrow> pydict" where
  "stamp_sample observed s = (if observed = PNone then s else put ''time'' observed s)"

definition build_icmp_sidecar_samples ::
    "string \<Rightarrow> ping_measurement \<Rightarrow> pyfloat option \<Rightarrow> pyval \<Rightarrow> pydict list" where
  "build_icmp_sidecar_samples node m previous observed =
     (let loss = sample node ''packet_loss_pct'' (if pm_available m then Fin 0 else Fin 100)
      in map (stamp_sample observed)
          (case (pm_available m, pm_latency m) of
             (True, Some l) \<Rightarrow>
               [sample node ''icmp_latency_ms'' l] @
               (case previous of None \<Rightarrow> []
                | Some p \<Rightarrow> [sample node ''icmp_jitter_ms'' (f_absdiff l p)]) @
               [loss]
           | _ \<Rightarrow> [loss]))"

definition icmp_metadata :: "ping_measurement \<Rightarrow> pydict" where
  "icmp_metadata m =
     (''sidecar_metric_ids'', PList (map PStr sidecar_metric_ids)) #
     (case (pm_available m, pm_latency m) of
        (True, Some l) \<Rightarrow> [(''latency_ms'', PFloat l)]
      | _ \<Rightarrow> [])"

definition threshold_metadata :: "pyfloat \<Rightarrow> pyfloat \<Rightarrow> int \<Rightarrow> string \<Rightarrow> pydict" where
  "threshold_metadata warn crit criticality label =
     [(''warning'', PFloat warn), (''critical'', PFloat crit), (''operator'', PStr ''>=''),
      (''criticality'', PInt criticality), (''metric_kind'', PStr ''telemetry''),
      (''name'', PStr label)]"

definition latency_threshold_metadata :: "pyfloat \<Rightarrow> pyfloat \<Rightarrow> pydict" where
  "latency_threshold_metadata warn crit = threshold_metadata warn crit 3 ''ICMP Latency''"

definition jitter_threshold_metadata :: "pyfloat \<Rightarrow> pyfloat \<Rightarrow> pydict" where
  "jitter_threshold_metadata warn crit = threshold_metadata warn crit 2 ''ICMP Jitter''"

definition packet_loss_threshold_metadata :: "pyfloat \<Rightarrow> pyfloat \<Rightarrow> pydict" where
  "packet_loss_threshold_metadata warn crit = threshold_metadata warn crit 3 ''ICMP Packet Loss''"

subsection \<open>Graded evaluation\<close>

definition evaluate_latency_status :: "pyfloat option \<Rightarrow> pyfloat \<Rightarrow> pyfloat \<Rightarrow> string" where
  "evaluate_latency_status latency warn crit =
     (case latency of
        None \<Rightarrow> ''CRITICAL''
      | Some x \<Rightarrow> if f_ge x crit then ''CRITICAL'' else if f_ge x warn then ''WARNING'' else ''OK'')"

definition evaluate_jitter_status :: "pyfloat option \<Rightarrow> pyfloat \<Rightarrow> pyfloat \<Rightarrow> string" where
  "evaluate_jitter_status jitter warn crit =
     (case jitter of
        None \<Rightarrow> ''CRITICAL''
      | Some x \<Rightarrow> if f_ge x crit then ''CRITICAL'' else if f_ge x warn then ''WARNING'' else ''OK'')"

definition evaluate_packet_loss_status :: "pyfloat option \<Rightarrow> pyfloat \<Rightarrow> pyfloat \<Rightarrow> string" where
  "evaluate_packet_loss_status pct warn crit =
     (case pct of
        None \<Rightarrow> ''CRITICAL''
      | Some x \<Rightarrow> if f_ge x crit then ''CRITICAL'' else if f_ge x warn then ''WARNING'' else ''OK'')"

text \<open>Severity of a status, for stating that a worse sample is never graded better.\<close>

definition status_rank :: "string \<Rightarrow> nat" where
  "status_rank s = (if s = ''OK'' then 0 else if s = ''WARNING'' then 1 else 2)"

text \<open>
  What the callers of the three evaluators rely on: missing data is critical, a sample at or
  over the critical threshold is critical, one at or over the warning threshold only is a
  warning.
\<close>

locale graded =
  fixes grade :: "pyfloat option \<Rightarrow> pyfloat \<Rightarrow> pyfloat \<Rightarrow> string"
  assumes missing: "grade None w c = ''CRITICAL''"
    and critical: "f_le c x \<Longrightarrow> grade (Some x) w c = ''CRITICAL''"
    and warning: "\<not> f_le c x \<Longrightarrow> f_le w x \<Longrightarrow> grade (Some x) w c = ''WARNING''"
    and fine: "\<not> f_le c x \<Longrightarrow> \<not> f_le w x \<Longrightarrow> grade (Some x) w c = ''OK''"
begin

lemma grade_total: "grade v w c \<in> {''OK'', ''WARNING'', ''CRITICAL''}"
proof (cases v)
  case (Some x)
  then show ?thesis
    by (cases "f_le c x"; cases "f_le w x") (simp_all add: critical warning fine)
qed (simp add: missing)

lemma grade_mono:
  "f_le x y \<Longrightarrow> status_rank (grade (Some x) w c) \<le> status_rank (grade (Some y) w c)"
  by (cases "f_le c x"; cases "f_le c y"; cases "f_le w x"; cases "f_le w y")
    (auto simp: critical warning fine status_rank_def dest: f_le_trans)

lemma grade_ok_iff:
  "grade v w c = ''OK'' \<longleftrightarrow> (\<exists>x. v = Some x \<and> \<not> f_le c x \<and> \<not> f_le w x)"
proof (cases v)
  case (Some x)
  then show ?thesis
    by (cases "f_le c x"; cases "f_le w x") (simp_all add: critical warning fine)
qed (simp add: missing)

end

interpretation latency_grade: graded evaluate_latency_status
  by unfold_locales (simp_all add: evaluate_latency_status_def)

interpretation jitter_grade: graded evaluate_jitter_status
  by unfold_locales (simp_all add: evaluate_jitter_status_def)

interpretation loss_grade: graded evaluate_packet_loss_status
  by unfold_locales (simp_all add: evaluate_packet_loss_status_def)

subsection \<open>Telemetry and availability\<close>

definition meta_kind :: "pydict option \<Rightarrow> string \<Rightarrow> bool" where
  "meta_kind metadata kind =
     (case metadata of None \<Rightarrow> False | Some d \<Rightarrow> d \<noteq> [] \<and> get d ''metric_kind'' = PStr kind)"

definition is_icmp_telemetry_metric :: "string \<Rightarrow> pydict option \<Rightarrow> bool" where
  "is_icmp_telemetry_metric m metadata =
     (m \<in> set sidecar_metric_ids \<or> meta_kind metadata ''telemetry'')"

definition is_icmp_availability_metric :: "string \<Rightarrow> pydict option \<Rightarrow> bool" where
  "is_icmp_availability_metric m metadata =
     (if is_icmp_telemetry_metric m metadata then False
      else if meta_kind metadata ''availability'' then True
      else m = ''icmp_availability'' \<or> m = ''PING-CHECK'' \<or> starts_with ''PING-'' m)"

lemma sample_metric: "get (stamp_sample observed (sample node i v)) ''metric_id'' = PStr i"
  by (simp add: stamp_sample_def sample_def get_put del: AList.update.simps)

subsection \<open>Reading a latency\<close>

lemma lit_mismatch: "lower_char c \<noteq> hd p \<Longrightarrow> p \<noteq> [] \<Longrightarrow> lit p (c # s) = None"
  by (cases p) (auto simp: lit_def)

lemma lit_hit: "lower p = p \<Longrightarrow> lit p (p @ s) = Some s"
  by (simp add: lit_def)

lemma search_skip:
  "(\<And>c u. c \<in> set pre \<Longrightarrow> m (c # u) = None) \<Longrightarrow> search m (pre @ s) = search m s"
  by (induction pre) auto

lemma search_here: "m s = Some x \<Longrightarrow> search m s = Some x"
  by (cases s) auto

lemma lstrip_solid: "s \<noteq> [] \<Longrightarrow> \<not> is_space (hd s) \<Longrightarrow> lstrip s = s"
  by (cases s) (auto simp: lstrip_def)

lemma digit_not_space: "is_digit c \<Longrightarrow> \<not> is_space c"
  by (auto simp: is_digit_def is_space_def Let_def)

lemma lstrip_show: "lstrip (show_nat n @ s) = show_nat n @ s"
  using show_nat_digits [of n] digit_not_space hd_in_set [OF show_nat_nonempty]
  by (intro lstrip_solid) auto

lemma scan_number_show:
  "\<not> is_digit c \<Longrightarrow> c \<noteq> CHR ''.'' \<Longrightarrow>
     scan_number (show_nat n @ c # s) = Some (show_nat n, c # s)"
  by (simp add: scan_number_def takeWhile_show Let_def)

lemma scan_ms_show: "scan_ms (show_nat n @ '' ms'' @ post) = Some (show_nat n)"
proof -
  have "lstrip ('' ms'' @ post) = ''ms'' @ post"
    by (simp add: lstrip_def is_space_def)
  moreover have "lit ''ms'' (''ms'' @ post) = Some post"
    by (rule lit_hit) (simp add: lower_char_def is_upper_def)
  ultimately show ?thesis
    using scan_number_show [of "CHR '' ''" n "''ms'' @ post"]
    by (simp add: scan_ms_def is_digit_def)
qed

lemma time_at_show:
  assumes "c = CHR ''='' \<or> c = CHR ''<''"
  shows "time_at (''time'' @ c # show_nat n @ '' ms'' @ post) = Some (c = CHR ''<'', show_nat n)"
proof -
  let ?s = "c # show_nat n @ '' ms'' @ post"
  have "lit ''time'' (''time'' @ ?s) = Some ?s"
    by (rule lit_hit) (simp add: lower_char_def is_upper_def)
  moreover have "lstrip ?s = ?s"
    using assms by (intro lstrip_solid) (auto simp: is_space_def)
  ultimately show ?thesis
    using assms scan_ms_show [of n post]
    by (auto simp: time_at_def lstrip_show starts_with_def)
qed

subsection \<open>Properties\<close>

text \<open>
  the samples derived from a measurement are the packet loss, preceded by the latency when
  the target answered with one and by the jitter when an earlier latency is known too; whatever
  metadata comes with them they are telemetry and never availability.
\<close>

theorem sidecar_samples_are_telemetry:
  "map (\<lambda>s. get s ''metric_id'') (build_icmp_sidecar_samples node m previous observed) =
     map PStr
      (if pm_available m \<and> pm_latency m \<noteq> None
       then ''icmp_latency_ms'' # (if previous = None then [] else [''icmp_jitter_ms'']) @
            [''packet_loss_pct'']
       else [''packet_loss_pct'']) \<and>
   list_all (\<lambda>s. \<exists>i. get s ''metric_id'' = PStr i \<and> is_icmp_telemetry_metric i meta \<and>
                  \<not> is_icmp_availability_metric i meta)
     (build_icmp_sidecar_samples node m previous observed)"
  by (cases "pm_available m"; cases "pm_latency m"; cases previous)
    (simp_all add: build_icmp_sidecar_samples_def sample_metric Let_def
      is_icmp_telemetry_metric_def is_icmp_availability_metric_def sidecar_metric_ids_def)

text \<open>
  the three evaluators grade a missing sample as critical, answer \<open>OK\<close> exactly for a
  present sample that reaches neither threshold, and never grade a larger sample better.
\<close>

theorem graded_evaluation:
  assumes "f_le x y" and "ev \<in> {evaluate_latency_status, evaluate_jitter_status, evaluate_packet_loss_status}"
  shows "ev None w c = ''CRITICAL'' \<and>
    status_rank (ev (Some x) w c) \<le> status_rank (ev (Some y) w c) \<and>
    (ev v w c = ''OK'' \<longleftrightarrow> (\<exists>z. v = Some z \<and> \<not> f_le c z \<and> \<not> f_le w z))"
  using assms latency_grade.missing latency_grade.grade_mono latency_grade.grade_ok_iff
    jitter_grade.missing jitter_grade.grade_mono jitter_grade.grade_ok_iff
    loss_grade.missing loss_grade.grade_mono loss_grade.grade_ok_iff
  by (elim insertE) simp_all

theorem graded_evaluation_witness:
  "evaluate_jitter_status None (Fin 10) (Fin 20) = ''CRITICAL'' \<and>
   status_rank (evaluate_jitter_status (Some (Fin 5)) (Fin 10) (Fin 20))
     \<le> status_rank (evaluate_jitter_status (Some PosInf) (Fin 10) (Fin 20))"
  using graded_evaluation [of "Fin 5" PosInf evaluate_jitter_status "Fin 10" "Fin 20" None] by simp

text \<open>
  in a ping output whose first \<open>t\<close> begins \<open>time=N ms\<close>, the latency read is \<open>N\<close>; for
  \<open>time<N ms\<close> it is half of \<open>N\<close>, and a half millisecond for \<open>N\<close> at most one.
\<close>

theorem ping_latency_read:
  assumes "\<forall>c \<in> set pre. lower_char c \<noteq> CHR ''t''"
  shows "parse_ping_latency_ms (Some (pre @ ''time='' @ show_nat n @ '' ms'' @ post)) = Some (of_nat n) \<and>
    parse_ping_latency_ms (Some (pre @ ''time<'' @ show_nat n @ '' ms'' @ post)) =
      Some (if n \<le> 1 then 1 / 2 else of_nat n / 2)"
proof -
  have miss: "time_at (c # u) = None" if "c \<in> set pre" for c u
    using lit_mismatch [of c "''time''"] assms that by (simp add: time_at_def)
  have "search time_at (pre @ ''time'' @ c # show_nat n @ '' ms'' @ post) = Some (c = CHR ''<'', show_nat n)"
    if "c = CHR ''='' \<or> c = CHR ''<''" for c
  proof -
    have "search time_at (pre @ s) = search time_at s" for s
      by (rule search_skip) (rule miss)
    then show ?thesis
      using search_here [of time_at, OF time_at_show [OF that]] by simp
  qed
  note found = this [of "CHR ''=''"] this [of "CHR ''<''"]
  have "number_value (show_nat n) = of_nat n" by (simp add: number_value_def)
  then show ?thesis
    using found by (simp add: parse_ping_latency_ms_def halved_def of_nat_le_1_iff)
qed

theorem ping_latency_read_witness:
  "parse_ping_latency_ms (Some ''64 bys: time<12 ms'') = Some 6"
proof -
  have "\<forall>c \<in> set ''64 bys: ''. lower_char c \<noteq> CHR ''t''" "show_nat 12 = ''12''"
    by code_simp+
  with ping_latency_read [of "''64 bys: ''" 12 "[]"] show ?thesis by simp
qed

end
