(* ===== verification/Event_Rows.thy ===== *)
theory Event_Rows
  imports Icmp_Measurements
begin

section \<open>From result envelopes to event rows\<close>

text \<open>
  \<open>services/polling_event_lifecycle.py\<close> and the pure half of \<open>polling/event_writer.py\<close>: one row
  per result envelope, classified as a breach, a recovery or neither, and the three passes that
  thin a batch of rows out before it is written.
\<close>

subsection \<open>Lifecycle helpers\<close>

definition normalized_protocol :: "runtime \<Rightarrow> pyval \<Rightarrow> string" where
  "normalized_protocol rt v = upper (text_of rt (por v (PStr [])))"

definition no_response_statuses :: "string list" where
  "no_response_statuses = [''NO_DATA'', ''TIMEOUT'']"

definition no_response_codes :: "string list" where
  "no_response_codes = [''NO_DATA'', ''NO_RESPONSE'', ''TIMEOUT'', ''TIMED_OUT'', ''REQUEST_TIMEOUT'']"

definition no_response_markers :: "string list" where
  "no_response_markers = [''no snmp response'', ''no response'', ''timed out'', ''timeout'',
     ''returned no data'', ''no data'']"

definition is_snmp_no_response_failure :: "runtime \<Rightarrow> pyval \<Rightarrow> pyval \<Rightarrow> pydict \<Rightarrow> bool" where
  "is_snmp_no_response_failure rt protocol status err =
     (if normalized_protocol rt protocol \<noteq> ''SNMP'' then False
      else let st = upper (text_of rt (por status (PStr []))) in
        if st \<in> set no_response_statuses then True
        else if st \<noteq> ''ERROR'' then False
        else if upper (text_of rt (por (get err ''code'') (PStr []))) \<in> set no_response_codes then True
        else list_ex (\<lambda>m. contains m (lower (text_of rt (por (get err ''message'') (PStr []))))) no_response_markers)"

definition failure_prefix :: string where
  "failure_prefix = ''Metric Collection Failed:''"

definition collection_failure_message :: "runtime \<Rightarrow> pydict \<Rightarrow> pyval \<Rightarrow> string" where
  "collection_failure_message rt err status =
     (let reason = (if err = [] then PNone else get err ''message'');
          text = por reason (PStr (text_of rt (por status (PStr ''No SNMP response received before timeout''))))
      in failure_prefix @ '' '' @ text_of rt text)"

subsection \<open>Rows\<close>

definition num :: "pydict \<Rightarrow> pyfloat option result" where
  "num envelope =
     bindR (sub_dict envelope ''value'') (\<lambda>v.
       Inr (if get v ''numeric'' = PNone then None
            else case py_float (get v ''numeric'') of Inl _ \<Rightarrow> None | Inr x \<Rightarrow> Some x))"

definition check_threshold :: "pyfloat \<Rightarrow> pyfloat \<Rightarrow> string \<Rightarrow> bool" where
  "check_threshold l r op =
     (if op = ''<='' then f_le l r
      else if op = ''=='' then f_eq l r
      else if op = ''!='' then \<not> f_eq l r
      else f_ge l r)"

definition base_severity :: "pydict \<Rightarrow> string result" where
  "base_severity metadata =
     bindR (py_int (por (get metadata ''criticality'') (PInt 1))) (\<lambda>c.
       Inr (if c = 2 then ''WARNING'' else if c = 3 then ''CRITICAL'' else ''INFO''))"

definition availability_source :: "runtime \<Rightarrow> pydict \<Rightarrow> string option" where
  "availability_source rt metadata =
     (let s = upper (strip (text_of rt (por (get metadata ''availability_source'') (PStr []))))
      in if s = ''PING'' \<or> s = ''ICMP'' then Some s else None)"

record event_row =
  er_key :: pyval
  er_ci :: pyval
  er_metric :: string
  er_value :: string
  er_status :: string
  er_severity :: string
  er_message :: string
  er_breach :: bool
  er_type :: "string option"
  er_family :: "string option"
  er_protocol :: "string option"
  er_avail :: "string option"
  er_recover_cf :: bool
  er_recover :: bool
  er_recovery_message :: string
  er_observed :: pyval
  er_corr :: pyval
  er_propagated :: pyval
  er_root_event :: pyval
  er_root_ci :: pyval
  er_context :: pydict

text \<open>The verdict on one envelope.\<close>

record verdict =
  v_severity :: string
  v_breach :: bool
  v_type :: "string option"
  v_family :: "string option"
  v_protocol :: "string option"
  v_message :: string

definition quiet :: "string \<Rightarrow> string \<Rightarrow> string \<Rightarrow> verdict" where
  "quiet protocol name shown = \<lparr>v_severity = ''INFO'', v_breach = False, v_type = None, v_family = None,
     v_protocol = (if protocol = [] then None else Some protocol),
     v_message = ''Metric '' @ name @ '' is OK. Value: '' @ shown\<rparr>"

definition breach :: "string \<Rightarrow> string \<Rightarrow> string \<Rightarrow> verdict \<Rightarrow> verdict" where
  "breach severity kind message v =
     v\<lparr>v_severity := severity, v_breach := True, v_type := Some kind, v_message := message\<rparr>"

text \<open>\<open>metadata.get(name) is not None and _check(numeric, float(metadata[name]), op)\<close>\<close>

definition crosses :: "pydict \<Rightarrow> string \<Rightarrow> pyfloat \<Rightarrow> string \<Rightarrow> bool result" where
  "crosses metadata name x op =
     (if get metadata name = PNone then Inr False
      else bindR (py_float (get metadata name)) (\<lambda>th. Inr (check_threshold x th op)))"

definition threshold_verdict ::
    "runtime \<Rightarrow> pydict \<Rightarrow> pyfloat \<Rightarrow> string \<Rightarrow> verdict \<Rightarrow> verdict result" where
  "threshold_verdict rt metadata x shown v =
     (let op = text_of rt (por (get metadata ''operator'') (PStr ''>=''));
          text = (\<lambda>label name. label @ '' Threshold Breached: '' @ shown @ '' '' @ op @ '' '' @
                    text_of rt (get metadata name))
      in bindR (crosses metadata ''critical'' x op) (\<lambda>crit.
         if crit then Inr (breach ''CRITICAL'' ''THRESHOLD_BREACH'' (text ''Critical'' ''critical'') v)
         else bindR (crosses metadata ''warning'' x op) (\<lambda>warn.
           Inr (if warn then breach ''WARNING'' ''THRESHOLD_BREACH'' (text ''Warning'' ''warning'') v
                else v))))"

definition graded_statuses :: "string list" where
  "graded_statuses = [''OK'', ''WARNING'', ''CRITICAL'']"

definition envelope_verdict ::
    "runtime \<Rightarrow> string \<Rightarrow> string \<Rightarrow> pydict \<Rightarrow> pydict \<Rightarrow> string \<Rightarrow> pyfloat option \<Rightarrow> string \<Rightarrow> verdict result" where
  "envelope_verdict rt protocol st err metadata name numeric shown =
     (let v = quiet protocol name shown in
      if is_snmp_no_response_failure rt (PStr protocol) (PStr st) err
      then Inr ((breach ''WARNING'' ''COLLECTION_FAILURE'' (collection_failure_message rt err (PStr st)) v)
                 \<lparr>v_family := Some ''SNMP_NO_RESPONSE'', v_protocol := Some ''SNMP''\<rparr>)
      else if st \<notin> set graded_statuses
      then bindR (base_severity metadata) (\<lambda>sev.
             Inr (breach sev ''COLLECTION_FAILURE'' (collection_failure_message rt err (PStr st)) v))
      else case numeric of
          None \<Rightarrow> Inr v
        | Some x \<Rightarrow>
            if protocol = ''ICMP'' \<and> availability_source rt metadata \<noteq> None
            then (if f_eq x (Fin 0)
                  then bindR (base_severity metadata) (\<lambda>sev.
                         Inr (breach sev ''AVAILABILITY'' (''Service/Host Down: '' @ name) v))
                  else Inr v)
            else threshold_verdict rt metadata x shown v)"

definition context_keys :: "string list" where
  "context_keys = [''business_service_id'', ''business_service_name'', ''business_service_tier'',
     ''owner_t1'', ''owner_t2'', ''owner_t3'', ''impacted_users'', ''site'', ''service_catalog_id'',
     ''service_category'', ''service_tier'', ''sla_minutes'']"

definition row_context :: "pydict \<Rightarrow> pydict" where
  "row_context metadata =
     map (\<lambda>k. (k, if k = ''site'' then por (get metadata ''site'') (get metadata ''site_id'')
                   else get metadata k)) context_keys"

text \<open>The error entry is looked into only when the status is not one of the graded ones.\<close>

definition envelope_error :: "string \<Rightarrow> pydict \<Rightarrow> pydict result" where
  "envelope_error st env = (if st \<in> set graded_statuses then Inr [] else sub_dict env ''error'')"

definition event_row_of :: "runtime \<Rightarrow> pydict \<Rightarrow> event_row result" where
  "event_row_of rt env =
     bindR (sub_dict env ''metadata'') (\<lambda>metadata.
     bindR (num env) (\<lambda>numeric.
       let protocol = normalized_protocol rt (get env ''protocol'');
           metric = text_of rt (get env ''metric_id'');
           name = text_of rt (por (get metadata ''name'') (PStr metric));
           st = text_of rt (por (get env ''status'') (PStr ''OK''));
           shown = (case numeric of None \<Rightarrow> ''N/A'' | Some x \<Rightarrow> text_of rt (PFloat x))
       in bindR (envelope_error st env) (\<lambda>err.
          bindR (envelope_verdict rt protocol st err metadata name numeric shown) (\<lambda>v.
         Inr \<lparr>er_key = get env ''idempotency_key'', er_ci = get env ''ci_id'', er_metric = metric,
              er_value = shown, er_status = (if v_breach v then v_severity v else ''OK''),
              er_severity = v_severity v, er_message = v_message v, er_breach = v_breach v,
              er_type = v_type v, er_family = v_family v, er_protocol = v_protocol v,
              er_avail = availability_source rt metadata, er_recover_cf = (numeric \<noteq> None),
              er_recover = (numeric \<noteq> None \<and> \<not> v_breach v),
              er_recovery_message = ''Metric collection recovered. Value: '' @ shown,
              er_observed = (case get env ''observed_at'' of PTime t \<Rightarrow> PStr (rt_iso rt t) | o' \<Rightarrow> o'),
              er_corr = por (get metadata ''correlation_type'') (PStr ''ROOT''),
              er_propagated = get metadata ''propagated_from'',
              er_root_event = get metadata ''root_cause_event_id'',
              er_root_ci = por (get metadata ''root_cause_ci_id'') (get env ''ci_id''),
              er_context = row_context metadata\<rparr>))))"

fun build_event_rows :: "runtime \<Rightarrow> pydict list \<Rightarrow> event_row list result" where
  "build_event_rows rt [] = Inr []"
| "build_event_rows rt (env # envs) =
     bindR (event_row_of rt env) (\<lambda>r. bindR (build_event_rows rt envs) (\<lambda>rs. Inr (r # rs)))"

subsection \<open>Thinning out a batch\<close>

text \<open>
  The dictionary loops of the module: an element with a key replaces the one held under the key
  when it beats it.
\<close>

definition keep_best :: "('a \<Rightarrow> 'k option) \<Rightarrow> ('a \<Rightarrow> 'a \<Rightarrow> bool) \<Rightarrow> 'a \<Rightarrow> ('k \<times> 'a) list \<Rightarrow> ('k \<times> 'a) list" where
  "keep_best key beats x d =
     (case key x of
        None \<Rightarrow> d
      | Some k \<Rightarrow>
          (case map_of d k of
             None \<Rightarrow> AList.update k x d
           | Some y \<Rightarrow> if beats x y then AList.update k x d else d))"

locale latest_wins =
  fixes key :: "'a \<Rightarrow> 'k option" and beats :: "'a \<Rightarrow> 'a \<Rightarrow> bool" and rank :: "'a \<Rightarrow> 'r::linorder"
  assumes beats_rank: "beats x y \<longleftrightarrow> rank y \<le> rank x"
begin

definition kept :: "'a list \<Rightarrow> ('k \<times> 'a) list" where
  "kept xs = fold (keep_best key beats) xs []"

lemma kept_snoc: "kept (xs @ [z]) = keep_best key beats z (kept xs)"
  by (simp add: kept_def)

lemma kept_distinct: "distinct (map fst (kept xs))"
proof (induction xs rule: rev_induct)
  case Nil
  then show ?case by (simp add: kept_def)
next
  case (snoc z xs)
  then show ?case
    by (simp add: kept_snoc keep_best_def distinct_update split: option.split)
qed

lemma kept_None: "map_of (kept xs) k = None \<longleftrightarrow> (\<forall>x \<in> set xs. key x \<noteq> Some k)"
proof (induction xs rule: rev_induct)
  case Nil
  then show ?case by (simp add: kept_def)
next
  case (snoc z xs)
  then show ?case
    by (auto simp: kept_snoc keep_best_def map_of_update split: option.splits if_splits)
qed

text \<open>The element kept under a key is the last of the best ones with that key.\<close>

definition last_best :: "'k \<Rightarrow> 'a list \<Rightarrow> 'a \<Rightarrow> bool" where
  "last_best k xs x \<longleftrightarrow> key x = Some k \<and> (\<exists>pre post. xs = pre @ x # post \<and>
     (\<forall>y \<in> set pre. key y = Some k \<longrightarrow> rank y \<le> rank x) \<and>
     (\<forall>y \<in> set post. key y = Some k \<longrightarrow> rank y < rank x))"

lemma last_best_snoc_other:
  "last_best k xs x \<Longrightarrow> key z = Some k \<longrightarrow> rank z < rank x \<Longrightarrow> last_best k (xs @ [z]) x"
  unfolding last_best_def by fastforce

lemma last_best_snoc:
  "key z = Some k \<Longrightarrow> (\<And>y. y \<in> set xs \<Longrightarrow> key y = Some k \<Longrightarrow> rank y \<le> rank z) \<Longrightarrow>
     last_best k (xs @ [z]) z"
  unfolding last_best_def by (intro conjI exI [of _ xs] exI [of _ "[]"]) auto

lemma last_best_max: "last_best k xs x \<Longrightarrow> y \<in> set xs \<Longrightarrow> key y = Some k \<Longrightarrow> rank y \<le> rank x"
  unfolding last_best_def by (auto simp: less_le)

lemma kept_Some: "map_of (kept xs) k = Some x \<Longrightarrow> last_best k xs x"
proof (induction xs arbitrary: x rule: rev_induct)
  case Nil
  then show ?case by (simp add: kept_def)
next
  case (snoc z xs)
  show ?case
  proof (cases "key z = Some k")
    case False
    then have "map_of (kept xs) k = Some x"
      using snoc.prems
      by (auto simp: kept_snoc keep_best_def map_of_update split: option.splits if_splits)
    with False snoc.IH last_best_snoc_other show ?thesis by blast
  next
    case True
    show ?thesis
    proof (cases "map_of (kept xs) k")
      case None
      with True snoc.prems have "x = z"
        by (simp add: kept_snoc keep_best_def map_of_update)
      with True None last_best_snoc show ?thesis by (metis kept_None)
    next
      case (Some y)
      then have y: "last_best k xs y" by (rule snoc.IH)
      show ?thesis
      proof (cases "rank y \<le> rank z")
        case True
        with \<open>key z = Some k\<close> Some snoc.prems have "x = z"
          using beats_rank [of z y] by (simp add: kept_snoc keep_best_def map_of_update)
        with \<open>key z = Some k\<close> True last_best_max [OF y] show ?thesis
          by (metis last_best_snoc order_trans)
      next
        case False
        with \<open>key z = Some k\<close> Some snoc.prems have "x = y"
          using beats_rank [of z y] by (simp add: kept_snoc keep_best_def)
        with False y show ?thesis by (auto intro: last_best_snoc_other)
      qed
    qed
  qed
qed

lemma kept_member: "x \<in> snd ` set (kept xs) \<Longrightarrow> x \<in> set xs"
  using kept_Some by (force simp: last_best_def dest!: map_of_is_SomeI [OF kept_distinct])

end

type_synonym failure_key = "pyval \<times> string \<times> string option \<times> string option"

definition failure_key :: "event_row \<Rightarrow> failure_key option" where
  "failure_key r =
     (if er_breach r \<and> er_type r = Some ''COLLECTION_FAILURE''
      then Some (er_ci r, er_metric r, er_type r, er_family r) else None)"

definition collection_failure_event_rows :: "event_row list \<Rightarrow> event_row list" where
  "collection_failure_event_rows rows =
     map snd (fold (keep_best failure_key (\<lambda>_ _. True)) rows [])"

text \<open>\<open>value.replace("Z", "+00:00")\<close>\<close>

definition zulu_offset :: "string \<Rightarrow> string" where
  "zulu_offset s = concat (map (\<lambda>c. if c = CHR ''Z'' then ''+00:00'' else [c]) s)"

definition observed_at_order :: "runtime \<Rightarrow> pyval \<Rightarrow> instant option" where
  "observed_at_order rt v =
     (case v of
        PTime t \<Rightarrow> Some t
      | PStr s \<Rightarrow> if strip s = [] then None else rt_parse_iso rt (zulu_offset s)
      | _ \<Rightarrow> None)"

definition target_event_type :: "event_row \<Rightarrow> string option" where
  "target_event_type r =
     (if er_type r \<noteq> None \<and> er_type r \<noteq> Some [] \<and> er_type r \<noteq> Some ''COLLECTION_FAILURE'' then er_type r
      else if \<not> er_recover r then None
      else if er_protocol r = Some ''ICMP'' \<and> (er_avail r = Some ''PING'' \<or> er_avail r = Some ''ICMP'')
      then Some ''AVAILABILITY''
      else Some ''THRESHOLD_BREACH'')"

type_synonym state_key = "pyval \<times> string \<times> string \<times> pyval \<times> pyval \<times> pyval \<times> pyval"

definition state_key :: "event_row \<Rightarrow> state_key option" where
  "state_key r = map_option (\<lambda>t. (er_ci r, er_metric r, t, por (er_corr r) (PStr ''ROOT''),
       er_propagated r, er_root_event r, er_root_ci r)) (target_event_type r)"

text \<open>Rows with their position; the order of two rows with one key.\<close>

definition state_order :: "runtime \<Rightarrow> nat \<times> event_row \<Rightarrow> bool \<times> int \<times> nat" where
  "state_order rt x =
     (let o' = observed_at_order rt (er_observed (snd x))
      in (o' \<noteq> None, (case o' of None \<Rightarrow> 0 | Some t \<Rightarrow> t), fst x))"

definition latest_states :: "runtime \<Rightarrow> event_row list \<Rightarrow> (state_key \<times> nat \<times> event_row) list" where
  "latest_states rt rows =
     fold (keep_best (\<lambda>x. state_key (snd x)) (\<lambda>x y. state_order rt y \<le> state_order rt x))
       (enumerate 0 rows) []"

definition dedupe_non_collection_latest_state :: "runtime \<Rightarrow> event_row list \<Rightarrow> event_row list" where
  "dedupe_non_collection_latest_state rt rows = map (\<lambda>e. snd (snd e)) (latest_states rt rows)"

definition non_collection_event_rows :: "runtime \<Rightarrow> event_row list \<Rightarrow> event_row list" where
  "non_collection_event_rows rt rows =
     filter (\<lambda>r. er_breach r \<and> er_type r \<noteq> None \<and> er_type r \<noteq> Some [] \<and>
                  er_type r \<noteq> Some ''COLLECTION_FAILURE'')
       (dedupe_non_collection_latest_state rt rows)"

text \<open>Row identity is the row's position.\<close>

definition latest_metric_rows :: "runtime \<Rightarrow> event_row list \<Rightarrow> event_row list" where
  "latest_metric_rows rt rows =
     (let ids = map (\<lambda>e. fst (snd e)) (latest_states rt rows)
      in map snd (filter (\<lambda>(i, r). target_event_type r = None \<or> i \<in> set ids) (enumerate 0 rows)))"

text \<open>\<open>a >= b\<close> on the values of \<open>observed_at\<close>: text by text, numbers by numbers.\<close>

fun value_ge :: "pyval \<Rightarrow> pyval \<Rightarrow> bool result" where
  "value_ge (PStr a) (PStr b) = Inr (b \<le> a)"
| "value_ge (PTime a) (PTime b) = Inr (b \<le> a)"
| "value_ge (PStr _) _ = Inl (TypeError ''>= not supported'')"
| "value_ge _ (PStr _) = Inl (TypeError ''>= not supported'')"
| "value_ge a b = bindR (py_float a) (\<lambda>x. bindR (py_float b) (\<lambda>y. Inr (f_ge x y)))"

definition idem_step :: "event_row \<Rightarrow> event_row list \<times> (pyval \<times> nat) list \<Rightarrow>
    (event_row list \<times> (pyval \<times> nat) list) result" where
  "idem_step r s =
     (case s of (rows, idx) \<Rightarrow>
        if er_key r = PNone then Inr (rows @ [r], idx)
        else case map_of idx (er_key r) of
            None \<Rightarrow> Inr (rows @ [r], AList.update (er_key r) (length rows) idx)
          | Some i \<Rightarrow>
              if er_observed (rows ! i) = PNone \<or> er_observed r = PNone then Inr (rows[i := r], idx)
              else bindR (value_ge (er_observed r) (er_observed (rows ! i))) (\<lambda>newer.
                Inr (if newer then rows[i := r] else rows, idx)))"

definition dedupe_idempotent_rows :: "event_row list \<Rightarrow> event_row list result" where
  "dedupe_idempotent_rows rows = bindR (foldR idem_step rows ([], [])) (\<lambda>s. Inr (fst s))"

interpretation failure_rows: latest_wins failure_key "\<lambda>_ _. True" "\<lambda>_. 0::nat"
  by unfold_locales simp

interpretation state_rows: latest_wins "\<lambda>x. state_key (snd x)"
    "\<lambda>x y. state_order rt y \<le> state_order rt x" "state_order rt" for rt
  by unfold_locales simp

lemma failure_rows_kept: "collection_failure_event_rows rows = map snd (failure_rows.kept rows)"
  by (simp add: collection_failure_event_rows_def failure_rows.kept_def)

lemma latest_states_kept: "latest_states rt rows = state_rows.kept rt (enumerate 0 rows)"
  by (simp add: latest_states_def state_rows.kept_def)

subsection \<open>Verdicts\<close>

lemma no_response_not_graded:
  assumes "is_snmp_no_response_failure rt p (PStr st) err"
  shows "st \<notin> set graded_statuses"
proof
  assume "st \<in> set graded_statuses"
  then have "st = ''OK'' \<or> st = ''WARNING'' \<or> st = ''CRITICAL''"
    by (auto simp: graded_statuses_def)
  then have "\<not> is_snmp_no_response_failure rt p (PStr st) err"
    unfolding is_snmp_no_response_failure_def Let_def
    by (elim disjE) (simp_all add: no_response_statuses_def upper_char_def is_lower_def)
  with assms show False by contradiction
qed

lemma threshold_verdict_cases:
  "threshold_verdict rt md x shown v = Inr v' \<Longrightarrow>
     v' = v \<or> (\<exists>sev msg. sev \<in> {''WARNING'', ''CRITICAL''} \<and> v' = breach sev ''THRESHOLD_BREACH'' msg v)"
  by (auto simp: threshold_verdict_def Let_def bindR_eq_Inr split: if_splits)

lemma verdict_cases:
  assumes "envelope_verdict rt p st err md name n shown = Inr v"
  shows "(st \<notin> set graded_statuses \<and> (\<exists>sev msg fam prot. v = (breach sev ''COLLECTION_FAILURE'' msg (quiet p name shown))
        \<lparr>v_family := fam, v_protocol := prot\<rparr> \<and> (fam = None \<or> fam = Some ''SNMP_NO_RESPONSE'' \<and> prot = Some ''SNMP''))) \<or>
    (st \<in> set graded_statuses \<and> (v = quiet p name shown \<or>
      (\<exists>sev msg. v = breach sev ''THRESHOLD_BREACH'' msg (quiet p name shown)) \<or>
      (\<exists>sev msg x. n = Some x \<and> f_eq x (Fin 0) \<and> p = ''ICMP'' \<and> availability_source rt md \<noteq> None \<and>
          v = breach sev ''AVAILABILITY'' msg (quiet p name shown))))"
proof (cases "st \<in> set graded_statuses")
  case True
  then have "\<not> is_snmp_no_response_failure rt (PStr p) (PStr st) err"
    using no_response_not_graded by blast
  with True assms show ?thesis
    using threshold_verdict_cases [of rt md _ shown "quiet p name shown" v]
    by (simp add: envelope_verdict_def Let_def split: option.splits if_splits)
      (force simp: bindR_eq_Inr)+
next
  case False
  have keep: "breach sev kind msg w = (breach sev kind msg w)\<lparr>v_family := v_family w, v_protocol := v_protocol w\<rparr>"
    for sev kind msg w
    by (simp add: breach_def)
  show ?thesis
  proof (cases "is_snmp_no_response_failure rt (PStr p) (PStr st) err")
    case True
    with False assms show ?thesis by (auto simp: envelope_verdict_def Let_def)
  next
    case no: False
    with False assms obtain sev where
      "v = breach sev ''COLLECTION_FAILURE'' (collection_failure_message rt err (PStr st)) (quiet p name shown)"
      by (auto simp: envelope_verdict_def Let_def bindR_eq_Inr)
    moreover have "v_family (quiet p name shown) = None" by (simp add: quiet_def)
    ultimately show ?thesis using False keep by metis
  qed
qed

subsection \<open>Properties\<close>

text \<open>
  how an envelope is classified: it is a collection failure exactly when its status is not
  \<open>OK\<close>, \<open>WARNING\<close> or \<open>CRITICAL\<close>, an availability event only for ICMP with an availability source
  and the value zero, otherwise at most a threshold breach; it is a breach exactly when it has an
  event type, its status is \<open>OK\<close> otherwise, and it never both raises and recovers an event.
\<close>

theorem event_row_classified:
  assumes "event_row_of rt env = Inr r"
  shows "(er_type r = Some ''COLLECTION_FAILURE'' \<longleftrightarrow>
      text_of rt (por (get env ''status'') (PStr ''OK'')) \<notin> set graded_statuses) \<and>
    (er_breach r \<longleftrightarrow> er_type r \<noteq> None) \<and>
    er_type r \<in> {None, Some ''COLLECTION_FAILURE'', Some ''AVAILABILITY'', Some ''THRESHOLD_BREACH''} \<and>
    (er_type r = Some ''AVAILABILITY'' \<longrightarrow> er_protocol r = Some ''ICMP'' \<and> er_avail r \<noteq> None \<and> er_recover_cf r) \<and>
    (er_family r \<noteq> None \<longrightarrow> er_type r = Some ''COLLECTION_FAILURE'' \<and> er_protocol r = Some ''SNMP'') \<and>
    (er_recover r \<longleftrightarrow> er_recover_cf r \<and> \<not> er_breach r) \<and>
    er_status r = (if er_breach r then er_severity r else ''OK'')"
proof -
  let ?st = "text_of rt (por (get env ''status'') (PStr ''OK''))"
  obtain md n err name shown v where v: "envelope_verdict rt
        (normalized_protocol rt (get env ''protocol'')) ?st err md name n shown = Inr v"
    and r: "er_type r = v_type v" "er_breach r = v_breach v" "er_protocol r = v_protocol v"
      "er_family r = v_family v" "er_avail r = availability_source rt md"
      "er_recover_cf r = (n \<noteq> None)" "er_recover r = (n \<noteq> None \<and> \<not> v_breach v)"
      "er_status r = (if v_breach v then v_severity v else ''OK'')" "er_severity r = v_severity v"
    using assms by (auto simp: event_row_of_def Let_def bindR_eq_Inr)
  show ?thesis
    using verdict_cases [OF v] unfolding r
    by (elim disjE conjE exE) (auto simp: breach_def quiet_def)
qed

definition demo_envelope :: pydict where
  "demo_envelope = [(''ci_id'', PStr ''n1''), (''metric_id'', PStr ''cpu''), (''protocol'', PStr ''snmp''),
     (''status'', PStr ''NO_DATA''), (''metadata'', PDict [(''criticality'', PInt 3)])]"

definition demo_rt :: runtime where
  "demo_rt = \<lparr>rt_fmt = (\<lambda>_. []), rt_sha = (\<lambda>s. s), rt_uuid5 = (\<lambda>s. s), rt_iso = (\<lambda>t. show_int t),
     rt_parse_iso = parse_int\<rparr>"

definition demo_row :: event_row where
  "demo_row = (case event_row_of demo_rt demo_envelope of Inr r \<Rightarrow> r | Inl _ \<Rightarrow> undefined)"

theorem event_row_classified_witness:
  "\<exists>r. event_row_of demo_rt demo_envelope = Inr r \<and> er_type r = Some ''COLLECTION_FAILURE'' \<and> er_breach r"
proof -
  have "is_ok (event_row_of demo_rt demo_envelope)" by code_simp
  then obtain r where r: "event_row_of demo_rt demo_envelope = Inr r"
    by (auto simp: is_ok_def split: sum.splits)
  have "text_of demo_rt (por (get demo_envelope ''status'') (PStr ''OK'')) \<notin> set graded_statuses"
    by code_simp
  with event_row_classified [OF r] r show ?thesis by blast
qed

lemma enumerate_member: "(i, r) \<in> set (enumerate 0 rows) \<longleftrightarrow> i < length rows \<and> rows ! i = r"
  by (auto simp: in_set_enumerate_eq)

lemma latest_states_entry:
  assumes "(k, i, r) \<in> set (latest_states rt rows)"
  shows "i < length rows \<and> rows ! i = r \<and> state_key r = Some k \<and>
    (\<forall>j < length rows. state_key (rows ! j) = Some k \<longrightarrow> state_order rt (j, rows ! j) \<le> state_order rt (i, r))"
proof -
  have best: "state_rows.last_best rt k (enumerate 0 rows) (i, r)"
    using assms map_of_is_SomeI [OF state_rows.kept_distinct]
    unfolding latest_states_kept by (blast intro: state_rows.kept_Some)
  then have "(i, r) \<in> set (enumerate 0 rows)" "state_key r = Some k"
    by (auto simp: state_rows.last_best_def)
  with state_rows.last_best_max [OF best] show ?thesis
    by (auto simp: enumerate_member)
qed

lemma latest_states_keys:
  "fst ` set (latest_states rt rows) = {k. \<exists>r \<in> set rows. state_key r = Some k}"
proof -
  have "k \<in> fst ` set (latest_states rt rows) \<longleftrightarrow> (\<exists>x \<in> set (enumerate 0 rows). state_key (snd x) = Some k)" for k
    using state_rows.kept_None [of rt "enumerate 0 rows" k]
    unfolding latest_states_kept map_of_eq_None_iff by blast
  moreover have "set rows = snd ` set (enumerate 0 rows)"
    unfolding set_map [symmetric] map_snd_enumerate ..
  ultimately show ?thesis by (intro set_eqI) simp
qed

lemma distinct_latest_states: "distinct (map fst (latest_states rt rows))"
  unfolding latest_states_kept by (rule state_rows.kept_distinct)

lemma dedupe_keys:
  "map state_key (dedupe_non_collection_latest_state rt rows) = map (\<lambda>e. Some (fst e)) (latest_states rt rows)"
  using latest_states_entry [of _ _ _ rt rows]
  by (auto simp: dedupe_non_collection_latest_state_def)

lemma dedupe_distinct: "distinct (map state_key (dedupe_non_collection_latest_state rt rows))"
  unfolding dedupe_keys using distinct_latest_states by (simp add: distinct_map inj_on_def)

lemma dedupe_member:
  "r \<in> set (dedupe_non_collection_latest_state rt rows) \<Longrightarrow> r \<in> set rows"
  using latest_states_entry [of _ _ _ rt rows]
  by (force simp: dedupe_non_collection_latest_state_def)

lemma idempotent_member:
  assumes "dedupe_idempotent_rows rows = Inr out"
  shows "set out \<subseteq> set rows"
proof -
  obtain s where s: "foldR idem_step rows ([], []) = Inr s" "out = fst s"
    using assms by (auto simp: dedupe_idempotent_rows_def bindR_eq_Inr)
  have "set (fst s) \<subseteq> set rows"
  proof (rule foldR_invariant [OF s(1)])
    fix x a b
    assume "x \<in> set rows" "set (fst a) \<subseteq> set rows" "idem_step x a = Inr b"
    then show "set (fst b) \<subseteq> set rows"
      by (cases a) (auto simp: idem_step_def bindR_eq_Inr split: if_splits option.splits
          dest!: subsetD [OF set_update_subset_insert])
  qed simp
  with s(2) show ?thesis by simp
qed

text \<open>
  of the rows that speak about one event (CI, metric, event type raised or recovered,
  correlation), the batch keeps exactly one, the latest by observation time, where a readable
  time beats an unreadable one and position decides among equals; every event some row speaks
  about stays represented.
\<close>

theorem latest_state_kept:
  shows "distinct (map state_key (dedupe_non_collection_latest_state rt rows)) \<and>
    set (map state_key (dedupe_non_collection_latest_state rt rows)) = state_key ` set rows - {None} \<and>
    list_all (\<lambda>r. \<exists>i < length rows. rows ! i = r \<and>
        list_all (\<lambda>j. state_order rt (j, rows ! j) \<le> state_order rt (i, r))
          (filter (\<lambda>j. state_key (rows ! j) = state_key r) [0..<length rows]))
      (dedupe_non_collection_latest_state rt rows)"
proof (intro conjI)
  show "distinct (map state_key (dedupe_non_collection_latest_state rt rows))"
    by (rule dedupe_distinct)
  have "set (map state_key (dedupe_non_collection_latest_state rt rows)) =
      Some ` (fst ` set (latest_states rt rows))"
    unfolding dedupe_keys by auto
  then show "set (map state_key (dedupe_non_collection_latest_state rt rows)) = state_key ` set rows - {None}"
    unfolding latest_states_keys by force
  show "list_all (\<lambda>r. \<exists>i < length rows. rows ! i = r \<and>
        list_all (\<lambda>j. state_order rt (j, rows ! j) \<le> state_order rt (i, r))
          (filter (\<lambda>j. state_key (rows ! j) = state_key r) [0..<length rows]))
      (dedupe_non_collection_latest_state rt rows)"
    unfolding list_all_iff dedupe_non_collection_latest_state_def
    using latest_states_entry [of _ _ _ rt rows] by fastforce
qed

subsection \<open>Replayed payloads\<close>

definition demo_key_row :: "string \<Rightarrow> event_row" where
  "demo_key_row observed = demo_row\<lparr>er_key := PStr ''k'', er_observed := PStr observed\<rparr>"

text \<open>
  replays of one payload are compared by the text of their times: with the same key, the
  reading of 09:30 UTC is dropped in favour of one of 08:00 UTC that was written with the offset
  \<open>+02:00\<close>, although it is later and came later in the batch.
\<close>

theorem stale_replay_wins:
  "dedupe_idempotent_rows [demo_key_row ''2024-01-01T10:00:00+02:00'', demo_key_row ''2024-01-01T09:30:00+00:00''] =
     Inr [demo_key_row ''2024-01-01T10:00:00+02:00'']"
proof -
  have "\<not> ''2024-01-01T10:00:00+02:00'' \<le> ''2024-01-01T09:30:00+00:00''"
    by code_simp
  then show ?thesis
    by (simp add: dedupe_idempotent_rows_def idem_step_def demo_key_row_def)
qed

end
