(* ===== verification/Event_Views.thy ===== *)
theory Event_Views
  imports Event_Rows
begin

section \<open>What readers see of events (services/event_service.py)\<close>

text \<open>
  Nodes of the graph as dictionaries, the summary of an event and its public part, the business and
  ITSM context of one event, the feeds, and the metadata of a configuration item in the availability
  report. A record of a query is the event, its item and its metric.
\<close>

subsection \<open>Values and dictionaries\<close>

definition serialize_value :: "runtime \<Rightarrow> pyval \<Rightarrow> pyval" where
  "serialize_value rt v = (case v of PTime t \<Rightarrow> PStr (rt_iso rt t) | _ \<Rightarrow> v)"

definition node_to_dict :: "runtime \<Rightarrow> pydict option \<Rightarrow> pydict" where
  "node_to_dict rt n = (case n of None \<Rightarrow> [] | Some d \<Rightarrow> map (\<lambda>(k, v). (k, serialize_value rt v)) d)"

definition parse_datetime :: "runtime \<Rightarrow> pyval \<Rightarrow> instant option" where
  "parse_datetime rt v =
     (case v of PTime t \<Rightarrow> Some t | PStr s \<Rightarrow> rt_parse_iso rt (zulu_offset s) | _ \<Rightarrow> None)"

definition clean_dict :: "pydict \<Rightarrow> pydict" where
  "clean_dict d = filter (\<lambda>(k, v). v \<noteq> PNone) d"

definition optional_contract :: "pydict \<Rightarrow> string list \<Rightarrow> pyval" where
  "optional_contract d required =
     (if list_all (has_key (clean_dict d)) required then PDict (clean_dict d) else PNone)"

text \<open>\<open>int(sla) - int(age // 60)\<close>, with the age in seconds\<close>

definition compute_sla_remaining_minutes :: "runtime \<Rightarrow> instant \<Rightarrow> pyval \<Rightarrow> pyval \<Rightarrow> pyval result" where
  "compute_sla_remaining_minutes rt now created sla =
     (if sla = PNone then Inr PNone
      else case parse_datetime rt created of None \<Rightarrow> Inr PNone
      | Some t \<Rightarrow> bindR (py_int sla) (\<lambda>m. Inr (PInt (m - (now - t) div seconds 60))))"

subsection \<open>Summaries\<close>

definition first_truthy :: "pyval list \<Rightarrow> pyval" where
  "first_truthy vs = foldr por vs PNone"

definition build_event_summary :: "runtime \<Rightarrow> pydict \<Rightarrow> pydict \<Rightarrow> pydict \<Rightarrow> pydict" where
  "build_event_summary rt ev ci m =
     (let s0 = map (\<lambda>(k, v). (k, serialize_value rt v)) ev;
          s1 = (if get s0 ''created_at'' = PNone
                then put ''created_at'' (por (get s0 ''last_seen'') (por (get s0 ''recovered_at'') (get s0 ''closed_at''))) s0 else s0);
          s2 = put ''ci_location_name'' (get ci ''location_name'') (put ''ci_hostname'' (get ci ''ip'')
                 (put ''ci_name'' (get ci ''name'') (put ''ci_node_id'' (get ci ''id'') s1)));
          name = por (get m ''name'') (por (get m ''id'') (por (get ev ''metric_name'') (por (get ev ''metric_id'') (get ev ''event_type''))));
          protocol = por (get m ''protocol'') (get ev ''source_protocol'');
          s3 = (if truthy name then put ''metric_name'' name s2 else s2)
      in if truthy protocol then put ''metric_protocol'' protocol s3 else s3)"

definition public_keys :: "string list" where
  "public_keys = [''id'', ''ci_id'', ''metric_id'', ''status'', ''severity'', ''message'', ''created_at'', ''last_seen'', ''ack'',
     ''ack_at'', ''closed_at'', ''recovered_at'', ''ci_name'', ''ci_node_id'', ''ci_hostname'', ''ci_location_name'', ''metric_name'',
     ''metric_protocol'', ''propagated_from'', ''correlation_type'', ''root_cause_ci_id'', ''event_type'', ''source_protocol'',
     ''affected_ci_ids'', ''affected_count'', ''severity_degraded'', ''degradation_reason'', ''physical_link_id'', ''physical_link_status'']"

definition pop_untrue :: "string \<Rightarrow> pydict \<Rightarrow> pydict" where
  "pop_untrue k d = (if truthy (get d k) then d else AList.delete k d)"

definition public_event_summary :: "pydict \<Rightarrow> pydict" where
  "public_event_summary s =
     (let r0 = filter (\<lambda>(k, v). k \<in> set public_keys \<and> v \<noteq> PNone) s;
          r1 = (if get s ''affected_ci_count'' \<noteq> PNone then put ''affected_count'' (get s ''affected_ci_count'') r0 else r0);
          r2 = pop_untrue ''affected_count'' (pop_untrue ''affected_ci_ids'' r1)
      in if get s ''correlation_type'' = PStr ''PROPAGATED'' then put ''propagated'' (PBool True) r2 else r2)"

subsection \<open>Context\<close>

definition pick_value :: "pyval \<Rightarrow> pyval \<Rightarrow> pyval \<times> string option" where
  "pick_value snapshot resolved =
     (if snapshot \<noteq> PNone then (snapshot, Some ''snapshot'') else if resolved \<noteq> PNone then (resolved, Some ''resolved'') else (PNone, None))"

text \<open>The key in the event, and the value the graph resolves it to.\<close>

definition context_picks :: "pydict \<Rightarrow> pydict \<Rightarrow> pydict \<Rightarrow> (string \<times> pyval) list" where
  "context_picks ci bs sc =
     [(''business_service_id'', get bs ''id''), (''business_service_name'', get bs ''name''), (''business_service_tier'', get bs ''tier''),
      (''owner_t1'', get bs ''owner_t1''), (''owner_t2'', get bs ''owner_t2''), (''owner_t3'', get bs ''owner_t3''),
      (''impacted_users'', get bs ''impacted_users_count''), (''site'', get ci ''location_name''), (''service_catalog_id'', get sc ''id''),
      (''service_category'', get sc ''category''), (''service_tier'', get sc ''service_tier''), (''sla_minutes'', get sc ''sla_minutes'')]"

definition context_values :: "pydict \<Rightarrow> pydict \<Rightarrow> pydict \<Rightarrow> pydict \<Rightarrow> (string \<times> pyval \<times> string option) list" where
  "context_values ev ci bs sc = map (\<lambda>(k, v). (k, pick_value (get ev k) v)) (context_picks ci bs sc)"

definition source_state :: "string option list \<Rightarrow> string" where
  "source_state sources =
     (let present = filter (\<lambda>s. s \<noteq> None) sources
      in if present = [] then ''unavailable''
         else if list_all (\<lambda>s. s = Some ''snapshot'') present then ''snapshot''
         else if list_all (\<lambda>s. s = Some ''resolved'') present then ''resolved'' else ''mixed'')"

definition build_business_context :: "runtime \<Rightarrow> instant \<Rightarrow> pydict \<Rightarrow> pydict \<Rightarrow> pydict \<Rightarrow> pydict \<Rightarrow> pydict result" where
  "build_business_context rt now ev ci bs sc =
     (let vs = context_values ev ci bs sc; val = (\<lambda>k. case map_of vs k of None \<Rightarrow> PNone | Some (v, s) \<Rightarrow> v)
      in bindR (compute_sla_remaining_minutes rt now (get ev ''created_at'') (val ''sla_minutes'')) (\<lambda>left. Inr
        [(''source'', PStr (source_state (map (\<lambda>(k, v, s). s) vs))),
         (''business_service'', optional_contract
            [(''id'', val ''business_service_id''), (''name'', val ''business_service_name''), (''tier'', val ''business_service_tier''),
             (''owner_t1'', val ''owner_t1''), (''owner_t2'', val ''owner_t2''), (''owner_t3'', val ''owner_t3'')] [''id'', ''name'']),
         (''service_catalog'', optional_contract
            [(''id'', val ''service_catalog_id''), (''category'', val ''service_category''), (''service_tier'', val ''service_tier''),
             (''sla_minutes'', val ''sla_minutes'')] [''id'', ''category'']),
         (''impacted_users'', val ''impacted_users''), (''sla_remaining_minutes'', left), (''site'', val ''site'')]))"

definition build_external_ticket_ref :: "pydict \<Rightarrow> pyval" where
  "build_external_ticket_ref ev =
     (if get ev ''external_ticket_system'' \<notin> {PStr ''Jira'', PStr ''ServiceNow''} \<or> \<not> truthy (get ev ''external_ticket_key'') then PNone
      else PDict (clean_dict [(''system'', get ev ''external_ticket_system''), (''key'', get ev ''external_ticket_key''),
             (''status'', get ev ''external_ticket_status'')]))"

record event_record =
  vr_event :: "pydict option"
  vr_ci :: "pydict option"
  vr_metric :: "pydict option"
  vr_service :: "pydict option"
  vr_catalog :: "pydict option"

definition build_event_detail_response :: "runtime \<Rightarrow> instant \<Rightarrow> event_record \<Rightarrow> pydict result" where
  "build_event_detail_response rt now r =
     (let ev = node_to_dict rt (vr_event r); ci = node_to_dict rt (vr_ci r); m = node_to_dict rt (vr_metric r);
          s = build_event_summary rt ev ci m
      in bindR (build_business_context rt now ev ci (node_to_dict rt (vr_service r)) (node_to_dict rt (vr_catalog r))) (\<lambda>ctx.
         let tier = por (get ev ''escalation_tier'') (case get ctx ''business_service'' of PDict b \<Rightarrow> get b ''tier'' | _ \<Rightarrow> PNone)
         in Inr
           [(''event'', PDict (put ''ci_ref'' (PDict [(''id'', por (get ci ''id'') (get s ''ci_id'')), (''label'', get ci ''name''),
               (''hostname'', get ci ''ip''), (''location_name'', get ci ''location_name'')]) s)),
            (''business_context'', PDict ctx),
            (''itsm_context'', PDict [(''assignment_state'', PStr (if truthy (get ev ''ack'') \<and> truthy (get ev ''ack_by'') then ''assigned'' else ''unassigned'')),
               (''assigned_to'', get ev ''ack_by''), (''opened_by'', PStr ''system''),
               (''escalation_tier'', if tier \<in> {PStr ''T1'', PStr ''T2'', PStr ''T3''} then tier else PNone),
               (''external_ticket'', build_external_ticket_ref ev)])]))"

subsection \<open>Feeds\<close>

definition active :: "pydict \<Rightarrow> bool" where
  "active ev = (get ev ''status'' \<in> {PStr ''OPEN'', PStr ''ACK''})"

definition status_matches :: "string option \<Rightarrow> pydict \<Rightarrow> bool" where
  "status_matches status ev =
     (case status of None \<Rightarrow> True
      | Some s \<Rightarrow> if s = ''ACTIVE'' then active ev
                  else if s = ''CONSOLE'' then active ev \<or> get ev ''status'' = PStr ''RECOVERED''
                  else get ev ''status'' = PStr s)"

definition listed :: "bool \<Rightarrow> pydict \<Rightarrow> bool" where
  "listed include_children ev =
     (include_children \<or> get ev ''correlation_type'' \<in> {PNone, PStr ''ROOT''} \<or> get ev ''severity_degraded'' = PBool True)"

text \<open>\<open>ORDER BY e.created_at DESC\<close>: nulls first, then the newest.\<close>

definition newest_first :: "pydict \<Rightarrow> bool \<times> int" where
  "newest_first ev = (case get ev ''created_at'' of PTime t \<Rightarrow> (True, - t) | _ \<Rightarrow> (False, 0))"

definition get_events :: "runtime \<Rightarrow> string option \<Rightarrow> bool \<Rightarrow> (pydict \<times> pydict \<times> pydict option) list \<Rightarrow> pydict list" where
  "get_events rt status include_children rows =
     map (\<lambda>(ev, ci, m). public_event_summary (build_event_summary rt (node_to_dict rt (Some ev)) (node_to_dict rt (Some ci)) (node_to_dict rt m)))
       (sort_key (newest_first \<circ> fst)
         (filter (\<lambda>(ev, ci, m). status_matches status ev \<and> listed include_children ev) rows))"

definition severity_rank :: "pydict \<Rightarrow> nat" where
  "severity_rank ev =
     (if get ev ''severity'' = PStr ''CRITICAL'' then 1 else if get ev ''severity'' = PStr ''WARNING'' then 2
      else if get ev ''severity'' = PStr ''INFO'' then 3 else 4)"

definition get_related_events :: "runtime \<Rightarrow> string \<Rightarrow> (pydict \<times> pydict) list \<Rightarrow> pydict list" where
  "get_related_events rt ci rows =
     map (\<lambda>(ev, m). let d = node_to_dict rt (Some m)
            in public_event_summary (put ''metric_name'' (por (get d ''name'') (get d ''id'')) (node_to_dict rt (Some ev))))
       (sort_key (\<lambda>(ev, m). (severity_rank ev, newest_first ev))
         (filter (\<lambda>(ev, m). get ev ''ci_id'' = PStr ci \<and> active ev) rows))"

definition affected_row :: "pydict \<Rightarrow> pydict" where
  "affected_row ci = [(''ci_id'', get ci ''id''), (''ci_name'', get ci ''name''), (''status'', get ci ''status''),
     (''ci_hostname'', get ci ''ip''), (''ci_location_name'', get ci ''location_name'')]"

text \<open>The rows of the affected items in the order of the event's list; unknown items are left out.\<close>

definition get_affected_siblings :: "string \<Rightarrow> pydict list \<Rightarrow> pydict list \<Rightarrow> pydict list result" where
  "get_affected_siblings i events items =
     (case find (\<lambda>ev. get ev ''id'' = PStr i) events of
        None \<Rightarrow> Inl (HttpError 404 (''Event not found: '' @ i))
      | Some ev \<Rightarrow>
          if get ev ''correlation_type'' \<noteq> PStr ''ROOT'' then Inl (HttpError 404 (''Event not found: '' @ i))
          else Inr (List.map_filter (\<lambda>c. map_option affected_row (find (\<lambda>n. get n ''id'' = c) items))
                 (case get ev ''affected_ci_ids'' of PList cs \<Rightarrow> cs | _ \<Rightarrow> [])))"


subsection \<open>Metadata of items in the availability report\<close>

definition ci_canonical_fields :: "string list" where
  "ci_canonical_fields = [''id'', ''name'', ''label'', ''category'', ''layer'', ''type'', ''status'', ''ip'', ''location_name'', ''owner'',
     ''brand'', ''model'', ''serialNumber'', ''firmwareVersion'', ''pollingInterval'']"

definition sensitive_ci_key_parts :: "string list" where
  "sensitive_ci_key_parts = [''credential'', ''password'', ''passphrase'', ''passwd'', ''pwd'', ''secret'', ''token'', ''snmp'',
     ''community'', ''auth'', ''priv'', ''username'', ''user_name'', ''login'', ''user'']"

definition is_sensitive_ci_key :: "string \<Rightarrow> bool" where
  "is_sensitive_ci_key k = list_ex (\<lambda>p. contains p (lower k)) sensitive_ci_key_parts"

definition shown_key :: "string \<Rightarrow> bool" where
  "shown_key k = (k \<notin> set ci_canonical_fields \<and> \<not> is_sensitive_ci_key k)"

fun json_safe_ci_value :: "runtime \<Rightarrow> pyval \<Rightarrow> pyval"
  and json_safe_items :: "runtime \<Rightarrow> pyval list \<Rightarrow> pyval list"
  and sanitize_ci_metadata :: "runtime \<Rightarrow> pydict \<Rightarrow> pydict" where
  "json_safe_ci_value rt (PTime t) = PStr (rt_iso rt t)"
| "json_safe_ci_value rt (PList xs) = PList (json_safe_items rt xs)"
| "json_safe_ci_value rt (PDict d) =
     (if sanitize_ci_metadata rt d = [] then PNone else PDict (sanitize_ci_metadata rt d))"
| "json_safe_ci_value rt v = v"
| "json_safe_items rt [] = []"
| "json_safe_items rt (x # xs) =
     (if json_safe_ci_value rt x = PNone then json_safe_items rt xs else json_safe_ci_value rt x # json_safe_items rt xs)"
| "sanitize_ci_metadata rt [] = []"
| "sanitize_ci_metadata rt ((k, v) # d) =
     (if \<not> shown_key k \<or> json_safe_ci_value rt v = PNone then sanitize_ci_metadata rt d
      else (k, json_safe_ci_value rt v) # sanitize_ci_metadata rt d)"

definition build_availability_ci_metadata :: "runtime \<Rightarrow> pydict \<Rightarrow> pyval \<Rightarrow> pydict option" where
  "build_availability_ci_metadata rt ci category =
     (if ci = [] then None
      else
        let meta = sanitize_ci_metadata rt ci;
            d = clean_dict
              ([(''id'', get ci ''id''), (''label'', por (get ci ''name'') (get ci ''label'')), (''category'', category),
                (''type'', por category (por (get ci ''type'') (get ci ''layer'')))]
               @ map (\<lambda>k. (k, get ci k)) [''status'', ''ip'', ''location_name'', ''owner'', ''brand'', ''model'', ''serialNumber'',
                   ''firmwareVersion'', ''pollingInterval'']
               @ [(''metadata'', if meta = [] then PNone else PDict meta)])
        in if d = [] then None else Some d)"

definition dict_of :: "pyval \<Rightarrow> pydict" where
  "dict_of v = (case v of PDict d \<Rightarrow> d | _ \<Rightarrow> [])"

definition merge_availability_ci_metadata :: "pydict option \<Rightarrow> pydict option \<Rightarrow> pydict option" where
  "merge_availability_ci_metadata existing incoming =
     (case existing of None \<Rightarrow> incoming
      | Some a \<Rightarrow> if a = [] then incoming
        else case incoming of None \<Rightarrow> existing
        | Some b \<Rightarrow> if b = [] then existing
          else let merged = merge_dict a (clean_dict b);
                   meta = merge_dict (dict_of (get a ''metadata'')) (dict_of (get b ''metadata''))
               in Some (if meta = [] then merged else put ''metadata'' (PDict meta) merged))"

subsection \<open>Properties\<close>

lemma set_put: "set (put k v d) \<subseteq> insert (k, v) (set d)"
  by (induction d) auto

lemma set_pop: "set (pop_untrue k d) \<subseteq> set d"
  by (auto simp: pop_untrue_def AList.delete_eq)

lemma get_pop: "get (pop_untrue k d) j = (if j = k \<and> \<not> truthy (get d k) then PNone else get d j)"
  by (auto simp: pop_untrue_def get_def dict_get_delete)

lemma has_pop: "has_key (pop_untrue k d) j \<longleftrightarrow> has_key d j \<and> (j = k \<longrightarrow> truthy (get d k))"
  by (auto simp: pop_untrue_def map_of_delete)

lemma truthy_has: "truthy (get d k) \<Longrightarrow> has_key d k"
  by (auto simp: get_def dict_get_def split: option.splits)

lemma has_put: "has_key (put k v d) j \<longleftrightarrow> j = k \<or> has_key d j"
  by (simp add: map_of_update)

text \<open>
  C29: The feed shows only what it lists: every entry of a public summary is one of the listed keys or
  the derived flag, is not null, and the flag is there exactly for propagated events; an empty blast
  radius shows neither its members nor its count.
\<close>

theorem public_summary_closed:
  "list_all (\<lambda>(k, v). (k \<in> set public_keys \<or> k = ''propagated'') \<and> v \<noteq> PNone) (public_event_summary s) \<and>
   has_key (public_event_summary s) ''propagated'' = (get s ''correlation_type'' = PStr ''PROPAGATED'') \<and>
   (has_key (public_event_summary s) ''affected_count'' = truthy (get (public_event_summary s) ''affected_count'')) \<and>
   (has_key (public_event_summary s) ''affected_ci_ids'' = truthy (get (public_event_summary s) ''affected_ci_ids''))"
proof -
  define r0 where "r0 = filter (\<lambda>(k, v). k \<in> set public_keys \<and> v \<noteq> PNone) s"
  define r1 where "r1 = (if get s ''affected_ci_count'' \<noteq> PNone then put ''affected_count'' (get s ''affected_ci_count'') r0 else r0)"
  define r2 where "r2 = pop_untrue ''affected_count'' (pop_untrue ''affected_ci_ids'' r1)"
  have sum: "public_event_summary s = (if get s ''correlation_type'' = PStr ''PROPAGATED'' then put ''propagated'' (PBool True) r2 else r2)"
    by (simp add: public_event_summary_def r0_def r1_def r2_def Let_def)
  have "set r2 \<subseteq> set r1" unfolding r2_def using set_pop by blast
  moreover have "set r1 \<subseteq> insert (''affected_count'', get s ''affected_ci_count'') (set r0)"
    using set_put by (simp add: r1_def subset_insertI)
  ultimately have two: "(k, v) \<in> set r2 \<Longrightarrow> k \<in> set public_keys \<and> v \<noteq> PNone" for k v
    unfolding r1_def r0_def using set_put by (fastforce simp: public_keys_def split: if_splits)
  have ends: "set (public_event_summary s) \<subseteq> insert (''propagated'', PBool True) (set r2)"
    unfolding sum using set_put [of "''propagated''" "PBool True" r2] by auto
  have entries: "(k \<in> set public_keys \<or> k = ''propagated'') \<and> v \<noteq> PNone" if "(k, v) \<in> set (public_event_summary s)" for k v
    using two [of k v] that ends by auto
  have "\<not> has_key r2 ''propagated''"
  proof
    assume "has_key r2 ''propagated''"
    then obtain v where "(''propagated'', v) \<in> set r2" using map_of_SomeD by fastforce
    with two have "''propagated'' \<in> set public_keys" by blast
    then show False by (simp add: public_keys_def)
  qed
  then have flag: "has_key (public_event_summary s) ''propagated'' = (get s ''correlation_type'' = PStr ''PROPAGATED'')"
    unfolding sum by (simp add: map_of_update)
  have counts: "has_key r2 ''affected_count'' = truthy (get r2 ''affected_count'')"
    "has_key r2 ''affected_ci_ids'' = truthy (get r2 ''affected_ci_ids'')"
    unfolding r2_def has_pop get_pop using truthy_has by auto
  have "has_key (public_event_summary s) k = has_key r2 k" "get (public_event_summary s) k = get r2 k" if "k \<noteq> ''propagated''" for k
    using that by (simp_all add: sum map_of_update get_put)
  with counts entries flag show ?thesis by (auto simp: list_all_iff)
qed

text \<open>
  A complete snapshot is final: when the event carries its own value for every part of its
  business context, its detail shows those and says so, whatever the item, the business service and
  the catalogue say now.
\<close>

theorem snapshot_is_final:
  assumes "list_all (\<lambda>(k, v). get ev k \<noteq> PNone) (context_picks [] [] [])"
  shows "build_business_context rt now ev ci bs sc = build_business_context rt now ev ci2 bs2 sc2 \<and>
    (case build_business_context rt now ev ci bs sc of Inl _ \<Rightarrow> \<not> is_ok (py_int (get ev ''sla_minutes''))
     | Inr c \<Rightarrow> get c ''source'' = PStr ''snapshot'' \<and> get c ''site'' = get ev ''site'')"
proof -
  have vals: "context_values ev a b d = map (\<lambda>(k, v). (k, get ev k, Some ''snapshot'')) (context_picks [] [] [])" for a b d
    using assms by (simp add: context_values_def context_picks_def pick_value_def)
  show ?thesis
    unfolding build_business_context_def vals
    by (auto simp: context_picks_def source_state_def Let_def compute_sla_remaining_minutes_def bindR_def
        split: sum.splits option.splits if_splits)
qed

definition demo_snapshot :: pydict where
  "demo_snapshot = map (\<lambda>(k, v). (k, PInt 7)) (context_picks [] [] [])"

theorem snapshot_is_final_witness:
  "build_business_context demo_rt 5 demo_snapshot [] [] [] =
   build_business_context demo_rt 5 demo_snapshot [(''location_name'', PStr ''HQ'')] [(''id'', PInt 1)] []"
proof -
  have "list_all (\<lambda>(k, v). get demo_snapshot k \<noteq> PNone) (context_picks [] [] [])" by code_simp
  from snapshot_is_final [OF this] show ?thesis by blast
qed

subsection \<open>Sensitive metadata\<close>

fun all_keys :: "pyval \<Rightarrow> string list"
  and item_keys :: "pyval list \<Rightarrow> string list"
  and entry_keys :: "pydict \<Rightarrow> string list" where
  "all_keys (PList xs) = item_keys xs"
| "all_keys (PDict d) = entry_keys d"
| "all_keys v = []"
| "item_keys [] = []"
| "item_keys (x # xs) = all_keys x @ item_keys xs"
| "entry_keys [] = []"
| "entry_keys ((k, v) # d) = k # all_keys v @ entry_keys d"

lemma sanitized_keys:
  "list_all shown_key (all_keys (json_safe_ci_value rt v))"
  "list_all shown_key (item_keys (json_safe_items rt xs))"
  "list_all shown_key (entry_keys (sanitize_ci_metadata rt d))"
  by (induction v and xs and d rule: json_safe_ci_value_json_safe_items_sanitize_ci_metadata.induct) auto

lemma entry_keys_iff: "list_all P (entry_keys d) \<longleftrightarrow> (\<forall>(k, v) \<in> set d. P k \<and> list_all P (all_keys v))"
  by (induction d) auto

lemma entry_keys_merge:
  "list_all P (entry_keys a) \<Longrightarrow> list_all P (entry_keys b) \<Longrightarrow> list_all P (entry_keys (merge_dict a b))"
proof (induction a b rule: merge_dict.induct)
  case (2 d k v e)
  have "list_all P (entry_keys (put k v d))"
    unfolding entry_keys_iff
  proof
    fix x assume "x \<in> set (put k v d)"
    with set_put have "x = (k, v) \<or> x \<in> set d" by blast
    with "2.prems" show "case x of (k, v) \<Rightarrow> P k \<and> list_all P (all_keys v)"
      by (auto simp: entry_keys_iff)
  qed
  with 2 show ?case by simp
qed simp

definition metadata_of :: "pydict option \<Rightarrow> pydict" where
  "metadata_of p = (case p of None \<Rightarrow> [] | Some d \<Rightarrow> dict_of (get d ''metadata''))"

definition payload_entries :: "runtime \<Rightarrow> pydict \<Rightarrow> pyval \<Rightarrow> pydict" where
  "payload_entries rt ci category =
     [(''id'', get ci ''id''), (''label'', por (get ci ''name'') (get ci ''label'')), (''category'', category),
      (''type'', por category (por (get ci ''type'') (get ci ''layer'')))]
     @ map (\<lambda>k. (k, get ci k)) [''status'', ''ip'', ''location_name'', ''owner'', ''brand'', ''model'', ''serialNumber'',
         ''firmwareVersion'', ''pollingInterval'']
     @ [(''metadata'', if sanitize_ci_metadata rt ci = [] then PNone else PDict (sanitize_ci_metadata rt ci))]"

lemma clean_map_of: "distinct (map fst d) \<Longrightarrow> map_of (clean_dict d) k = (case map_of d k of None \<Rightarrow> None | Some v \<Rightarrow> if v = PNone then None else Some v)"
  by (induction d) (auto simp: clean_dict_def map_of_eq_None_iff split: option.splits)

lemma clean_keys: "distinct (map fst d) \<Longrightarrow> distinct (map fst (clean_dict d))"
  unfolding clean_dict_def by (rule distinct_map_filter)

lemma payload_distinct: "distinct (map fst (payload_entries rt ci c))"
  by (simp add: payload_entries_def)

lemma built_payload:
  "build_availability_ci_metadata rt ci c =
     (if ci = [] \<or> clean_dict (payload_entries rt ci c) = [] then None else Some (clean_dict (payload_entries rt ci c)))"
  by (simp add: build_availability_ci_metadata_def payload_entries_def Let_def)

lemma payload_metadata:
  "map_of (clean_dict (payload_entries rt ci c)) ''metadata'' =
     (if sanitize_ci_metadata rt ci = [] then None else Some (PDict (sanitize_ci_metadata rt ci)))"
  by (simp add: clean_map_of [OF payload_distinct]) (simp add: payload_entries_def)

lemma merge_dict_empty: "merge_dict a b = [] \<longleftrightarrow> a = [] \<and> b = []"
proof (induction a b rule: merge_dict.induct)
  case (2 d k v e)
  have "put k v d \<noteq> []" by (cases d) auto
  with 2 show ?case by simp
qed simp

lemma clean_twice: "clean_dict (clean_dict d) = clean_dict d"
  by (simp add: clean_dict_def)

lemma merge_shown:
  assumes "list_all P (entry_keys (metadata_of acc))" "list_all P (entry_keys (sanitize_ci_metadata rt ci))"
  shows "list_all P (entry_keys (metadata_of (merge_availability_ci_metadata acc (build_availability_ci_metadata rt ci c))))"
proof -
  let ?e = "clean_dict (payload_entries rt ci c)"
  have e: "dict_of (get ?e ''metadata'') = sanitize_ci_metadata rt ci"
    by (simp add: get_def dict_get_def payload_metadata dict_of_def)
  show ?thesis
  proof (cases "build_availability_ci_metadata rt ci c = None")
    case True
    with assms(1) show ?thesis by (auto simp: merge_availability_ci_metadata_def metadata_of_def split: option.split)
  next
    case False
    then have b: "build_availability_ci_metadata rt ci c = Some ?e" "?e \<noteq> []"
      by (auto simp: built_payload split: if_splits)
    show ?thesis
    proof (cases "acc = None \<or> acc = Some []")
      case True
      with b e assms(2) show ?thesis by (auto simp: merge_availability_ci_metadata_def metadata_of_def)
    next
      case acc: False
      then obtain a where a: "acc = Some a" "a \<noteq> []" by (cases acc) auto
      let ?meta = "merge_dict (dict_of (get a ''metadata'')) (dict_of (get ?e ''metadata''))"
      have merged: "merge_availability_ci_metadata acc (build_availability_ci_metadata rt ci c) =
          Some (if ?meta = [] then merge_dict a ?e else put ''metadata'' (PDict ?meta) (merge_dict a ?e))"
        using a b by (simp add: merge_availability_ci_metadata_def clean_twice Let_def)
      show ?thesis
      proof (cases "?meta = []")
        case True
        then have "dict_of (get a ''metadata'') = []" "sanitize_ci_metadata rt ci = []"
          using e by (simp_all add: merge_dict_empty)
        then have "dict_of (get (merge_dict a ?e) ''metadata'') = []"
          by (simp add: get_merge_dict [OF clean_keys [OF payload_distinct]] payload_metadata)
        with True show ?thesis by (simp add: merged metadata_of_def)
      next
        case False
        have "list_all P (entry_keys ?meta)"
          using assms a e by (intro entry_keys_merge) (simp_all add: metadata_of_def)
        with False show ?thesis by (simp add: merged metadata_of_def get_put dict_of_def)
      qed
    qed
  qed
qed

text \<open>
  However the items of a report row are merged, no key at any depth of the metadata it shows
  names a credential, and none repeats a field of the item.
\<close>

theorem ci_metadata_clean:
  "list_all shown_key (entry_keys (metadata_of
     (fold (\<lambda>(ci, c) acc. merge_availability_ci_metadata acc (build_availability_ci_metadata rt ci c)) found None)))"
proof -
  have "list_all shown_key (entry_keys (metadata_of acc)) \<Longrightarrow> list_all shown_key (entry_keys (metadata_of
     (fold (\<lambda>(ci, c) acc. merge_availability_ci_metadata acc (build_availability_ci_metadata rt ci c)) found acc)))" for acc
    by (induction found arbitrary: acc) (auto simp: merge_shown sanitized_keys)
  then show ?thesis by (simp add: metadata_of_def)
qed

end
