(* ===== verification/Availability_Report.thy ===== *)
theory Availability_Report
  imports Event_Views "HOL-Library.Multiset"
begin

section \<open>The availability report (services/event_service.py)\<close>

text \<open>
  \<open>get_availability_report\<close> groups the reachability outages of a window by item and event type and
  derives repair times, operating intervals, downtime and the availability percentage;
  \<open>get_availability_snmp_no_response_drilldown\<close> lists the items behind one of its counters. A row of
  an event query is the event, its item and the name of the item's category, as stored; durations
  are differences of instants, in microseconds, and become exact seconds in the report.
\<close>

subsection \<open>The window and the groups\<close>

definition resolve_availability_window :: "instant option \<Rightarrow> instant option \<Rightarrow> instant \<Rightarrow> (instant \<times> instant) result" where
  "resolve_availability_window start stop now =
     (let we = (case stop of None \<Rightarrow> now | Some t \<Rightarrow> t);
          ws = (case start of None \<Rightarrow> we - seconds (30 * 86400) | Some t \<Rightarrow> t)
      in if we < ws then Inl (HttpError 400 ''start must be before end'') else Inr (ws, we))"

definition is_authoritative_availability_event :: "runtime \<Rightarrow> pydict \<Rightarrow> bool" where
  "is_authoritative_availability_event rt ev =
     (upper (text_of rt (por (get ev ''event_type'') (PStr []))) = ''AVAILABILITY''
      \<and> upper (text_of rt (por (get ev ''availability_source'') (PStr []))) \<in> {''PING'', ''ICMP''}
      \<and> upper (text_of rt (por (get ev ''correlation_type'') (PStr ''ROOT''))) \<noteq> ''PROPAGATED'')"

definition availability_group_key :: "runtime \<Rightarrow> pydict \<Rightarrow> (string \<times> string) option" where
  "availability_group_key rt ev =
     (if \<not> is_authoritative_availability_event rt ev \<or> \<not> truthy (get ev ''ci_id'') \<or> \<not> truthy (get ev ''event_type'') then None
      else Some (text_of rt (get ev ''ci_id''), text_of rt (get ev ''event_type'')))"

record avail_group =
  ag_name :: pyval
  ag_starts :: "instant list"
  ag_incidents :: "(instant \<times> instant) list"
  ag_repairs :: "int list"
  ag_down :: int
  ag_active :: nat
  ag_active_down :: int
  ag_ci :: "pydict option"

type_synonym avail_groups = "((string \<times> string) \<times> avail_group) list"

type_synonym outage_row = "pydict \<times> pydict \<times> pyval"

definition new_group :: "pyval \<Rightarrow> pydict option \<Rightarrow> avail_group" where
  "new_group name meta = \<lparr>ag_name = name, ag_starts = [], ag_incidents = [], ag_repairs = [], ag_down = 0,
     ag_active = 0, ag_active_down = 0, ag_ci = meta\<rparr>"

definition ensure_group :: "avail_groups \<Rightarrow> string \<times> string \<Rightarrow> pyval \<Rightarrow> pydict option \<Rightarrow> avail_group" where
  "ensure_group gs key name meta =
     (let g = (case map_of gs key of None \<Rightarrow> new_group name meta | Some g \<Rightarrow> g)
      in g\<lparr>ag_name := if truthy name \<and> \<not> truthy (ag_name g) then name else ag_name g,
           ag_ci := merge_availability_ci_metadata (ag_ci g) meta\<rparr>)"

subsection \<open>The two event queries\<close>

definition instant_of :: "pyval \<Rightarrow> instant option" where
  "instant_of v = (case v of PTime t \<Rightarrow> Some t | _ \<Rightarrow> None)"

definition on_or_before :: "pyval \<Rightarrow> instant \<Rightarrow> bool" where
  "on_or_before v t = (case instant_of v of None \<Rightarrow> False | Some s \<Rightarrow> s \<le> t)"

definition reachability_outage :: "pydict \<Rightarrow> bool" where
  "reachability_outage ev =
     (get ev ''event_type'' = PStr ''AVAILABILITY'' \<and> get ev ''availability_source'' \<in> {PStr ''PING'', PStr ''ICMP''}
      \<and> (case get ev ''correlation_type'' of PNone \<Rightarrow> True | PStr c \<Rightarrow> upper c \<noteq> ''PROPAGATED'' | _ \<Rightarrow> False))"

definition by_creation :: "outage_row list \<Rightarrow> outage_row list" where
  "by_creation rows = sort_key (\<lambda>(ev, ci, c). case instant_of (get ev ''created_at'') of None \<Rightarrow> 0 | Some t \<Rightarrow> t) rows"

definition recovered_query :: "instant \<Rightarrow> outage_row list \<Rightarrow> outage_row list" where
  "recovered_query we rows = by_creation (filter (\<lambda>(ev, ci, c).
     reachability_outage ev \<and> get ev ''status'' \<noteq> PNone \<and> \<not> active ev
     \<and> on_or_before (get ev ''created_at'') we \<and> on_or_before (get ev ''recovered_at'') we) rows)"

definition active_query :: "instant \<Rightarrow> outage_row list \<Rightarrow> outage_row list" where
  "active_query we rows = by_creation (filter (\<lambda>(ev, ci, c).
     reachability_outage ev \<and> active ev \<and> on_or_before (get ev ''created_at'') we) rows)"

subsection \<open>Grouping\<close>

definition record_recovered :: "runtime \<Rightarrow> instant \<Rightarrow> instant \<Rightarrow> avail_groups \<Rightarrow> outage_row \<Rightarrow> avail_groups" where
  "record_recovered rt ws we gs row =
     (case row of (ev0, ci0, category) \<Rightarrow>
      let ev = node_to_dict rt (Some ev0); ci = node_to_dict rt (Some ci0)
      in case availability_group_key rt ev of None \<Rightarrow> gs | Some key \<Rightarrow>
        (case (parse_datetime rt (get ev ''created_at''), parse_datetime rt (get ev ''recovered_at'')) of
           (Some c, Some r) \<Rightarrow>
             if we < c \<or> r < c \<or> we < r then gs
             else let g = ensure_group gs key (get ci ''name'') (build_availability_ci_metadata rt ci category);
                      g1 = g\<lparr>ag_incidents := ag_incidents g @ [(c, r)]\<rparr>
                  in AList.update key
                       (if c < ws then g1
                        else g1\<lparr>ag_starts := ag_starts g @ [c], ag_repairs := ag_repairs g @ [r - c],
                                ag_down := ag_down g + max 0 (min r we - max c ws)\<rparr>) gs
         | _ \<Rightarrow> gs))"

definition record_active :: "runtime \<Rightarrow> instant \<Rightarrow> instant \<Rightarrow> avail_groups \<Rightarrow> outage_row \<Rightarrow> avail_groups" where
  "record_active rt ws we gs row =
     (case row of (ev0, ci0, category) \<Rightarrow>
      let ev = node_to_dict rt (Some ev0); ci = node_to_dict rt (Some ci0)
      in case availability_group_key rt ev of None \<Rightarrow> gs | Some key \<Rightarrow>
        (case parse_datetime rt (get ev ''created_at'') of None \<Rightarrow> gs | Some c \<Rightarrow>
           if we < c then gs
           else let g = ensure_group gs key (get ci ''name'') (build_availability_ci_metadata rt ci category)
                in AList.update key
                     (g\<lparr>ag_active := ag_active g + 1, ag_starts := if ws \<le> c \<and> c \<le> we then ag_starts g @ [c] else ag_starts g,
                        ag_active_down := ag_active_down g + max 0 (we - max c ws)\<rparr>) gs))"

definition group_outages :: "runtime \<Rightarrow> instant \<Rightarrow> instant \<Rightarrow> outage_row list \<Rightarrow> avail_groups" where
  "group_outages rt ws we rows =
     foldl (record_active rt ws we) (foldl (record_recovered rt ws we) [] (recovered_query we rows)) (active_query we rows)"

subsection \<open>Operating intervals\<close>

text \<open>
  One pass over the distinct outages in order, with the end of the outage that is current so far:
  an overlapping one extends it, any other closes an interval, which counts when it ends in the window.
\<close>

fun sweep :: "instant \<Rightarrow> instant option \<Rightarrow> (instant \<times> instant) list \<Rightarrow> int list" where
  "sweep ws e [] = []"
| "sweep ws None ((c, r) # xs) = sweep ws (Some r) xs"
| "sweep ws (Some e) ((c, r) # xs) =
     (if c < e then sweep ws (Some (max e r)) xs
      else (if ws \<le> c then [c - e] else []) @ sweep ws (Some r) xs)"

definition operating_intervals :: "instant \<Rightarrow> (instant \<times> instant) list \<Rightarrow> int list" where
  "operating_intervals ws incidents = sweep ws None (remdups (sort incidents))"

definition mean_seconds :: "int list \<Rightarrow> rat option" where
  "mean_seconds xs = (if xs = [] then None else Some (of_int (sum_list xs) / 1000000 / of_nat (length xs)))"

subsection \<open>Rows and report\<close>

record avail_row =
  rw_ci_id :: string
  rw_name :: pyval
  rw_type :: string
  rw_recovered :: nat
  rw_mttr :: "rat option"
  rw_mtbf :: "rat option"
  rw_down :: int
  rw_active :: nat
  rw_active_down :: int
  rw_percentage :: "rat option"
  rw_first :: "instant option"
  rw_last :: "instant option"
  rw_ci :: "pydict option"

definition availability_percentage :: "int \<Rightarrow> int \<Rightarrow> rat option" where
  "availability_percentage w down = (if 0 < w then Some (round_to 4 (max 0 (of_int (w - down) / of_int w * 100))) else None)"

definition availability_row :: "instant \<Rightarrow> instant \<Rightarrow> (string \<times> string) \<times> avail_group \<Rightarrow> avail_row" where
  "availability_row ws we kg =
     (case kg of ((ci, ty), g) \<Rightarrow> let starts = sort (ag_starts g) in
      \<lparr>rw_ci_id = ci, rw_name = ag_name g, rw_type = ty, rw_recovered = length (ag_repairs g), rw_mttr = mean_seconds (ag_repairs g),
       rw_mtbf = mean_seconds (operating_intervals ws (ag_incidents g)), rw_down = ag_down g, rw_active = ag_active g,
       rw_active_down = ag_active_down g, rw_percentage = availability_percentage (max (we - ws) 0) (ag_down g + ag_active_down g),
       rw_first = (if starts = [] then None else Some (hd starts)), rw_last = (if starts = [] then None else Some (List.last starts)),
       rw_ci = ag_ci g\<rparr>)"

definition row_order :: "runtime \<Rightarrow> avail_row \<Rightarrow> rat \<times> int \<times> int \<times> string" where
  "row_order rt r = (case rw_percentage r of None \<Rightarrow> 101 | Some p \<Rightarrow> p, - int (rw_active r), - int (rw_recovered r),
     text_of rt (por (rw_name r) (PStr (rw_ci_id r))))"

subsection \<open>SNMP coverage and the items behind it\<close>

text \<open>A monitored item: its node, its metrics, its events and the name of its category.\<close>

record snmp_item =
  si_ci :: pydict
  si_metrics :: "pydict list"
  si_events :: "pydict list"
  si_category :: pyval

definition has_snmp :: "snmp_item \<Rightarrow> bool" where
  "has_snmp i = list_ex (\<lambda>m. case get m ''protocol'' of PStr p \<Rightarrow> upper p = ''SNMP'' | _ \<Rightarrow> False) (si_metrics i)"

definition no_response :: "pydict \<Rightarrow> bool" where
  "no_response ev =
     (active ev \<and> get ev ''event_type'' = PStr ''COLLECTION_FAILURE''
      \<and> (case get ev ''source_protocol'' of PStr p \<Rightarrow> upper p = ''SNMP'' | _ \<Rightarrow> False)
      \<and> get ev ''failure_family'' = PStr ''SNMP_NO_RESPONSE'')"

definition no_response_events :: "snmp_item \<Rightarrow> pydict list" where
  "no_response_events i = filter no_response (si_events i)"

record snmp_coverage =
  sc_total :: nat
  sc_functional :: nat
  sc_failing :: nat
  sc_no_response :: nat
  sc_events :: nat
  sc_functional_pct :: "rat option"
  sc_failing_pct :: "rat option"

definition build_snmp_coverage_summary :: "snmp_item list \<Rightarrow> snmp_coverage" where
  "build_snmp_coverage_summary items =
     (let monitored = filter has_snmp items;
          n = length monitored;
          ok = length (filter (\<lambda>i. no_response_events i = []) monitored);
          bad = length (filter (\<lambda>i. no_response_events i \<noteq> []) monitored);
          share = (\<lambda>k. if 0 < n then Some (round_to 4 (of_nat k / of_nat n * 100)) else None)
      in \<lparr>sc_total = n, sc_functional = ok, sc_failing = bad, sc_no_response = bad,
          sc_events = sum_list (map (\<lambda>i. length (no_response_events i)) monitored),
          sc_functional_pct = share ok, sc_failing_pct = share bad\<rparr>)"

definition isoformat_or_none :: "runtime \<Rightarrow> pyval \<Rightarrow> pyval" where
  "isoformat_or_none rt v =
     (case parse_datetime rt v of Some t \<Rightarrow> PStr (rt_iso rt t)
      | None \<Rightarrow> if v = PNone then PNone else PStr (text_of rt v))"

definition snmp_no_response_event_summary :: "runtime \<Rightarrow> pydict \<Rightarrow> pydict" where
  "snmp_no_response_event_summary rt ev =
     clean_dict [(''id'', get ev ''id''), (''message'', get ev ''message''), (''status'', get ev ''status''),
       (''created_at'', isoformat_or_none rt (get ev ''created_at'')), (''last_seen'', isoformat_or_none rt (get ev ''last_seen''))]"

text \<open>The newest creation time of the events of an item; \<open>max\<close> of Cypher ignores nulls.\<close>

definition latest_event_at :: "pydict list \<Rightarrow> pyval" where
  "latest_event_at evs =
     (case List.map_filter (\<lambda>ev. instant_of (get ev ''created_at'')) evs of [] \<Rightarrow> PNone | t # ts \<Rightarrow> PTime (fold max ts t))"

definition drill_row :: "runtime \<Rightarrow> snmp_item \<Rightarrow> pydict" where
  "drill_row rt i =
     (let ci = node_to_dict rt (Some (si_ci i)); evs = sort_key newest_first (no_response_events i) in
      clean_dict [(''ci_id'', get ci ''id''), (''ci_name'', por (get ci ''name'') (get ci ''label'')), (''category'', si_category i),
        (''status'', get ci ''status''), (''ip'', get ci ''ip''), (''owner'', get ci ''owner''), (''brand'', get ci ''brand''),
        (''model'', get ci ''model''), (''event_count'', PInt (int (length evs))),
        (''latest_event_at'', isoformat_or_none rt (latest_event_at evs)),
        (''events'', PList (map (\<lambda>ev. PDict (snmp_no_response_event_summary rt (node_to_dict rt (Some ev)))) (take 5 evs)))])"

text \<open>\<open>ORDER BY event_count DESC, latest_event_at DESC, coalesce(ci.name, ci.label, ci.id) ASC\<close>; a null name comes last.\<close>

definition drill_order :: "snmp_item \<Rightarrow> int \<times> (bool \<times> int) \<times> bool \<times> string" where
  "drill_order i =
     (let evs = no_response_events i; ci = si_ci i;
          name = (if get ci ''name'' \<noteq> PNone then get ci ''name'' else if get ci ''label'' \<noteq> PNone then get ci ''label'' else get ci ''id'')
      in (- int (length evs), newest_first [(''created_at'', latest_event_at evs)], case name of PStr s \<Rightarrow> (False, s) | _ \<Rightarrow> (True, [])))"

record drilldown =
  dd_limit :: nat
  dd_offset :: nat
  dd_items :: nat
  dd_events :: nat
  dd_rows :: "pydict list"

definition safe_limit :: "int \<Rightarrow> nat" where
  "safe_limit l = nat (max 1 (min (if l = 0 then 25 else l) 100))"

definition failing_items :: "snmp_item list \<Rightarrow> snmp_item list" where
  "failing_items items = filter (\<lambda>i. has_snmp i \<and> no_response_events i \<noteq> []) items"

definition get_availability_snmp_no_response_drilldown :: "runtime \<Rightarrow> int \<Rightarrow> int \<Rightarrow> snmp_item list \<Rightarrow> drilldown" where
  "get_availability_snmp_no_response_drilldown rt l off items =
     \<lparr>dd_limit = safe_limit l, dd_offset = nat (max 0 off), dd_items = length (failing_items items),
      dd_events = sum_list (map (\<lambda>i. length (no_response_events i)) (failing_items items)),
      dd_rows = map (drill_row rt) (take (safe_limit l) (drop (nat (max 0 off)) (sort_key drill_order (failing_items items))))\<rparr>"

subsection \<open>The report\<close>

record avail_report =
  rp_start :: instant
  rp_end :: instant
  rp_generated :: instant
  rp_days :: rat
  rp_total :: nat
  rp_coverage :: snmp_coverage
  rp_rows :: "avail_row list"

definition get_availability_report ::
  "runtime \<Rightarrow> instant option \<Rightarrow> instant option \<Rightarrow> instant \<Rightarrow> outage_row list \<Rightarrow> snmp_item list \<Rightarrow> avail_report result" where
  "get_availability_report rt start stop now outages items =
     bindR (resolve_availability_window start stop now) (\<lambda>(ws, we).
       let rows = map (availability_row ws we) (group_outages rt ws we outages) in Inr
       \<lparr>rp_start = ws, rp_end = we, rp_generated = now, rp_days = round_to 4 (of_int (we - ws) / 1000000 / 86400),
        rp_total = length rows, rp_coverage = build_snmp_coverage_summary items, rp_rows = sort_key (row_order rt) rows\<rparr>)"

subsection \<open>Groups hold ordered durations\<close>

definition sound_group :: "avail_group \<Rightarrow> bool" where
  "sound_group g = (list_all (\<lambda>(c, r). c \<le> r) (ag_incidents g) \<and> list_all (\<lambda>d. 0 \<le> d) (ag_repairs g)
     \<and> 0 \<le> ag_down g \<and> 0 \<le> ag_active_down g)"

abbreviation sound_groups :: "avail_groups \<Rightarrow> bool" where
  "sound_groups gs \<equiv> list_all (\<lambda>(k, g). sound_group g) gs"

lemma sound_update: "sound_groups gs \<Longrightarrow> sound_group g \<Longrightarrow> sound_groups (AList.update k g gs)"
  by (induction gs) auto

lemma sound_ensure:
  assumes "sound_groups gs"
  shows "sound_group (ensure_group gs k n m)"
proof (cases "map_of gs k")
  case (Some g)
  then have "(k, g) \<in> set gs" by (rule map_of_SomeD)
  with assms Some show ?thesis by (auto simp: ensure_group_def sound_group_def list_all_iff)
qed (simp add: ensure_group_def sound_group_def new_group_def)

lemma sound_grown:
  assumes "sound_group g"
  shows "c \<le> r \<Longrightarrow> sound_group (g\<lparr>ag_incidents := ag_incidents g @ [(c, r)]\<rparr>)"
    "c \<le> r \<Longrightarrow> 0 \<le> d \<Longrightarrow> sound_group (g\<lparr>ag_incidents := ag_incidents g @ [(c, r)], ag_starts := ss,
       ag_repairs := ag_repairs g @ [r - c], ag_down := ag_down g + d\<rparr>)"
    "0 \<le> d \<Longrightarrow> sound_group (g\<lparr>ag_active := n, ag_starts := ss, ag_active_down := ag_active_down g + d\<rparr>)"
    "0 \<le> d \<Longrightarrow> sound_group (g\<lparr>ag_active := n, ag_active_down := ag_active_down g + d\<rparr>)"
  using assms by (simp_all add: sound_group_def)

lemma sound_recovered: "sound_groups gs \<Longrightarrow> sound_groups (record_recovered rt ws we gs row)"
  by (auto simp: record_recovered_def Let_def intro!: sound_update sound_grown sound_ensure split: prod.split option.split)

lemma sound_active: "sound_groups gs \<Longrightarrow> sound_groups (record_active rt ws we gs row)"
  by (auto simp: record_active_def Let_def intro!: sound_update sound_grown sound_ensure split: prod.split option.split)

lemma sound_outages: "sound_groups (group_outages rt ws we rows)"
proof -
  have "sound_groups gs \<Longrightarrow> sound_groups (foldl (record_recovered rt ws we) gs xs)" for gs xs
    by (induction xs arbitrary: gs) (simp_all add: sound_recovered)
  moreover have "sound_groups gs \<Longrightarrow> sound_groups (foldl (record_active rt ws we) gs xs)" for gs xs
    by (induction xs arbitrary: gs) (simp_all add: sound_active)
  ultimately show ?thesis by (simp add: group_outages_def)
qed

subsection \<open>Bounds of the report\<close>

lemma sweep_nonneg: "list_all (\<lambda>d. 0 \<le> d) (sweep ws e xs)"
  by (induction ws e xs rule: sweep.induct) auto

lemma mean_nonneg: "list_all (\<lambda>d. 0 \<le> d) xs \<Longrightarrow> pred_option (\<lambda>x. 0 \<le> x) (mean_seconds xs)"
  by (auto simp: mean_seconds_def list_all_iff intro!: divide_nonneg_nonneg sum_list_nonneg)

lemma percentage_bounds:
  assumes "0 \<le> down"
  shows "pred_option (\<lambda>x. 0 \<le> x \<and> x \<le> 100) (availability_percentage w down)"
proof (cases "0 < w")
  case True
  let ?x = "max 0 (of_int (w - down) / of_int w * 100) :: rat"
  have "(of_int (w - down) :: rat) \<le> of_int w" using assms by simp
  then have "(of_int (w - down) / of_int w :: rat) \<le> 1" using True by (simp add: pos_divide_le_eq)
  then have "of_int (w - down) / of_int w * 100 \<le> (1 * 100 :: rat)" by (rule mult_right_mono) simp
  then have x: "of_int 0 \<le> ?x" "?x \<le> of_int 100" by (simp, intro max.boundedI) simp_all
  have "0 \<le> round_to 4 ?x" "round_to 4 ?x \<le> 100"
    using round_to_bounds [OF x, of 4] by simp_all
  with True show ?thesis by (simp add: availability_percentage_def)
qed (simp add: availability_percentage_def)

lemma row_bounds:
  assumes "sound_group g"
  shows "0 \<le> rw_down (availability_row ws we (k, g))" "0 \<le> rw_active_down (availability_row ws we (k, g))"
    "pred_option (\<lambda>x. 0 \<le> x) (rw_mttr (availability_row ws we (k, g)))"
    "pred_option (\<lambda>x. 0 \<le> x) (rw_mtbf (availability_row ws we (k, g)))"
    "pred_option (\<lambda>x. 0 \<le> x \<and> x \<le> 100) (rw_percentage (availability_row ws we (k, g)))"
  using assms
  by (simp_all add: availability_row_def sound_group_def operating_intervals_def mean_nonneg sweep_nonneg percentage_bounds
      Let_def split: prod.splits)

text \<open>
  C30: A report of any events either refuses a window that ends before it starts, or shows only rows
  with availability between 0 and 100 percent and no negative downtime, repair time or operating
  interval, each row with a percentage exactly when the window is not empty.
\<close>

theorem report_in_bounds:
  "case get_availability_report rt start stop now outages items of
     Inl e \<Rightarrow> e = HttpError 400 ''start must be before end'' \<and> resolve_availability_window start stop now = Inl e
   | Inr rep \<Rightarrow> rp_start rep \<le> rp_end rep \<and> rp_total rep = length (rp_rows rep) \<and>
       list_all (\<lambda>r. 0 \<le> rw_down r \<and> 0 \<le> rw_active_down r \<and> pred_option (\<lambda>x. 0 \<le> x) (rw_mttr r)
         \<and> pred_option (\<lambda>x. 0 \<le> x) (rw_mtbf r) \<and> pred_option (\<lambda>x. 0 \<le> x \<and> x \<le> 100) (rw_percentage r)
         \<and> (rw_percentage r = None) = (rp_start rep = rp_end rep)) (rp_rows rep)"
proof (cases "resolve_availability_window start stop now")
  case (Inl e)
  then have "e = HttpError 400 ''start must be before end''"
    by (auto simp: resolve_availability_window_def Let_def split: if_splits)
  with Inl show ?thesis by (simp add: get_availability_report_def)
next
  case (Inr p)
  obtain ws we where p: "p = (ws, we)" by (cases p)
  with Inr have le: "ws \<le> we"
    by (auto simp: resolve_availability_window_def Let_def split: if_splits)
  let ?gs = "group_outages rt ws we outages"
  have "(rw_percentage (availability_row ws we (k, g)) = None) = (ws = we)" for k g
    using le by (cases k) (auto simp: availability_row_def availability_percentage_def Let_def)
  with row_bounds sound_outages [of rt ws we outages] Inr p le show ?thesis
    by (auto simp: get_availability_report_def Let_def list_all_iff set_sort)
qed

subsection \<open>What the mean time between failures measures\<close>

text \<open>
  Independently of the pass over the sorted outages: the instants at which some outage is over,
  another is still to come, none is going on, and the next ones all start in the window.
\<close>

definition operating :: "instant \<Rightarrow> (instant \<times> instant) list \<Rightarrow> instant set" where
  "operating ws xs = {t. (\<exists>(c, r) \<in> set xs. r \<le> t) \<and> (\<exists>(c, r) \<in> set xs. t < c)
     \<and> (\<forall>(c, r) \<in> set xs. \<not> (c \<le> t \<and> t < r)) \<and> (\<forall>(c, r) \<in> set xs. t < c \<longrightarrow> ws \<le> c)}"

definition free_after :: "instant \<Rightarrow> instant \<Rightarrow> (instant \<times> instant) list \<Rightarrow> instant set" where
  "free_after ws e xs = {t. e \<le> t \<and> (\<exists>(c, r) \<in> set xs. t < c)
     \<and> (\<forall>(c, r) \<in> set xs. \<not> (c \<le> t \<and> t < r)) \<and> (\<forall>(c, r) \<in> set xs. t < c \<longrightarrow> ws \<le> c)}"

lemma free_overlap:
  assumes "c < e" "c \<le> r"
  shows "free_after ws e ((c, r) # xs) = free_after ws (max e r) xs"
  using assms by (fastforce simp: free_after_def)

lemma free_gap:
  assumes "e \<le> c" "c \<le> r" "list_all (\<lambda>(c', r'). c \<le> c') xs"
  shows "free_after ws e ((c, r) # xs) = (if ws \<le> c then {e..<c} else {}) \<union> free_after ws r xs"
proof (rule set_eqI)
  fix t
  have later: "c \<le> c'" if "(c', r') \<in> set xs" for c' r'
    using assms(3) that by (auto simp: list_all_iff)
  show "t \<in> free_after ws e ((c, r) # xs) \<longleftrightarrow> t \<in> (if ws \<le> c then {e..<c} else {}) \<union> free_after ws r xs"
  proof (cases "t < c")
    case True
    then have ahead: "\<not> c' \<le> t" "ws \<le> c \<Longrightarrow> ws \<le> c'" if "(c', r') \<in> set xs" for c' r'
      using later [OF that] by linarith+
    have "t \<in> free_after ws e ((c, r) # xs) \<longleftrightarrow> e \<le> t \<and> ws \<le> c"
      using True by (auto simp: free_after_def dest: ahead)
    moreover have "t \<notin> free_after ws r xs" using True assms(2) by (simp add: free_after_def)
    ultimately show ?thesis using True by auto
  next
    case False
    with assms(1, 2) show ?thesis by (auto simp: free_after_def)
  qed
qed

lemma sweep_measures:
  assumes "sorted (map fst xs)" "list_all (\<lambda>(c, r). c \<le> r) xs"
  shows "finite (free_after ws e xs) \<and> int (card (free_after ws e xs)) = sum_list (sweep ws (Some e) xs)"
  using assms
proof (induction xs arbitrary: e)
  case (Cons x xs)
  obtain c r where x: "x = (c, r)" by (cases x)
  from Cons.prems x have valid: "c \<le> r" and later: "list_all (\<lambda>(c', r'). c \<le> c') xs" and rest: "sorted (map fst xs)" "list_all (\<lambda>(c, r). c \<le> r) xs"
    by (auto simp: list_all_iff)
  show ?case
  proof (cases "c < e")
    case True
    with Cons.IH [OF rest] valid x show ?thesis by (simp add: free_overlap)
  next
    case False
    then have gap: "free_after ws e (x # xs) = (if ws \<le> c then {e..<c} else {}) \<union> free_after ws r xs"
      unfolding x using valid later by (intro free_gap) auto
    have apart: "(if ws \<le> c then {e..<c} else {}) \<inter> free_after ws r xs = {}"
      using valid by (auto simp: free_after_def)
    from Cons.IH [OF rest, of r] False show ?thesis
      unfolding gap by (subst card_Un_disjoint) (use apart in \<open>auto simp: x\<close>)
  qed
qed (simp add: free_after_def)

lemma operating_first:
  assumes "list_all (\<lambda>(c', r'). c \<le> c' \<and> c' \<le> r') xs" "c \<le> r"
  shows "operating ws ((c, r) # xs) = free_after ws r xs"
  using assms by (fastforce simp: operating_def free_after_def list_all_iff)

lemma sorted_starts: "sorted xs \<Longrightarrow> sorted (map fst (xs :: (instant \<times> instant) list))"
  by (induction xs) (auto simp: less_eq_prod_def)

lemma intervals_measure:
  assumes "list_all (\<lambda>(c, r). c \<le> r) xs"
  shows "finite (operating ws xs) \<and> int (card (operating ws xs)) = sum_list (operating_intervals ws xs)"
proof -
  define ys where "ys = remdups (sort xs)"
  have ys: "set ys = set xs" "sorted (map fst ys)"
    by (simp_all add: ys_def sorted_remdups sorted_starts)
  then have valid: "list_all (\<lambda>(c, r). c \<le> r) ys" using assms by (simp add: list_all_iff)
  have same: "operating ws xs = operating ws ys" by (simp add: operating_def ys(1))
  show ?thesis
  proof (cases ys)
    case (Cons y zs)
    obtain c r where y: "y = (c, r)" by (cases y)
    have "operating ws ys = free_after ws r zs"
      unfolding Cons y by (rule operating_first) (use ys(2) valid Cons y in \<open>auto simp: list_all_iff\<close>)
    moreover have "operating_intervals ws xs = sweep ws (Some r) zs"
      by (simp add: operating_intervals_def Cons y flip: ys_def)
    moreover note sweep_measures [of zs ws r]
    ultimately show ?thesis using ys(2) valid Cons by (simp add: same)
  next
    case Nil
    with ys(1) have "xs = []" by simp
    then show ?thesis by (simp add: operating_def operating_intervals_def)
  qed
qed

lemma intervals_none: "list_all (\<lambda>(c, r). c \<le> r) xs \<Longrightarrow> operating_intervals ws xs = [] \<Longrightarrow> operating ws xs = {}"
  using intervals_measure [of xs ws] card_0_eq by auto

text \<open>
  C31: The mean time between failures of every row is the time the item really operated between its
  reachability outages, overlapping and repeated outages counted once, divided by the number of its
  intervals; without an interval there was no such time.
\<close>

theorem mtbf_is_operating_time:
  "list_all (\<lambda>(k, g). finite (operating ws (ag_incidents g)) \<and>
     (case rw_mtbf (availability_row ws we (k, g)) of
        None \<Rightarrow> operating ws (ag_incidents g) = {}
      | Some m \<Rightarrow> operating_intervals ws (ag_incidents g) \<noteq> [] \<and>
          m * of_nat (length (operating_intervals ws (ag_incidents g))) = of_nat (card (operating ws (ag_incidents g))) / 1000000))
     (group_outages rt ws we rows)"
proof -
  have "finite (operating ws (ag_incidents g)) \<and>
     (case rw_mtbf (availability_row ws we (k, g)) of
        None \<Rightarrow> operating ws (ag_incidents g) = {}
      | Some m \<Rightarrow> operating_intervals ws (ag_incidents g) \<noteq> [] \<and>
          m * of_nat (length (operating_intervals ws (ag_incidents g))) = of_nat (card (operating ws (ag_incidents g))) / 1000000)"
    if "sound_group g" for k g
  proof -
    from that have v: "list_all (\<lambda>(c, r). c \<le> r) (ag_incidents g)" by (simp add: sound_group_def)
    have "(of_int (sum_list (operating_intervals ws (ag_incidents g))) :: rat) = of_nat (card (operating ws (ag_incidents g)))"
      by (simp flip: conjunct2 [OF intervals_measure [OF v]])
    with intervals_measure [OF v, of ws] intervals_none [OF v, of ws] show ?thesis
      by (cases k) (auto simp: availability_row_def mean_seconds_def Let_def)
  qed
  with sound_outages [of rt ws we rows] show ?thesis by (auto simp: list_all_iff)
qed

subsection \<open>Outages that began before the window\<close>

definition outage_event :: "string \<Rightarrow> instant \<Rightarrow> pyval \<Rightarrow> pydict" where
  "outage_event status c recovered =
     [(''ci_id'', PStr ''CI-1''), (''event_type'', PStr ''AVAILABILITY''), (''availability_source'', PStr ''PING''),
      (''status'', PStr status), (''created_at'', PTime c), (''recovered_at'', recovered)]"

definition router :: pydict where
  "router = [(''id'', PStr ''CI-1''), (''name'', PStr ''Router'')]"

text \<open>
  C32: Downtime that ended is forgotten: for an outage that began before the window and recovered in
  it, however late, the report shows no downtime and 100 percent; had the item stayed down it would
  show the whole window as downtime and 0 percent.
\<close>

theorem ended_outage_is_free:
  assumes "c < ws" "ws \<le> r" "r \<le> we" "ws < we"
    and "rt_parse_iso rt (zulu_offset (rt_iso rt c)) = Some c" "rt_parse_iso rt (zulu_offset (rt_iso rt r)) = Some r"
  shows "map_sum id (\<lambda>rep. map (\<lambda>w. (rw_down w + rw_active_down w, rw_percentage w)) (rp_rows rep))
      (get_availability_report rt (Some ws) (Some we) now [(outage_event ''RECOVERED'' c (PTime r), router, PNone)] items) = Inr [(0, Some 100)] \<and>
    map_sum id (\<lambda>rep. map (\<lambda>w. (rw_down w + rw_active_down w, rw_percentage w)) (rp_rows rep))
      (get_availability_report rt (Some ws) (Some we) now [(outage_event ''OPEN'' c PNone, router, PNone)] items) = Inr [(we - ws, Some 0)]"
proof -
  have upper: "upper_char CHR ''A'' = CHR ''A''" "upper_char CHR ''V'' = CHR ''V''" "upper_char CHR ''I'' = CHR ''I''" "upper_char CHR ''L'' = CHR ''L''" "upper_char CHR ''B'' = CHR ''B''" "upper_char CHR ''T'' = CHR ''T''" "upper_char CHR ''Y'' = CHR ''Y''" "upper_char CHR ''P'' = CHR ''P''" "upper_char CHR ''N'' = CHR ''N''" "upper_char CHR ''G'' = CHR ''G''" "upper_char CHR ''R'' = CHR ''R''" "upper_char CHR ''O'' = CHR ''O''" "upper_char CHR ''E'' = CHR ''E''"
    by code_simp+
  have hundred: "availability_percentage (we - ws) 0 = Some 100" "availability_percentage (we - ws) (we - ws) = Some 0"
    using assms(4) by (simp_all add: availability_percentage_def round_to_def round_half_even_def)
  have key: "availability_group_key rt (node_to_dict rt (Some (outage_event s c v))) = Some (''CI-1'', ''AVAILABILITY'')" for s v
    using upper by (simp add: availability_group_key_def is_authoritative_availability_event_def node_to_dict_def serialize_value_def
        outage_event_def get_def dict_get_def por_def)
  have times: "parse_datetime rt (get (node_to_dict rt (Some (outage_event s c v))) ''created_at'') = Some c"
    "parse_datetime rt (get (node_to_dict rt (Some (outage_event s c (PTime r)))) ''recovered_at'') = Some r" for s v
    using assms(5, 6) by (simp_all add: node_to_dict_def serialize_value_def outage_event_def get_def dict_get_def parse_datetime_def)
  let ?over = "(outage_event ''RECOVERED'' c (PTime r), router, PNone)" and ?on = "(outage_event ''OPEN'' c PNone, router, PNone)"
  have queries: "recovered_query we [?over] = [?over]" "active_query we [?over] = []" "recovered_query we [?on] = []" "active_query we [?on] = [?on]"
    using assms(1-4)
    by (simp_all add: recovered_query_def active_query_def by_creation_def reachability_outage_def on_or_before_def instant_of_def
        active_def outage_event_def get_def dict_get_def)
  have over: "map (\<lambda>w. (rw_down w + rw_active_down w, rw_percentage w)) (map (availability_row ws we) (group_outages rt ws we [?over])) = [(0, Some 100)]"
    using assms(1-4) hundred
    by (simp add: group_outages_def queries record_recovered_def key times ensure_group_def new_group_def availability_row_def Let_def)
  have on: "map (\<lambda>w. (rw_down w + rw_active_down w, rw_percentage w)) (map (availability_row ws we) (group_outages rt ws we [?on])) = [(we - ws, Some 0)]"
    using assms(1-4) hundred
    by (simp add: group_outages_def queries record_active_def key times ensure_group_def new_group_def availability_row_def Let_def)
  show ?thesis
    using over on assms(4)
    by (auto simp: get_availability_report_def resolve_availability_window_def Let_def map_eq_Cons_conv simp del: map_map)
qed

definition two_times :: runtime where
  "two_times = \<lparr>rt_fmt = (\<lambda>v. []), rt_sha = id, rt_uuid5 = id, rt_iso = (\<lambda>t. if t = 5 then ''five'' else ''fifteen''),
     rt_parse_iso = (\<lambda>s. if s = ''five'' then Some 5 else if s = ''fifteen'' then Some 15 else None)\<rparr>"

theorem ended_outage_is_free_witness:
  "map_sum id (\<lambda>rep. map (\<lambda>w. (rw_down w + rw_active_down w, rw_percentage w)) (rp_rows rep))
      (get_availability_report two_times (Some 10) (Some 16) 20 [(outage_event ''RECOVERED'' 5 (PTime 15), router, PNone)] []) = Inr [(0, Some 100)] \<and>
    map_sum id (\<lambda>rep. map (\<lambda>w. (rw_down w + rw_active_down w, rw_percentage w)) (rp_rows rep))
      (get_availability_report two_times (Some 10) (Some 16) 20 [(outage_event ''OPEN'' 5 PNone, router, PNone)] []) = Inr [(16 - 10, Some 0)]"
proof (rule ended_outage_is_free)
  show "rt_parse_iso two_times (zulu_offset (rt_iso two_times 5)) = Some 5" by code_simp
  show "rt_parse_iso two_times (zulu_offset (rt_iso two_times 15)) = Some 15" by code_simp
qed simp_all

subsection \<open>Coverage and drilldown\<close>

lemma pages_of_list: "concat (map (\<lambda>k. take l (drop (k * l) xs)) [0..<n]) = take (n * l) xs"
proof (induction n)
  case (Suc n)
  have "take (n * l) xs @ take l (drop (n * l) xs) = take (n * l + l) xs" by (simp add: take_add)
  with Suc show ?case by (simp add: add.commute)
qed simp

lemma sum_filter: "sum_list (map f (filter P xs)) = sum_list (map f xs)" if "list_all (\<lambda>x. P x \<or> f x = (0::nat)) xs"
  using that by (induction xs) auto

lemma failing_monitored: "failing_items items = filter (\<lambda>i. no_response_events i \<noteq> []) (filter has_snmp items)"
  by (simp add: failing_items_def conj_commute)

lemma failing_events:
  "sum_list (map (\<lambda>i. length (no_response_events i)) (failing_items items)) = sc_events (build_snmp_coverage_summary items)"
  unfolding failing_monitored by (subst sum_filter) (auto simp: build_snmp_coverage_summary_def Let_def list_all_iff)

lemma get_clean: "distinct (map fst d) \<Longrightarrow> get (clean_dict d) k = get d k"
  by (simp add: get_def dict_get_def clean_map_of split: option.split)

lemma get_node: "get (node_to_dict rt (Some d)) k = serialize_value rt (get d k)"
proof -
  have "serialize_value rt PNone = PNone" by (simp add: serialize_value_def)
  then show ?thesis by (cases "map_of d k") (simp_all add: node_to_dict_def get_def dict_get_def map_of_map)
qed

lemma drill_row_id: "get (drill_row rt i) ''ci_id'' = serialize_value rt (get (si_ci i) ''id'')"
  unfolding drill_row_def Let_def by (subst get_clean) (simp_all add: get_node)

text \<open>
  The drilldown explains the coverage: its totals are the numbers of failing items and of their
  events in the report, the report's two kinds of items make up all of them, and the pages of any
  size from 1 to 100 together list every failing item once.
\<close>

theorem drilldown_explains_coverage:
  assumes "1 \<le> l" "l \<le> 100" "sc_failing (build_snmp_coverage_summary items) \<le> n * l"
  shows "sc_functional (build_snmp_coverage_summary items) + sc_failing (build_snmp_coverage_summary items) = sc_total (build_snmp_coverage_summary items) \<and>
    dd_items (get_availability_snmp_no_response_drilldown rt (int l) off items) = sc_failing (build_snmp_coverage_summary items) \<and>
    dd_events (get_availability_snmp_no_response_drilldown rt (int l) off items) = sc_events (build_snmp_coverage_summary items) \<and>
    mset (map (\<lambda>r. get r ''ci_id'') (concat (map (\<lambda>k. dd_rows (get_availability_snmp_no_response_drilldown rt (int l) (int (k * l)) items)) [0..<n])))
      = image_mset (\<lambda>i. serialize_value rt (get (si_ci i) ''id'')) (mset (failing_items items))"
proof -
  have failing: "sc_failing (build_snmp_coverage_summary items) = length (failing_items items)"
    by (simp add: build_snmp_coverage_summary_def failing_monitored Let_def)
  have total: "sc_functional (build_snmp_coverage_summary items) + sc_failing (build_snmp_coverage_summary items) = sc_total (build_snmp_coverage_summary items)"
    using sum_length_filter_compl [of "\<lambda>i. no_response_events i = []" "filter has_snmp items"]
    by (simp add: build_snmp_coverage_summary_def Let_def)
  have l: "safe_limit (int l) = l" using assms(1, 2) by (simp add: safe_limit_def)
  let ?xs = "sort_key drill_order (failing_items items)"
  have page: "dd_rows (get_availability_snmp_no_response_drilldown rt (int l) (int (k * l)) items) = map (drill_row rt) (take l (drop (k * l) ?xs))" for k
    unfolding get_availability_snmp_no_response_drilldown_def l by (simp del: of_nat_mult)
  have "concat (map (\<lambda>k. map (drill_row rt) (take l (drop (k * l) ?xs))) [0..<n]) = map (drill_row rt) (take (n * l) ?xs)"
    unfolding pages_of_list [symmetric] map_concat map_map comp_def ..
  also have "take (n * l) ?xs = ?xs" using assms(3) failing by simp
  finally have "concat (map (\<lambda>k. dd_rows (get_availability_snmp_no_response_drilldown rt (int l) (int (k * l)) items)) [0..<n]) = map (drill_row rt) ?xs"
    by (simp only: page)
  moreover have "mset (map (\<lambda>i. serialize_value rt (get (si_ci i) ''id'')) ?xs) = image_mset (\<lambda>i. serialize_value rt (get (si_ci i) ''id'')) (mset (failing_items items))"
    by simp
  ultimately show ?thesis
    using total failing failing_events [of items] by (simp add: get_availability_snmp_no_response_drilldown_def drill_row_id comp_def)
qed

definition silent_item :: "string \<Rightarrow> snmp_item" where
  "silent_item i = \<lparr>si_ci = [(''id'', PStr i)], si_metrics = [[(''protocol'', PStr ''snmp'')]],
     si_events = [[(''status'', PStr ''OPEN''), (''event_type'', PStr ''COLLECTION_FAILURE''), (''source_protocol'', PStr ''SNMP''),
       (''failure_family'', PStr ''SNMP_NO_RESPONSE'')]], si_category = PNone\<rparr>"

theorem drilldown_explains_coverage_witness:
  "dd_items (get_availability_snmp_no_response_drilldown demo_rt (int 1) 0 [silent_item ''a'', silent_item ''b'']) = 2 \<and>
   mset (map (\<lambda>r. get r ''ci_id'') (concat (map (\<lambda>k. dd_rows (get_availability_snmp_no_response_drilldown demo_rt (int 1) (int (k * 1))
      [silent_item ''a'', silent_item ''b''])) [0..<2]))) = {#PStr ''a'', PStr ''b''#}"
proof -
  have two: "sc_failing (build_snmp_coverage_summary [silent_item ''a'', silent_item ''b'']) = 2" by code_simp
  have failing: "failing_items [silent_item ''a'', silent_item ''b''] = [silent_item ''a'', silent_item ''b'']"
  proof -
    have "has_snmp (silent_item i)" "no_response_events (silent_item i) \<noteq> []" for i
      by (simp_all add: has_snmp_def silent_item_def no_response_events_def no_response_def active_def get_def dict_get_def) (code_simp+)
    then show ?thesis by (simp add: failing_items_def)
  qed
  show ?thesis
    using drilldown_explains_coverage [of 1 "[silent_item ''a'', silent_item ''b'']" 2 demo_rt 0] two failing
    by (simp add: silent_item_def get_def dict_get_def serialize_value_def)
qed

end
