(* ===== verification/Event_Locks.thy ===== *)
theory Event_Locks
  imports Event_Rows
begin

section \<open>Advisory locks around event writes (services/event_lock.py, polling/event_writer.py)\<close>

text \<open>
  A writer takes a PostgreSQL advisory lock per \<open>(CI, metric, event type)\<close> before it touches the
  events of a batch and holds them until its transaction ends. First the order in which a batch
  takes its locks and what it implies for writers that run at the same time, then the metrics
  kept about the waits.
\<close>

type_synonym triplet = "string \<times> string \<times> string"

definition lock_key :: "triplet \<Rightarrow> string" where
  "lock_key t = (case t of (ci, metric, kind) \<Rightarrow> ci @ ''|'' @ metric @ ''|'' @ kind)"

text \<open>CI ids are text; a row that lacks one of the three parts takes no lock.\<close>

definition triplet_of :: "event_row \<Rightarrow> triplet option" where
  "triplet_of r =
     (case (er_ci r, er_type r) of
        (PStr ci, Some kind) \<Rightarrow>
          if ci \<noteq> [] \<and> er_metric r \<noteq> [] \<and> kind \<noteq> [] then Some (ci, er_metric r, kind) else None
      | _ \<Rightarrow> None)"

definition sorted_triplets :: "event_row list \<Rightarrow> triplet list" where
  "sorted_triplets rows = sort (remdups (List.map_filter triplet_of rows))"

text \<open>
  The locks of one \<open>batch_update_events\<close> call, in order: those of the collection failures, then
  those of the other events, in one transaction.
\<close>

definition batch_lock_sequence :: "runtime \<Rightarrow> event_row list \<Rightarrow> triplet list" where
  "batch_lock_sequence rt rows =
     sorted_triplets (collection_failure_event_rows rows) @
     sorted_triplets (non_collection_event_rows rt (dedupe_non_collection_latest_state rt rows))"

definition lock_rank :: "triplet \<Rightarrow> bool \<times> triplet" where
  "lock_rank t = (snd (snd t) \<noteq> ''COLLECTION_FAILURE'', t)"

lemma set_sorted_triplets: "t \<in> set (sorted_triplets rows) \<longleftrightarrow> (\<exists>r \<in> set rows. triplet_of r = Some t)"
proof -
  have "(triplet_of r \<noteq> None \<and> t = the (triplet_of r)) = (triplet_of r = Some t)" for r
    by (cases "triplet_of r") (auto simp del: split_paired_Ex)
  then show ?thesis
    by (simp add: sorted_triplets_def List.map_filter_def image_iff Bex_def conj_assoc
        del: not_None_eq split_paired_Ex)
qed

lemma triplet_kind: "triplet_of r = Some t \<Longrightarrow> er_type r = Some (snd (snd t))"
  by (auto simp: triplet_of_def split: pyval.splits option.splits if_splits)

lemma sorted_triplets_strict:
  "\<forall>t \<in> set (sorted_triplets rows). (snd (snd t) \<noteq> ''COLLECTION_FAILURE'') = b \<Longrightarrow>
     sorted_wrt (\<lambda>a b. lock_rank a < lock_rank b) (sorted_triplets rows)"
proof -
  assume same: "\<forall>t \<in> set (sorted_triplets rows). (snd (snd t) \<noteq> ''COLLECTION_FAILURE'') = b"
  have "sorted_wrt (<) (sorted_triplets rows)"
    by (simp add: sorted_triplets_def strict_sorted_iff)
  then show ?thesis
    by (rule sorted_wrt_mono_rel [rotated]) (use same in \<open>simp add: lock_rank_def less_prod_def\<close>)
qed

lemma failure_row_types:
  "r \<in> set (collection_failure_event_rows rows) \<Longrightarrow> er_type r = Some ''COLLECTION_FAILURE''"
proof -
  assume "r \<in> set (collection_failure_event_rows rows)"
  then obtain k where "(k, r) \<in> set (failure_rows.kept rows)"
    by (auto simp: failure_rows_kept)
  then have "failure_key r = Some k"
    using map_of_is_SomeI [OF failure_rows.kept_distinct] failure_rows.kept_Some
    by (fastforce simp: failure_rows.last_best_def)
  then show ?thesis by (simp add: failure_key_def split: if_splits)
qed

lemma batch_locks_sorted:
  "sorted_wrt (\<lambda>a b. lock_rank a < lock_rank b) (batch_lock_sequence rt rows)"
proof -
  let ?cf = "collection_failure_event_rows rows"
  let ?nc = "non_collection_event_rows rt (dedupe_non_collection_latest_state rt rows)"
  have cf: "snd (snd t) = ''COLLECTION_FAILURE''" if mem: "t \<in> set (sorted_triplets ?cf)" for t
  proof -
    obtain r where "r \<in> set ?cf" "triplet_of r = Some t"
      using mem unfolding set_sorted_triplets by blast
    with failure_row_types triplet_kind show ?thesis by fastforce
  qed
  have nc: "snd (snd t) \<noteq> ''COLLECTION_FAILURE''" if mem: "t \<in> set (sorted_triplets ?nc)" for t
  proof -
    obtain r where "r \<in> set ?nc" "triplet_of r = Some t"
      using mem unfolding set_sorted_triplets by blast
    with triplet_kind [of r t] show ?thesis by (auto simp: non_collection_event_rows_def)
  qed
  have "lock_rank a < lock_rank b" if "a \<in> set (sorted_triplets ?cf)" "b \<in> set (sorted_triplets ?nc)" for a b
    using cf [OF that(1)] nc [OF that(2)] by (simp add: lock_rank_def less_prod_def)
  then show ?thesis
    using sorted_triplets_strict [of ?cf False] sorted_triplets_strict [of ?nc True] cf nc
    by (simp add: batch_lock_sequence_def sorted_wrt_append)
qed

subsection \<open>Writers that run at the same time\<close>

text \<open>
  A session holds some locks and has others still to take; its transaction ends, releasing
  everything, when nothing is left to take. \<open>lockid\<close> is \<open>hashtext\<close> of the lock key: two
  triplets exclude each other when their ids agree, and a session is never blocked by itself.
\<close>

record lock_session =
  held :: "triplet list"
  todo :: "triplet list"

definition blocked :: "(triplet \<Rightarrow> int) \<Rightarrow> lock_session list \<Rightarrow> nat \<Rightarrow> triplet \<Rightarrow> bool" where
  "blocked lockid ss i t =
     list_ex (\<lambda>j. j \<noteq> i \<and> lockid t \<in> lockid ` set (held (ss ! j))) [0..<length ss]"

inductive lock_step :: "(triplet \<Rightarrow> int) \<Rightarrow> lock_session list \<Rightarrow> lock_session list \<Rightarrow> bool"
  for lockid where
  take: "i < length ss \<Longrightarrow> todo (ss ! i) = t # ts \<Longrightarrow> \<not> blocked lockid ss i t \<Longrightarrow>
    lock_step lockid ss (ss[i := \<lparr>held = t # held (ss ! i), todo = ts\<rparr>])"
| commit: "i < length ss \<Longrightarrow> todo (ss ! i) = [] \<Longrightarrow> held (ss ! i) \<noteq> [] \<Longrightarrow>
    lock_step lockid ss (ss[i := \<lparr>held = [], todo = []\<rparr>])"

definition finished :: "lock_session list \<Rightarrow> bool" where
  "finished ss = list_all (\<lambda>s. held s = [] \<and> todo s = []) ss"

definition ordered_session :: "lock_session \<Rightarrow> bool" where
  "ordered_session s =
     (sorted_wrt (\<lambda>a b. lock_rank a < lock_rank b) (todo s) \<and>
      (\<forall>a \<in> set (held s). \<forall>b \<in> set (todo s). lock_rank a < lock_rank b))"

definition locks_in :: "triplet set \<Rightarrow> lock_session \<Rightarrow> bool" where
  "locks_in T s = (set (held s) \<union> set (todo s) \<subseteq> T)"

lemma lock_step_ordered:
  "lock_step lockid ss ss' \<Longrightarrow> \<forall>s \<in> set ss. ordered_session s \<and> locks_in T s \<Longrightarrow>
     \<forall>s \<in> set ss'. ordered_session s \<and> locks_in T s"
proof (induction rule: lock_step.induct)
  case (take i ss t ts)
  then have "ordered_session (ss ! i)" "locks_in T (ss ! i)" by simp_all
  then have "ordered_session \<lparr>held = t # held (ss ! i), todo = ts\<rparr>"
    "locks_in T \<lparr>held = t # held (ss ! i), todo = ts\<rparr>"
    using take.hyps(2) by (auto simp: ordered_session_def locks_in_def)
  with take.prems show ?case by (auto dest!: subsetD [OF set_update_subset_insert])
next
  case (commit i ss)
  have "ordered_session \<lparr>held = [], todo = []\<rparr>" "locks_in T \<lparr>held = [], todo = []\<rparr>"
    by (simp_all add: ordered_session_def locks_in_def)
  with commit.prems show ?case by (auto dest!: subsetD [OF set_update_subset_insert])
qed

lemma lock_steps_ordered:
  "(lock_step lockid)\<^sup>*\<^sup>* ss ss' \<Longrightarrow> \<forall>s \<in> set ss. ordered_session s \<and> locks_in T s \<Longrightarrow>
     \<forall>s \<in> set ss'. ordered_session s \<and> locks_in T s"
  by (induction rule: rtranclp_induct) (auto dest: lock_step_ordered)

lemma ordered_progress:
  assumes "\<forall>s \<in> set ss. ordered_session s \<and> locks_in T s" "inj_on lockid T" "\<not> finished ss"
  shows "\<exists>ss'. lock_step lockid ss ss'"
proof (rule ccontr)
  assume stuck: "\<nexists>ss'. lock_step lockid ss ss'"
  let ?U = "{i. i < length ss \<and> todo (ss ! i) \<noteq> []}"
  have wait: "todo (ss ! i) \<noteq> []" if "i < length ss" "held (ss ! i) \<noteq> []" for i
    using stuck lock_step.commit [of i ss lockid] that by blast
  obtain i0 where "i0 < length ss" "held (ss ! i0) \<noteq> [] \<or> todo (ss ! i0) \<noteq> []"
    using assms(3) by (auto simp: finished_def list_all_length)
  with wait have "?U \<noteq> {}" by blast
  let ?r = "\<lambda>i. lock_rank (hd (todo (ss ! i)))"
  have "finite ?U" by simp
  then have "Max (?r ` ?U) \<in> ?r ` ?U"
    using \<open>?U \<noteq> {}\<close> by (intro Max_in) simp_all
  then obtain i where i: "i \<in> ?U" and "?r i = Max (?r ` ?U)" by force
  then have top: "?r j \<le> ?r i" if "j \<in> ?U" for j
    using \<open>finite ?U\<close> that by simp
  obtain t ts where t: "todo (ss ! i) = t # ts" using i by (auto simp: neq_Nil_conv)
  then have "blocked lockid ss i t"
    using stuck i lock_step.take [of i ss t ts lockid] by auto
  then obtain j u where j: "j < length ss" "u \<in> set (held (ss ! j))" "lockid t = lockid u"
    by (auto simp: blocked_def list_ex_iff)
  have "ss ! i \<in> set ss" "ss ! j \<in> set ss" using i j(1) by simp_all
  then have "t \<in> T" "u \<in> T"
    using assms(1) t j(2) by (force simp: locks_in_def)+
  with j(3) assms(2) have "t = u" by (auto dest: inj_onD)
  have "todo (ss ! j) \<noteq> []" using wait j(1,2) by fastforce
  moreover from this have "hd (todo (ss ! j)) \<in> set (todo (ss ! j))" by simp
  then have "lock_rank u < ?r j"
    using assms(1) j(2) \<open>ss ! j \<in> set ss\<close> unfolding ordered_session_def by blast
  ultimately show False
    using top [of j] j(1) t \<open>t = u\<close> by simp
qed


definition demo_lock_row :: "string \<Rightarrow> event_row" where
  "demo_lock_row ci = demo_row\<lparr>er_ci := PStr ci\<rparr>"


subsection \<open>Wait metrics\<close>

record lock_settings =
  ls_info :: rat
  ls_warning_p95 :: rat
  ls_critical_p99 :: rat
  ls_window :: nat
  ls_max_contexts :: int

record writer_metrics =
  wm_total :: nat
  wm_waits :: "rat list"

record lock_metrics =
  lm_total :: nat
  lm_waits :: "rat list"
  lm_writers :: "(string \<times> writer_metrics) list"

definition empty_metrics :: lock_metrics where
  "empty_metrics = \<lparr>lm_total = 0, lm_waits = [], lm_writers = []\<rparr>"

text \<open>\<open>deque(maxlen=n).append(x)\<close>\<close>

definition bounded_append :: "nat \<Rightarrow> 'a \<Rightarrow> 'a list \<Rightarrow> 'a list" where
  "bounded_append n x xs = (let ys = xs @ [x] in drop (length ys - n) ys)"

definition is_alnum :: "char \<Rightarrow> bool" where
  "is_alnum c = (is_digit c \<or> is_lower c \<or> is_upper c)"

definition bounded_writer_context :: "string option \<Rightarrow> string" where
  "bounded_writer_context w =
     (let v = strip (case w of None \<Rightarrow> ''unknown'' | Some s \<Rightarrow> if s = [] then ''unknown'' else s);
          v' = (if v = [] then ''unknown'' else v);
          safe = take 80 (map (\<lambda>c. if is_alnum c \<or> c \<in> {CHR ''_'', CHR ''-'', CHR ''.''} then c else CHR ''_'') v')
      in if safe = [] then ''unknown'' else safe)"

definition record_writer :: "lock_settings \<Rightarrow> rat \<Rightarrow> writer_metrics \<Rightarrow> writer_metrics" where
  "record_writer cfg wait m =
     \<lparr>wm_total = wm_total m + 1, wm_waits = bounded_append (ls_window cfg) wait (wm_waits m)\<rparr>"

text \<open>The writer under which a wait is booked: a new name beyond the budget is booked as \<open>other\<close>.\<close>

definition booked_writer :: "lock_settings \<Rightarrow> (string \<times> writer_metrics) list \<Rightarrow> string \<Rightarrow> string" where
  "booked_writer cfg ws w =
     (if map_of ws w = None \<and> w \<noteq> ''other'' \<and> int (length ws) \<ge> max 0 (ls_max_contexts cfg - 1)
      then ''other'' else w)"

definition record_wait :: "lock_settings \<Rightarrow> rat \<Rightarrow> string \<Rightarrow> lock_metrics \<Rightarrow> lock_metrics" where
  "record_wait cfg wait context m =
     (let w = booked_writer cfg (lm_writers m) (bounded_writer_context (Some context));
          wm = dict_get (lm_writers m) w \<lparr>wm_total = 0, wm_waits = []\<rparr>
      in \<lparr>lm_total = lm_total m + 1, lm_waits = bounded_append (ls_window cfg) wait (lm_waits m),
          lm_writers = AList.update w (record_writer cfg wait wm) (lm_writers m)\<rparr>)"

definition percentile :: "rat list \<Rightarrow> int \<Rightarrow> rat option" where
  "percentile values p =
     (if values = [] then None
      else Some (sort values ! nat (max 0 (\<lceil>of_int p * of_nat (length values) / 100 :: rat\<rceil> - 1))))"

record distribution =
  di_count :: nat
  di_p95 :: "rat option"
  di_p99 :: "rat option"
  di_max :: "rat option"

definition wait_distribution :: "rat list \<Rightarrow> distribution" where
  "wait_distribution values = \<lparr>di_count = length values, di_p95 = percentile values 95,
     di_p99 = percentile values 99,
     di_max = (if values = [] then None else Some (foldr max values (hd values)))\<rparr>"

definition at_least :: "rat option \<Rightarrow> rat \<Rightarrow> bool" where
  "at_least x b = (case x of None \<Rightarrow> False | Some v \<Rightarrow> b \<le> v)"

definition derive_alert_state :: "distribution \<Rightarrow> lock_settings \<Rightarrow> string" where
  "derive_alert_state d cfg =
     (if at_least (di_p99 d) (ls_critical_p99 cfg) then ''CRITICAL''
      else if at_least (di_p95 d) (ls_warning_p95 cfg) then ''WARNING''
      else if ls_info cfg > 0 \<and> at_least (di_max d) (ls_info cfg) then ''INFO''
      else ''OK'')"

record metrics_snapshot =
  sn_total :: nat
  sn_waits :: distribution
  sn_alert :: string
  sn_writers :: "(string \<times> nat \<times> distribution) list"

definition metrics_snapshot :: "lock_settings \<Rightarrow> lock_metrics \<Rightarrow> metrics_snapshot" where
  "metrics_snapshot cfg m =
     (let d = wait_distribution (lm_waits m)
      in \<lparr>sn_total = lm_total m, sn_waits = d, sn_alert = derive_alert_state d cfg,
          sn_writers = map (\<lambda>(w, wm). (w, wm_total wm, wait_distribution (wm_waits wm)))
            (sort_key fst (lm_writers m))\<rparr>)"

definition recorded :: "lock_settings \<Rightarrow> (rat \<times> string) list \<Rightarrow> lock_metrics" where
  "recorded cfg xs = fold (\<lambda>(wait, context). record_wait cfg wait context) xs empty_metrics"

text \<open>What stays true of the metrics: bounded samples, a bounded number of writers, exact totals.\<close>

definition metrics_ok :: "lock_settings \<Rightarrow> lock_metrics \<Rightarrow> bool" where
  "metrics_ok cfg m \<longleftrightarrow>
     length (lm_waits m) \<le> ls_window cfg \<and> distinct (map fst (lm_writers m)) \<and>
     int (length (lm_writers m)) \<le> max 1 (ls_max_contexts cfg) \<and>
     (int (length (lm_writers m)) \<le> max 0 (ls_max_contexts cfg - 1) \<or> map_of (lm_writers m) ''other'' \<noteq> None) \<and>
     (\<forall>(w, wm) \<in> set (lm_writers m). length (wm_waits wm) \<le> ls_window cfg) \<and>
     sum_list (map (\<lambda>e. wm_total (snd e)) (lm_writers m)) = lm_total m"

lemma length_bounded_append: "length (bounded_append n x xs) \<le> n"
  by (simp add: bounded_append_def Let_def)

lemma length_update:
  "length (AList.update k v d) = (if map_of d k = None then Suc (length d) else length d)"
  by (induction d) auto

lemma total_update:
  fixes f :: "'v \<Rightarrow> nat"
  shows "map_of d k = None \<Longrightarrow>
     sum_list (map (\<lambda>e. f (snd e)) (AList.update k v d)) = sum_list (map (\<lambda>e. f (snd e)) d) + f v"
    and "map_of d k = Some u \<Longrightarrow> distinct (map fst d) \<Longrightarrow>
     sum_list (map (\<lambda>e. f (snd e)) (AList.update k v d)) + f u = sum_list (map (\<lambda>e. f (snd e)) d) + f v"
  by (induction d) (auto split: if_splits)

lemma record_wait_total:
  assumes "distinct (map fst ws)"
  shows "sum_list (map (\<lambda>e. wm_total (snd e))
      (AList.update w (record_writer cfg wait (dict_get ws w \<lparr>wm_total = 0, wm_waits = []\<rparr>)) ws)) =
    Suc (sum_list (map (\<lambda>e. wm_total (snd e)) ws))"
proof (cases "map_of ws w")
  case None
  then show ?thesis
    using total_update(1) [of ws w wm_total] by (simp add: record_writer_def dict_get_def)
next
  case (Some u)
  then show ?thesis
    using total_update(2) [OF Some assms, of wm_total "record_writer cfg wait u"]
    by (simp add: record_writer_def dict_get_def)
qed

lemma record_wait_ok:
  assumes "metrics_ok cfg m"
  shows "metrics_ok cfg (record_wait cfg wait context m)"
proof -
  let ?w = "booked_writer cfg (lm_writers m) (bounded_writer_context (Some context))"
  have dist: "distinct (map fst (lm_writers m))" using assms by (simp add: metrics_ok_def)
  have "int (length (AList.update ?w v (lm_writers m))) \<le> max 1 (ls_max_contexts cfg) \<and>
      (int (length (AList.update ?w v (lm_writers m))) \<le> max 0 (ls_max_contexts cfg - 1) \<or>
       map_of (AList.update ?w v (lm_writers m)) ''other'' \<noteq> None)" for v
    using assms by (auto simp: metrics_ok_def booked_writer_def length_update map_of_update)
  moreover have "\<forall>(w, wm) \<in> set (AList.update ?w (record_writer cfg wait v) (lm_writers m)).
      length (wm_waits wm) \<le> ls_window cfg" for v
    using assms set_dict_update [of _ ?w "record_writer cfg wait v" "lm_writers m"] length_bounded_append
    by (fastforce simp: metrics_ok_def record_writer_def)
  ultimately show ?thesis
    using assms record_wait_total [OF dist] distinct_update [OF dist]
    by (simp add: metrics_ok_def record_wait_def Let_def length_bounded_append)
qed

lemma recorded_ok: "metrics_ok cfg (recorded cfg xs)"
proof (induction xs rule: rev_induct)
  case Nil
  then show ?case by (simp add: recorded_def empty_metrics_def metrics_ok_def)
next
  case (snoc x xs)
  then show ?case by (cases x) (simp add: recorded_def record_wait_ok)
qed

lemma recorded_total: "lm_total (recorded cfg xs) = length xs"
  by (induction xs rule: rev_induct)
    (auto simp: recorded_def empty_metrics_def record_wait_def Let_def)

text \<open>
  however many waits are recorded under however many names, each window holds at most its
  size, there are at most \<open>max_writer_contexts\<close> writers (one when that is less), and no
  acquisition is lost: the writers' totals add up to the number of waits recorded.
\<close>

theorem lock_metrics_bounded:
  "length (lm_waits (recorded cfg xs)) \<le> ls_window cfg \<and>
   int (length (lm_writers (recorded cfg xs))) \<le> max 1 (ls_max_contexts cfg) \<and>
   list_all (\<lambda>e. length (wm_waits (snd e)) \<le> ls_window cfg) (lm_writers (recorded cfg xs)) \<and>
   sum_list (map (\<lambda>e. wm_total (snd e)) (lm_writers (recorded cfg xs))) = length xs"
  using recorded_ok [of cfg xs] recorded_total [of cfg xs]
  by (auto simp: metrics_ok_def list_all_iff case_prod_beta)

end
