(* ===== verification/Event_Graph.thy ===== *)
theory Event_Graph
  imports Event_Locks
begin

section \<open>Event writes to the graph (batch_update_events in polling/event_writer.py)\<close>

text \<open>
  The part of the Neo4j graph the writer touches and its Cypher statements, clause by clause: a
  clause is evaluated for all rows before the next one, so the existing events are looked up
  before any is created or changed. \<open>pick\<close> is \<open>head(collect(...))\<close> over nodes whose order Cypher
  leaves open; \<open>uuid n\<close> is the n-th random UUID. A comparison with \<open>NULL\<close> is not true.
\<close>

record graph_event =
  ge_id :: string
  ge_ci :: pyval
  ge_metric :: string
  ge_status :: string
  ge_type :: "string option"
  ge_family :: "string option"
  ge_protocol :: "string option"
  ge_avail :: "string option"
  ge_severity :: string
  ge_message :: "string option"
  ge_created :: "instant option"
  ge_seen :: "instant option"
  ge_ack :: bool
  ge_recovered :: "instant option"
  ge_corr :: pyval
  ge_propagated :: pyval
  ge_root_event :: pyval
  ge_root_ci :: pyval
  ge_context :: pydict
  ge_collector :: string

record metric_state =
  mv_value :: string
  mv_updated :: instant
  mv_status :: string
  mv_message :: string

record metric_result =
  mr_key :: pyval
  mr_time :: instant
  mr_value :: string
  mr_status :: string
  mr_of :: "(pyval \<times> string) list"

record graph =
  g_cis :: "pyval list"
  g_metrics :: "(string \<times> bool option) list"
  g_states :: "((pyval \<times> string) \<times> metric_state) list"
  g_results :: "metric_result list"
  g_events :: "graph_event list"
  g_has_event :: "(pyval \<times> string) list"
  g_triggered :: "(string \<times> string) list"
  g_next :: nat

definition add_once :: "'a \<Rightarrow> 'a list \<Rightarrow> 'a list" where
  "add_once x xs = (if x \<in> set xs then xs else xs @ [x])"

text \<open>\<open>MATCH (n:CI {id: row.ci_id}) MATCH (m:MetricDef {id: row.metric_id})\<close>\<close>

definition row_matches :: "graph \<Rightarrow> event_row \<Rightarrow> bool" where
  "row_matches g r = (er_ci r \<noteq> PNone \<and> er_ci r \<in> set (g_cis g) \<and> er_metric r \<in> fst ` set (g_metrics g))"

definition null_eq :: "'a option \<Rightarrow> 'a option \<Rightarrow> bool" where
  "null_eq a b = (a \<noteq> None \<and> a = b)"

definition val_eq :: "pyval \<Rightarrow> pyval \<Rightarrow> bool" where
  "val_eq a b = (a \<noteq> PNone \<and> a = b)"

definition coalesce :: "pyval \<Rightarrow> pyval \<Rightarrow> pyval" where
  "coalesce a b = (if a = PNone then b else a)"

definition first_some :: "'a option \<Rightarrow> 'a option \<Rightarrow> 'a option" where
  "first_some a b = (case a of None \<Rightarrow> b | Some x \<Rightarrow> Some x)"

definition is_open :: "graph_event \<Rightarrow> bool" where
  "is_open e = (ge_status e = ''OPEN'' \<or> ge_status e = ''ACK'')"

definition failure_text :: "graph_event \<Rightarrow> bool" where
  "failure_text e = (case ge_message e of None \<Rightarrow> False | Some m \<Rightarrow> starts_with failure_prefix m)"

definition same_protocol :: "event_row \<Rightarrow> graph_event \<Rightarrow> bool" where
  "same_protocol r e = (er_protocol r = None \<or> ge_protocol e = None \<or>
     map_option upper (ge_protocol e) = er_protocol r)"

subsection \<open>Latest values\<close>

definition set_state :: "instant \<Rightarrow> event_row \<Rightarrow> graph \<Rightarrow> graph" where
  "set_state now r g = g\<lparr>g_states := AList.update (er_ci r, er_metric r)
     \<lparr>mv_value = er_value r, mv_updated = now, mv_status = er_status r, mv_message = er_message r\<rparr> (g_states g)\<rparr>"

definition new_metric_result :: "instant \<Rightarrow> event_row \<Rightarrow> metric_result" where
  "new_metric_result now r = \<lparr>mr_key = er_key r, mr_time = now, mr_value = er_value r, mr_status = er_status r,
     mr_of = [(er_ci r, er_metric r)]\<rparr>"

definition merge_result :: "instant \<Rightarrow> event_row \<Rightarrow> graph \<Rightarrow> graph" where
  "merge_result now r g =
     (if er_key r \<in> mr_key ` set (g_results g)
      then g\<lparr>g_results := update_where (\<lambda>x. mr_key x = er_key r)
             (\<lambda>x. x\<lparr>mr_value := er_value r, mr_status := er_status r,
                   mr_of := add_once (er_ci r, er_metric r) (mr_of x)\<rparr>) (g_results g)\<rparr>
      else g\<lparr>g_results := g_results g @ [new_metric_result now r]\<rparr>)"

definition write_metric_rows :: "instant \<Rightarrow> event_row list \<Rightarrow> graph \<Rightarrow> graph" where
  "write_metric_rows now rows g =
     (let g1 = fold (\<lambda>r g. if row_matches g r then merge_result now r (set_state now r g) else g)
                 (filter (\<lambda>r. er_key r \<noteq> PNone) rows) g
      in fold (\<lambda>r g. if row_matches g r
                 then (set_state now r g)\<lparr>g_results := g_results g @ [new_metric_result now r]\<rparr> else g)
           (filter (\<lambda>r. er_key r = PNone) rows) g1)"

subsection \<open>Raising events\<close>

definition failure_match :: "event_row \<Rightarrow> graph_event \<Rightarrow> bool" where
  "failure_match r e =
     (val_eq (ge_ci e) (er_ci r) \<and> ge_metric e = er_metric r \<and> is_open e \<and>
      (null_eq (ge_type e) (er_type r) \<or> ge_type e = None \<and> failure_text e) \<and>
      (if er_family r \<noteq> None then null_eq (ge_family e) (er_family r) \<or> ge_family e = None
       else ge_family e = None) \<and>
      same_protocol r e)"

definition new_event :: "(nat \<Rightarrow> string) \<Rightarrow> string \<Rightarrow> instant \<Rightarrow> pyval \<Rightarrow> event_row \<Rightarrow> graph \<Rightarrow> graph_event" where
  "new_event uuid collector now root_event r g = \<lparr>ge_id = uuid (g_next g), ge_ci = er_ci r, ge_metric = er_metric r,
     ge_status = ''OPEN'', ge_type = er_type r, ge_family = er_family r, ge_protocol = er_protocol r,
     ge_avail = er_avail r, ge_severity = er_severity r, ge_message = Some (er_message r),
     ge_created = Some now, ge_seen = Some now, ge_ack = False, ge_recovered = None, ge_corr = er_corr r,
     ge_propagated = er_propagated r, ge_root_event = root_event, ge_root_ci = er_root_ci r,
     ge_context = er_context r, ge_collector = collector\<rparr>"

definition link_event :: "event_row \<Rightarrow> string \<Rightarrow> graph \<Rightarrow> graph" where
  "link_event r i g = g\<lparr>g_has_event := add_once (er_ci r, i) (g_has_event g),
     g_triggered := add_once (i, er_metric r) (g_triggered g)\<rparr>"

definition create_event :: "event_row \<Rightarrow> graph_event \<Rightarrow> graph \<Rightarrow> graph" where
  "create_event r e g = link_event r (ge_id e) (g\<lparr>g_events := g_events g @ [e], g_next := g_next g + 1\<rparr>)"

definition change_event :: "event_row \<Rightarrow> string \<Rightarrow> (graph_event \<Rightarrow> graph_event) \<Rightarrow> graph \<Rightarrow> graph" where
  "change_event r i f g = link_event r i (g\<lparr>g_events := update_where (\<lambda>e. ge_id e = i) f (g_events g)\<rparr>)"

definition reopen_failure :: "string \<Rightarrow> instant \<Rightarrow> event_row \<Rightarrow> graph_event \<Rightarrow> graph_event" where
  "reopen_failure collector now r e =
     e\<lparr>ge_status := ''OPEN'', ge_severity := er_severity r, ge_message := Some (er_message r),
       ge_seen := Some now, ge_ack := False, ge_recovered := None, ge_type := er_type r,
       ge_family := er_family r, ge_protocol := er_protocol r, ge_avail := er_avail r,
       ge_collector := collector\<rparr>"

record graph_env =
  gx_uuid :: "nat \<Rightarrow> string"
  gx_pick :: "graph_event list \<Rightarrow> graph_event option"
  gx_collector :: string
  gx_now :: instant

text \<open>The rows with the event found for each, looked up before anything is written.\<close>

definition found :: "graph_env \<Rightarrow> (event_row \<Rightarrow> graph_event \<Rightarrow> bool) \<Rightarrow> event_row list \<Rightarrow> graph \<Rightarrow>
    (event_row \<times> graph_event option) list" where
  "found gx match rows g =
     map (\<lambda>r. (r, gx_pick gx (filter (match r) (g_events g)))) (filter (row_matches g) rows)"

definition raise_failure :: "graph_env \<Rightarrow> event_row \<times> graph_event option \<Rightarrow> graph \<Rightarrow> graph" where
  "raise_failure gx x g =
     (case x of
        (r, None) \<Rightarrow> create_event r (new_event (gx_uuid gx) (gx_collector gx) (gx_now gx) PNone r g) g
      | (r, Some e) \<Rightarrow> change_event r (ge_id e) (reopen_failure (gx_collector gx) (gx_now gx) r) g)"

definition raise_failures :: "graph_env \<Rightarrow> event_row list \<Rightarrow> graph \<Rightarrow> graph" where
  "raise_failures gx rows g =
     fold (raise_failure gx)
       (found gx failure_match (filter (\<lambda>r. er_breach r \<and> er_type r = Some ''COLLECTION_FAILURE'') rows) g) g"

definition state_match :: "graph \<Rightarrow> event_row \<Rightarrow> graph_event \<Rightarrow> bool" where
  "state_match g r e =
     ((er_ci r, ge_id e) \<in> set (g_has_event g) \<and> ge_metric e = er_metric r \<and>
      null_eq (ge_type e) (er_type r) \<and> is_open e \<and>
      coalesce (ge_corr e) (PStr ''ROOT'') = coalesce (er_corr r) (PStr ''ROOT'') \<and>
      (coalesce (er_corr r) (PStr ''ROOT'') \<noteq> PStr ''PROPAGATED'' \<or>
       (er_propagated r = PNone \<or> ge_propagated e = er_propagated r) \<and>
       (er_root_event r = PNone \<or> ge_root_event e = er_root_event r) \<and>
       (er_root_ci r = PNone \<or> ge_root_ci e = er_root_ci r)))"

definition refresh_event :: "string \<Rightarrow> instant \<Rightarrow> event_row \<Rightarrow> graph_event \<Rightarrow> graph_event" where
  "refresh_event collector now r e =
     e\<lparr>ge_severity := er_severity r, ge_message := Some (er_message r), ge_protocol := er_protocol r,
       ge_avail := er_avail r, ge_created := first_some (ge_created e) (first_some (ge_seen e) (Some now)),
       ge_seen := Some now, ge_ack := (if ge_status e = ''ACK'' then ge_ack e else False),
       ge_recovered := None, ge_corr := coalesce (ge_corr e) (er_corr r),
       ge_propagated := coalesce (ge_propagated e) (er_propagated r),
       ge_root_event := coalesce (ge_root_event e) (er_root_event r),
       ge_root_ci := coalesce (ge_root_ci e) (er_root_ci r),
       ge_context := map (\<lambda>(k, v). (k, coalesce (get (ge_context e) k) v)) (er_context r),
       ge_collector := collector\<rparr>"

definition raise_state :: "graph_env \<Rightarrow> event_row \<times> graph_event option \<Rightarrow> graph \<Rightarrow> graph" where
  "raise_state gx x g =
     (case x of
        (r, None) \<Rightarrow> create_event r
           ((new_event (gx_uuid gx) (gx_collector gx) (gx_now gx) (er_root_event r) r g)\<lparr>ge_family := None\<rparr>) g
      | (r, Some e) \<Rightarrow> change_event r (ge_id e) (refresh_event (gx_collector gx) (gx_now gx) r) g)"

definition raise_states :: "graph_env \<Rightarrow> event_row list \<Rightarrow> graph \<Rightarrow> graph" where
  "raise_states gx rows g =
     fold (raise_state gx)
       (found gx (state_match g)
         (filter (\<lambda>r. er_breach r \<and> er_type r \<noteq> None \<and> er_type r \<noteq> Some ''COLLECTION_FAILURE'') rows) g) g"

subsection \<open>Recovering events\<close>

definition recover_event :: "instant \<Rightarrow> graph_event \<Rightarrow> graph_event" where
  "recover_event now e = e\<lparr>ge_created := first_some (ge_created e) (first_some (ge_seen e) (Some now)),
     ge_status := ''RECOVERED'', ge_recovered := Some now\<rparr>"

definition failure_recovers :: "graph \<Rightarrow> event_row \<Rightarrow> graph_event \<Rightarrow> bool" where
  "failure_recovers g r e =
     ((er_ci r, ge_id e) \<in> set (g_has_event g) \<and> ge_metric e = er_metric r \<and> is_open e \<and>
      (ge_type e = Some ''COLLECTION_FAILURE'' \<or> ge_type e = None \<and> failure_text e) \<and>
      same_protocol r e \<and>
      (er_protocol r \<noteq> None \<and> er_protocol r \<noteq> Some ''SNMP'' \<or>
       ge_family e = Some ''SNMP_NO_RESPONSE'' \<or> ge_family e = None))"

definition state_recovers :: "graph \<Rightarrow> event_row \<Rightarrow> graph_event \<Rightarrow> bool" where
  "state_recovers g r e =
     ((er_ci r, ge_id e) \<in> set (g_has_event g) \<and> ge_metric e = er_metric r \<and> is_open e \<and>
      coalesce (ge_corr e) (PStr ''ROOT'') = PStr ''ROOT'' \<and>
      (if er_protocol r = Some ''ICMP''
       then (ge_type e = Some ''AVAILABILITY'' \<or> ge_type e = Some ''THRESHOLD_BREACH'') \<and>
            (ge_protocol e = None \<or> map_option upper (ge_protocol e) = er_protocol r)
       else ge_type e \<noteq> Some ''COLLECTION_FAILURE'' \<and>
            (ge_type e \<noteq> None \<or> ge_message e \<noteq> None \<and> \<not> failure_text e)))"

text \<open>Events propagated from a recovered one: \<open>by_event\<close> also asks for \<open>propagated_from = e.id\<close>.\<close>

definition propagates :: "graph \<Rightarrow> bool \<Rightarrow> graph_event \<Rightarrow> graph_event \<Rightarrow> bool" where
  "propagates g by_event e pe =
     (val_eq (ge_root_ci pe) (ge_ci e) \<and> ge_corr pe = PStr ''PROPAGATED'' \<and> is_open pe \<and>
      (by_event \<longrightarrow> ge_propagated pe = PStr (ge_id e)) \<and>
      list_ex (\<lambda>(m, can). (ge_id pe, m) \<in> set (g_triggered g) \<and> can \<noteq> Some False) (g_metrics g))"

definition recover_matched :: "instant \<Rightarrow> (event_row \<Rightarrow> string) \<Rightarrow> event_row \<times> graph_event \<Rightarrow> graph \<Rightarrow> graph" where
  "recover_matched now text x g = g\<lparr>g_events := update_where (\<lambda>e. ge_id e = ge_id (snd x))
     (\<lambda>e. (recover_event now e)\<lparr>ge_message := Some (text (fst x))\<rparr>) (g_events g)\<rparr>"

definition recover_propagated :: "instant \<Rightarrow> bool \<Rightarrow> event_row \<times> graph_event \<Rightarrow> graph \<Rightarrow> graph" where
  "recover_propagated now by_event x g =
     g\<lparr>g_events := update_where (propagates g by_event (snd x)) (recover_event now) (g_events g)\<rparr>"

definition recover_rows :: "instant \<Rightarrow> bool \<Rightarrow> (event_row \<Rightarrow> string) \<Rightarrow> (graph \<Rightarrow> event_row \<Rightarrow> graph_event \<Rightarrow> bool) \<Rightarrow>
    event_row list \<Rightarrow> graph \<Rightarrow> graph" where
  "recover_rows now by_event text match rows g =
     (let hits = concat (map (\<lambda>r. map (Pair r) (filter (match g r) (g_events g)))
                   (filter (\<lambda>r. er_ci r \<in> set (g_cis g)) rows))
      in fold (recover_propagated now by_event) hits (fold (recover_matched now text) hits g))"

subsection \<open>A batch\<close>

definition write_event_rows :: "runtime \<Rightarrow> graph_env \<Rightarrow> event_row list \<Rightarrow> graph \<Rightarrow> graph" where
  "write_event_rows rt gx rows g =
     (let states = dedupe_non_collection_latest_state rt rows;
          g1 = write_metric_rows (gx_now gx) (latest_metric_rows rt rows) g;
          g2 = raise_failures gx (collection_failure_event_rows rows) g1;
          g3 = raise_states gx (non_collection_event_rows rt states) g2;
          g4 = recover_rows (gx_now gx) False er_recovery_message failure_recovers (filter er_recover_cf rows) g3
      in recover_rows (gx_now gx) True er_message state_recovers (filter er_recover states) g4)"

definition batch_update_events :: "runtime \<Rightarrow> graph_env \<Rightarrow> pydict list \<Rightarrow> graph \<Rightarrow> (nat \<times> graph) result" where
  "batch_update_events rt gx envelopes g =
     bindR (build_event_rows rt envelopes) (\<lambda>rs.
     bindR (dedupe_idempotent_rows rs) (\<lambda>rows.
       Inr (if rows = [] then (0, g) else (length rows, write_event_rows rt gx rows g))))"

subsection \<open>One open root event per CI, metric and type\<close>

definition root_corr :: "pyval \<Rightarrow> bool" where
  "root_corr c = (coalesce c (PStr ''ROOT'') = PStr ''ROOT'')"

text \<open>An open threshold or availability event that is not propagated from another one.\<close>

definition open_root :: "graph_event \<Rightarrow> bool" where
  "open_root e = (is_open e \<and> ge_type e \<noteq> None \<and> ge_type e \<noteq> Some ''COLLECTION_FAILURE'' \<and> root_corr (ge_corr e))"

definition event_key :: "graph_event \<Rightarrow> pyval \<times> string \<times> string option" where
  "event_key e = (ge_ci e, ge_metric e, ge_type e)"

definition row_key :: "event_row \<Rightarrow> pyval \<times> string \<times> string option" where
  "row_key r = (er_ci r, er_metric r, er_type r)"

definition one_open_root :: "graph \<Rightarrow> bool" where
  "one_open_root g = (\<forall>e \<in> set (g_events g). \<forall>e' \<in> set (g_events g).
     open_root e \<and> open_root e' \<and> event_key e = event_key e' \<longrightarrow> e = e')"

definition linked :: "(nat \<Rightarrow> string) \<Rightarrow> graph \<Rightarrow> bool" where
  "linked uuid g \<longleftrightarrow>
     (\<forall>e \<in> set (g_events g). \<forall>c. (c, ge_id e) \<in> set (g_has_event g) \<longleftrightarrow> c = ge_ci e) \<and>
     (\<forall>i \<in> ge_id ` set (g_events g) \<union> snd ` set (g_has_event g). \<exists>n < g_next g. i = uuid n)"

definition graph_inv :: "(nat \<Rightarrow> string) \<Rightarrow> graph \<Rightarrow> bool" where
  "graph_inv uuid g = (linked uuid g \<and> one_open_root g)"

text \<open>A change of events that keeps their identity and opens no root event.\<close>

definition mild :: "(graph_event \<Rightarrow> graph_event) \<Rightarrow> bool" where
  "mild f = (\<forall>e. ge_id (f e) = ge_id e \<and> ge_ci (f e) = ge_ci e \<and> ge_metric (f e) = ge_metric e \<and>
     (open_root (f e) \<longrightarrow> open_root e \<and> ge_type (f e) = ge_type e))"

lemma mild_recover: "mild (recover_event now)" "mild (\<lambda>e. (recover_event now e)\<lparr>ge_message := m\<rparr>)"
  by (simp_all add: mild_def recover_event_def open_root_def is_open_def)

lemma mild_reopen: "er_type r = Some ''COLLECTION_FAILURE'' \<Longrightarrow> mild (reopen_failure collector now r)"
  by (simp add: mild_def reopen_failure_def open_root_def)

lemma mild_refresh: "mild (refresh_event collector now r)"
  by (simp add: mild_def refresh_event_def open_root_def is_open_def root_corr_def coalesce_def)

lemma mild_update:
  assumes "mild f" "graph_inv uuid g"
  shows "graph_inv uuid (g\<lparr>g_events := update_where P f (g_events g)\<rparr>)"
proof -
  let ?F = "\<lambda>e. if P e then f e else e"
  have F: "ge_id (?F e) = ge_id e" "ge_ci (?F e) = ge_ci e" "ge_metric (?F e) = ge_metric e"
    "open_root (?F e) \<Longrightarrow> open_root e \<and> ge_type (?F e) = ge_type e" for e
    using assms(1) by (auto simp: mild_def)
  have ev: "set (update_where P f (g_events g)) = ?F ` set (g_events g)"
    by (simp add: update_where_def)
  have f: "ge_id (f e) = ge_id e" "ge_ci (f e) = ge_ci e" for e
    using assms(1) by (simp_all add: mild_def)
  have "linked uuid (g\<lparr>g_events := update_where P f (g_events g)\<rparr>)"
    using assms(2) by (auto simp add: graph_inv_def linked_def ev f)
  moreover have "one_open_root (g\<lparr>g_events := update_where P f (g_events g)\<rparr>)"
    unfolding one_open_root_def
  proof (intro ballI impI, elim conjE)
    fix a b
    assume "a \<in> set (g_events (g\<lparr>g_events := update_where P f (g_events g)\<rparr>))"
      "b \<in> set (g_events (g\<lparr>g_events := update_where P f (g_events g)\<rparr>))"
    then have "a \<in> ?F ` set (g_events g)" "b \<in> ?F ` set (g_events g)" by (simp_all add: ev)
    then obtain e e' where e: "e \<in> set (g_events g)" "a = ?F e" "e' \<in> set (g_events g)" "b = ?F e'"
      by blast
    assume open_ab: "open_root a" "open_root b" and same: "event_key a = event_key b"
    have "open_root e" "open_root e'" "ge_type a = ge_type e" "ge_type b = ge_type e'"
      using F(4) open_ab e(2,4) by blast+
    moreover from this have "event_key e = event_key e'"
      using same e(2,4) F(2,3) by (simp add: event_key_def del: if_split)
    ultimately have "e = e'"
      using assms(2) e(1,3) by (simp add: graph_inv_def one_open_root_def)
    with e(2,4) show "a = b" by simp
  qed
  ultimately show ?thesis by (simp add: graph_inv_def)
qed

lemma open_roots_update:
  assumes "mild f" "e \<in> set (update_where P f (g_events g))" "open_root e"
  shows "\<exists>e0 \<in> set (g_events g). open_root e0 \<and> event_key e0 = event_key e"
  using assms by (auto simp: update_where_def mild_def event_key_def split: if_splits)

lemma link_known:
  assumes "graph_inv uuid g" "(er_ci r, i) \<in> set (g_has_event g)"
  shows "graph_inv uuid (link_event r i g)"
  using assms by (simp add: graph_inv_def linked_def one_open_root_def link_event_def add_once_def)

lemma change_keeps:
  assumes "graph_inv uuid g" "mild f" "(er_ci r, i) \<in> set (g_has_event g)"
  shows "graph_inv uuid (change_event r i f g)"
  unfolding change_event_def
  by (rule link_known) (use assms in \<open>simp_all add: mild_update\<close>)

lemma create_event_simps [simp]:
  "g_events (create_event r e g) = g_events g @ [e]"
  "set (g_has_event (create_event r e g)) = insert (er_ci r, ge_id e) (set (g_has_event g))"
  "g_next (create_event r e g) = Suc (g_next g)"
  by (auto simp: create_event_def link_event_def add_once_def)

lemma change_event_simps [simp]:
  "g_events (change_event r i f g) = update_where (\<lambda>e. ge_id e = i) f (g_events g)"
  "set (g_has_event (change_event r i f g)) = insert (er_ci r, i) (set (g_has_event g))"
  by (auto simp: change_event_def link_event_def add_once_def)

lemma create_keeps:
  assumes "graph_inv uuid g" "inj uuid" "ge_id e = uuid (g_next g)" "ge_ci e = er_ci r"
    and "open_root e \<Longrightarrow> \<forall>e' \<in> set (g_events g). open_root e' \<longrightarrow> event_key e' \<noteq> event_key e"
  shows "graph_inv uuid (create_event r e g)"
proof -
  have known: "\<exists>n < g_next g. i = uuid n" if "i \<in> ge_id ` set (g_events g) \<union> snd ` set (g_has_event g)" for i
    using assms(1) that by (simp add: graph_inv_def linked_def)
  then have fresh: "i \<noteq> ge_id e" if "i \<in> ge_id ` set (g_events g) \<union> snd ` set (g_has_event g)" for i
    using assms(2,3) that by (metis inj_eq less_irrefl)
  have new: "(c, ge_id e) \<notin> set (g_has_event g)" for c
    using fresh by (metis UnI2 image_eqI snd_conv)
  have old: "ge_id x \<noteq> ge_id e" if "x \<in> set (g_events g)" for x
    using fresh that by blast
  have "linked uuid (create_event r e g)"
    unfolding linked_def
  proof (intro conjI ballI allI)
    fix x c
    assume "x \<in> set (g_events (create_event r e g))"
    then show "(c, ge_id x) \<in> set (g_has_event (create_event r e g)) \<longleftrightarrow> c = ge_ci x"
      using assms(1,4) new old by (auto simp: graph_inv_def linked_def)
  next
    fix i
    assume "i \<in> ge_id ` set (g_events (create_event r e g)) \<union> snd ` set (g_has_event (create_event r e g))"
    then have "i = ge_id e \<or> i \<in> ge_id ` set (g_events g) \<union> snd ` set (g_has_event g)" by auto
    then show "\<exists>n < g_next (create_event r e g). i = uuid n"
      using known assms(3) by (auto intro: less_SucI)
  qed
  moreover have "one_open_root (create_event r e g)"
    using assms(1,5) by (fastforce simp: graph_inv_def one_open_root_def)
  ultimately show ?thesis by (simp add: graph_inv_def)
qed

subsection \<open>The statements keep it\<close>

lemma write_metric_rows_events [simp]:
  "g_events (write_metric_rows now rows g) = g_events g"
  "g_has_event (write_metric_rows now rows g) = g_has_event g"
  "g_next (write_metric_rows now rows g) = g_next g"
proof -
  have keep: "same (fold f xs h) = same h" if "\<And>x h. same (f x h) = same h"
    for same :: "graph \<Rightarrow> 'b" and f :: "event_row \<Rightarrow> graph \<Rightarrow> graph" and xs h
    using that by (induction xs arbitrary: h) simp_all
  have keep': "same (fold f xs h) = same h" if "\<And>x h. same (f x h) = same h"
    for same :: "graph \<Rightarrow> nat" and f :: "event_row \<Rightarrow> graph \<Rightarrow> graph" and xs h
    using that by (induction xs arbitrary: h) simp_all
  show "g_events (write_metric_rows now rows g) = g_events g"
    by (simp add: write_metric_rows_def keep [of g_events] merge_result_def set_state_def)
  show "g_has_event (write_metric_rows now rows g) = g_has_event g"
    by (simp add: write_metric_rows_def keep [of g_has_event] merge_result_def set_state_def)
  show "g_next (write_metric_rows now rows g) = g_next g"
    by (simp add: write_metric_rows_def keep' [of g_next] merge_result_def set_state_def)
qed

definition env_ok :: "graph_env \<Rightarrow> bool" where
  "env_ok gx = (inj (gx_uuid gx) \<and> gx_pick gx [] = None \<and>
     (\<forall>xs. xs \<noteq> [] \<longrightarrow> (\<exists>e \<in> set xs. gx_pick gx xs = Some e)))"

lemma pick_cases:
  assumes "env_ok gx" "gx_pick gx (filter P xs) = o'"
  shows "(o' = None \<and> (\<forall>e \<in> set xs. \<not> P e)) \<or> (\<exists>e \<in> set xs. P e \<and> o' = Some e)"
proof (cases "filter P xs = []")
  case True
  with assms show ?thesis by (auto simp: env_ok_def filter_empty_conv)
next
  case False
  then obtain e where "e \<in> set (filter P xs)" "gx_pick gx (filter P xs) = Some e"
    using assms(1) unfolding env_ok_def by blast
  with assms(2) show ?thesis by auto
qed

lemma raise_failure_keeps:
  assumes "env_ok gx" "graph_inv (gx_uuid gx) g" "er_type r = Some ''COLLECTION_FAILURE''"
    and "\<And>e. x = Some e \<Longrightarrow> (er_ci r, ge_id e) \<in> set (g_has_event g)"
  shows "graph_inv (gx_uuid gx) (raise_failure gx (r, x) g) \<and>
    set (g_has_event g) \<subseteq> set (g_has_event (raise_failure gx (r, x) g))"
proof (cases x)
  case None
  let ?e = "new_event (gx_uuid gx) (gx_collector gx) (gx_now gx) PNone r g"
  have "graph_inv (gx_uuid gx) (create_event r ?e g)"
    using assms(1-3)
    by (intro create_keeps) (simp_all add: env_ok_def new_event_def open_root_def)
  with None show ?thesis by (auto simp: raise_failure_def)
next
  case (Some e)
  with assms change_keeps [OF assms(2) mild_reopen [OF assms(3)]] show ?thesis
    by (auto simp: raise_failure_def)
qed

lemma raise_failures_keeps:
  assumes "env_ok gx" "graph_inv (gx_uuid gx) g"
  shows "graph_inv (gx_uuid gx) (raise_failures gx rows g)"
proof -
  let ?rows = "filter (\<lambda>r. er_breach r \<and> er_type r = Some ''COLLECTION_FAILURE'') rows"
  have ok: "er_type r = Some ''COLLECTION_FAILURE'' \<and> (\<forall>e. x = Some e \<longrightarrow> (er_ci r, ge_id e) \<in> set (g_has_event g))"
    if "(r, x) \<in> set (found gx failure_match ?rows g)" for r x
  proof -
    from that have r: "er_type r = Some ''COLLECTION_FAILURE''"
      and x: "gx_pick gx (filter (failure_match r) (g_events g)) = x" by (auto simp: found_def)
    from pick_cases [OF assms(1) x] have "x = Some e \<Longrightarrow> (er_ci r, ge_id e) \<in> set (g_has_event g)" for e
      using assms(2) by (auto simp: failure_match_def val_eq_def graph_inv_def linked_def)
    with r show ?thesis by blast
  qed
  have "graph_inv (gx_uuid gx) (fold (raise_failure gx) xs h)"
    if "set xs \<subseteq> set (found gx failure_match ?rows g)" "graph_inv (gx_uuid gx) h"
      "set (g_has_event g) \<subseteq> set (g_has_event h)" for xs h
    using that
  proof (induction xs arbitrary: h)
    case Nil
    then show ?case by simp
  next
    case (Cons a xs)
    obtain r x where a: "a = (r, x)" by fastforce
    have "graph_inv (gx_uuid gx) (raise_failure gx a h) \<and>
        set (g_has_event h) \<subseteq> set (g_has_event (raise_failure gx a h))"
      unfolding a using Cons.prems a ok [of r x]
      by (intro raise_failure_keeps [OF assms(1)]) auto
    with Cons.IH [of "raise_failure gx a h"] Cons.prems show ?case by auto
  qed
  from this [OF subset_refl assms(2) subset_refl] show ?thesis
    by (simp add: raise_failures_def)
qed

lemma recover_rows_keeps:
  assumes "graph_inv uuid g"
  shows "graph_inv uuid (recover_rows now by_event text match rows g)"
proof -
  have one: "graph_inv uuid (recover_matched now text x h)" if "graph_inv uuid h" for x h
    unfolding recover_matched_def by (rule mild_update [OF mild_recover(2) that])
  have two: "graph_inv uuid (recover_propagated now by_event x h)" if "graph_inv uuid h" for x h
    unfolding recover_propagated_def by (rule mild_update [OF mild_recover(1) that])
  have "graph_inv uuid (fold f xs h)" if "graph_inv uuid h" "\<And>x h. graph_inv uuid h \<Longrightarrow> graph_inv uuid (f x h)"
    for f :: "event_row \<times> graph_event \<Rightarrow> graph \<Rightarrow> graph" and xs h
    using that by (induction xs arbitrary: h) simp_all
  with assms one two show ?thesis by (simp add: recover_rows_def Let_def)
qed

text \<open>The state rows still to be written, against the graph as it stands.\<close>

definition states_pending :: "graph_env \<Rightarrow> (event_row \<times> graph_event option) list \<Rightarrow> graph \<Rightarrow> bool" where
  "states_pending gx xs h \<longleftrightarrow> graph_inv (gx_uuid gx) h \<and>
     distinct (map row_key (filter (\<lambda>r. root_corr (er_corr r)) (map fst xs))) \<and>
     (\<forall>(r, x) \<in> set xs. er_type r \<noteq> None \<and> er_type r \<noteq> Some ''COLLECTION_FAILURE'' \<and>
        (case x of
           Some e \<Rightarrow> (er_ci r, ge_id e) \<in> set (g_has_event h)
         | None \<Rightarrow> root_corr (er_corr r) \<longrightarrow>
             (\<forall>e \<in> set (g_events h). open_root e \<longrightarrow> event_key e \<noteq> row_key r)))"

lemma states_pending_step:
  assumes "env_ok gx" "states_pending gx (a # xs) h"
  shows "states_pending gx xs (raise_state gx a h)"
proof -
  obtain r x where a: "a = (r, x)" by fastforce
  have inv: "graph_inv (gx_uuid gx) h"
    and dist: "distinct (map row_key (filter (\<lambda>r. root_corr (er_corr r)) (map fst xs)))"
    and rest: "\<And>r' y. (r', y) \<in> set xs \<Longrightarrow> er_type r' \<noteq> None \<and> er_type r' \<noteq> Some ''COLLECTION_FAILURE'' \<and>
        (case y of Some e \<Rightarrow> (er_ci r', ge_id e) \<in> set (g_has_event h)
         | None \<Rightarrow> root_corr (er_corr r') \<longrightarrow> (\<forall>e \<in> set (g_events h). open_root e \<longrightarrow> event_key e \<noteq> row_key r'))"
    using assms(2) by (auto simp: states_pending_def split: if_splits)
  show ?thesis
  proof (cases x)
    case (Some e)
    let ?f = "refresh_event (gx_collector gx) (gx_now gx) r"
    have step: "raise_state gx a h = change_event r (ge_id e) ?f h"
      by (simp add: a Some raise_state_def)
    have "(er_ci r, ge_id e) \<in> set (g_has_event h)"
      using assms(2) by (simp add: a Some states_pending_def)
    then have "graph_inv (gx_uuid gx) (raise_state gx a h)"
      unfolding step by (rule change_keeps [OF inv mild_refresh])
    moreover have "event_key e' \<noteq> row_key r'" if "(r', None) \<in> set xs" "root_corr (er_corr r')"
      "e' \<in> set (g_events (raise_state gx a h))" "open_root e'" for r' e'
      using open_roots_update [OF mild_refresh, of e' _ _ _ r h] that rest [OF that(1)]
      unfolding step by fastforce
    ultimately show ?thesis
      using dist rest unfolding states_pending_def
      by (fastforce simp: step split: option.splits)
  next
    case None
    let ?e = "(new_event (gx_uuid gx) (gx_collector gx) (gx_now gx) (er_root_event r) r h)\<lparr>ge_family := None\<rparr>"
    have step: "raise_state gx a h = create_event r ?e h"
      by (simp add: a None raise_state_def)
    have here: "er_type r \<noteq> None" "er_type r \<noteq> Some ''COLLECTION_FAILURE''"
      "root_corr (er_corr r) \<Longrightarrow> \<forall>e \<in> set (g_events h). open_root e \<longrightarrow> event_key e \<noteq> row_key r"
      using assms(2) by (auto simp: a None states_pending_def)
    have e: "event_key ?e = row_key r" "open_root ?e \<longleftrightarrow> root_corr (er_corr r)"
      using here(1,2) by (auto simp: event_key_def row_key_def new_event_def open_root_def is_open_def)
    have "graph_inv (gx_uuid gx) (raise_state gx a h)"
      unfolding step
    proof (rule create_keeps [OF inv])
      show "inj (gx_uuid gx)" using assms(1) by (simp add: env_ok_def)
      show "ge_id ?e = gx_uuid gx (g_next h)" "ge_ci ?e = er_ci r" by (simp_all add: new_event_def)
      show "open_root ?e \<Longrightarrow> \<forall>e' \<in> set (g_events h). open_root e' \<longrightarrow> event_key e' \<noteq> event_key ?e"
        using here(3) e by simp
    qed
    moreover have "row_key r \<noteq> row_key r'" if "(r', y) \<in> set xs" "root_corr (er_corr r')" "root_corr (er_corr r)" for r' y
      using assms(2) that by (force simp: a states_pending_def)
    ultimately show ?thesis
      using dist rest e unfolding states_pending_def
      by (fastforce simp: step split: option.splits)
  qed
qed

lemma states_pending_all:
  "env_ok gx \<Longrightarrow> states_pending gx xs h \<Longrightarrow> graph_inv (gx_uuid gx) (fold (raise_state gx) xs h)"
  by (induction xs arbitrary: h) (simp_all add: states_pending_step, simp add: states_pending_def)

lemma raise_states_keeps:
  assumes "env_ok gx" "graph_inv (gx_uuid gx) g"
    and "distinct (map row_key (filter (\<lambda>r. root_corr (er_corr r)) rows))"
  shows "graph_inv (gx_uuid gx) (raise_states gx rows g)"
proof -
  let ?keep = "\<lambda>r. er_breach r \<and> er_type r \<noteq> None \<and> er_type r \<noteq> Some ''COLLECTION_FAILURE''"
  let ?xs = "found gx (state_match g) (filter ?keep rows) g"
  have fst: "map fst ?xs = filter (row_matches g) (filter ?keep rows)"
    by (simp add: found_def o_def)
  have "distinct (map row_key (filter (\<lambda>r. root_corr (er_corr r)) (map fst ?xs)))"
    unfolding fst using distinct_map_filter [OF assms(3), of "\<lambda>r. ?keep r \<and> row_matches g r"]
    by (simp add: conj_commute conj_left_commute)
  moreover have "er_type r \<noteq> None \<and> er_type r \<noteq> Some ''COLLECTION_FAILURE'' \<and>
      (case x of Some e \<Rightarrow> (er_ci r, ge_id e) \<in> set (g_has_event g)
       | None \<Rightarrow> root_corr (er_corr r) \<longrightarrow> (\<forall>e \<in> set (g_events g). open_root e \<longrightarrow> event_key e \<noteq> row_key r))"
    if "(r, x) \<in> set ?xs" for r x
  proof -
    from that have r: "er_type r \<noteq> None" "er_type r \<noteq> Some ''COLLECTION_FAILURE''"
      and x: "gx_pick gx (filter (state_match g r) (g_events g)) = x" by (auto simp: found_def)
    have match: "state_match g r e" if "root_corr (er_corr r)" "e \<in> set (g_events g)" "open_root e" "event_key e = row_key r" for e
      using that r assms(2)
      by (auto simp: state_match_def open_root_def root_corr_def event_key_def row_key_def null_eq_def
          graph_inv_def linked_def)
    from pick_cases [OF assms(1) x] show ?thesis
    proof (elim disjE conjE bexE)
      assume "x = None" "\<forall>e \<in> set (g_events g). \<not> state_match g r e"
      with r match show ?thesis by auto
    next
      fix e
      assume "state_match g r e" "x = Some e"
      with r show ?thesis by (simp add: state_match_def)
    qed
  qed
  ultimately have "states_pending gx ?xs g"
    using assms(2) unfolding states_pending_def by blast
  then show ?thesis
    unfolding raise_states_def by (rule states_pending_all [OF assms(1)])
qed

subsection \<open>Properties\<close>

text \<open>A root row without a root cause of its own: what metadata without root cause entries gives.\<close>

definition plain_root :: "event_row \<Rightarrow> bool" where
  "plain_root r = (if root_corr (er_corr r)
     then er_propagated r = PNone \<and> er_root_event r = PNone \<and> er_root_ci r = er_ci r else True)"

lemma distinct_row_keys:
  assumes "list_all plain_root rows"
  shows "distinct (map row_key (filter (\<lambda>r. root_corr (er_corr r)) (non_collection_event_rows rt (dedupe_non_collection_latest_state rt rows))))"
proof -
  let ?ys = "non_collection_event_rows rt (dedupe_non_collection_latest_state rt rows)"
  have sk: "distinct (map state_key ?ys)"
    unfolding non_collection_event_rows_def by (rule distinct_map_filter [OF dedupe_distinct])
  have key: "state_key r = Some (er_ci r, er_metric r, the (er_type r), PStr ''ROOT'', PNone, PNone, er_ci r)"
    if "r \<in> set ?ys" "root_corr (er_corr r)" for r
  proof -
    have "r \<in> set rows" using that(1) by (auto simp: non_collection_event_rows_def dest!: dedupe_member)
    then have "plain_root r" using assms by (simp add: list_all_iff)
    moreover have "target_event_type r = er_type r" "er_type r \<noteq> None"
      using that(1) by (auto simp: non_collection_event_rows_def target_event_type_def)
    moreover have "por (er_corr r) (PStr ''ROOT'') = PStr ''ROOT''"
      using that(2) by (auto simp: root_corr_def coalesce_def por_def split: if_splits)
    ultimately show ?thesis using that(2) by (auto simp: state_key_def plain_root_def)
  qed
  have "inj_on row_key (set (filter (\<lambda>r. root_corr (er_corr r)) ?ys))"
  proof (rule inj_onI)
    fix r s
    assume rs: "r \<in> set (filter (\<lambda>r. root_corr (er_corr r)) ?ys)" "s \<in> set (filter (\<lambda>r. root_corr (er_corr r)) ?ys)"
      "row_key r = row_key s"
    then have "state_key r = state_key s" using key [of r] key [of s] by (simp add: row_key_def)
    with sk rs(1,2) show "r = s" by (auto intro: distinct_key_eq [of state_key])
  qed
  moreover have "distinct (filter (\<lambda>r. root_corr (er_corr r)) ?ys)"
    using sk by (simp add: distinct_map)
  ultimately show ?thesis by (simp add: distinct_map)
qed

lemma batch_keeps:
  assumes "env_ok gx" "graph_inv (gx_uuid gx) g"
    and "build_event_rows rt envs = Inr rows" "list_all plain_root rows"
    and "batch_update_events rt gx envs g = Inr (n, g')"
  shows "graph_inv (gx_uuid gx) g'"
proof -
  obtain kept where kept: "dedupe_idempotent_rows rows = Inr kept"
    and g': "g' = (if kept = [] then g else write_event_rows rt gx kept g)"
    using assms(3,5) by (auto simp: batch_update_events_def bindR_eq_Inr split: if_splits)
  have plain: "list_all plain_root kept"
    using idempotent_member [OF kept] assms(4) by (auto simp: list_all_iff)
  have "graph_inv (gx_uuid gx) (write_metric_rows (gx_now gx) (latest_metric_rows rt kept) g)"
    using assms(2) by (simp add: graph_inv_def linked_def one_open_root_def)
  then have "graph_inv (gx_uuid gx) (write_event_rows rt gx kept g)"
    unfolding write_event_rows_def Let_def
    by (intro recover_rows_keeps raise_states_keeps raise_failures_keeps assms(1) distinct_row_keys plain)
  with assms(2) g' show ?thesis by (simp add: graph_inv_def)
qed


definition demo_graph :: graph where
  "demo_graph = \<lparr>g_cis = [PStr ''n1''], g_metrics = [(''cpu'', None)], g_states = [], g_results = [],
     g_events = [], g_has_event = [], g_triggered = [], g_next = 0\<rparr>"

definition demo_gx :: graph_env where
  "demo_gx = \<lparr>gx_uuid = show_nat, gx_pick = (\<lambda>xs. case xs of [] \<Rightarrow> None | x # _ \<Rightarrow> Some x),
     gx_collector = ''host'', gx_now = 5\<rparr>"

definition demo_breach :: pydict where
  "demo_breach = [(''ci_id'', PStr ''n1''), (''metric_id'', PStr ''cpu''), (''protocol'', PStr ''SNMP''),
     (''value'', PDict [(''numeric'', PInt 95)]), (''metadata'', PDict [(''critical'', PInt 90)])]"


end
