(* ===== verification/Ai_Guard.thy ===== *)
theory Ai_Guard
  imports Py_Values
begin

section \<open>Guards on AI agents (services/ai_guard_service.py)\<close>

text \<open>
  Cooldowns in the memory of the process, the table of AI operations, and the guard checks that
  decide whether an agent may act. \<open>tick\<close> is the monotonic clock of the cooldowns, \<open>now\<close> the wall
  clock of the operation table, both in microseconds; one call reads each clock once.
\<close>

record guard_config =
  gc_propose_cooldown :: int
  gc_bulk_threshold :: nat

definition default_guard_config :: guard_config where
  "default_guard_config = \<lparr>gc_propose_cooldown = 120, gc_bulk_threshold = 5\<rparr>"

definition cooldowns :: "guard_config \<Rightarrow> (string \<times> int) list" where
  "cooldowns c = [(''diagnose'', 300), (''ack'', 600), (''close'', 900), (''ci_metadata_update'', 120),
     (''propose_ci'', gc_propose_cooldown c)]"

definition bulk_window_seconds :: int where
  "bulk_window_seconds = 60 * 60"

subsection \<open>The cooldown cache\<close>

type_synonym cooldown_key = "string \<times> string \<times> string"

record cooldown_cache =
  cl_entries :: "(cooldown_key \<times> int) list"
  cl_last_sweep :: int

definition sweep_period :: int where
  "sweep_period = seconds 60"

definition sweep_expired :: "int \<Rightarrow> cooldown_cache \<Rightarrow> cooldown_cache" where
  "sweep_expired tick c =
     (if tick - cl_last_sweep c < sweep_period then c
      else \<lparr>cl_entries = filter (\<lambda>(k, e). e > tick) (cl_entries c), cl_last_sweep = tick\<rparr>)"

definition cache_set :: "int \<Rightarrow> cooldown_key \<Rightarrow> int \<Rightarrow> cooldown_cache \<Rightarrow> cooldown_cache" where
  "cache_set tick key ttl c =
     (let c' = sweep_expired tick c
      in c'\<lparr>cl_entries := AList.update key (tick + seconds ttl) (cl_entries c')\<rparr>)"

definition get_remaining :: "int \<Rightarrow> cooldown_key \<Rightarrow> cooldown_cache \<Rightarrow> int \<times> cooldown_cache" where
  "get_remaining tick key c =
     (let c' = sweep_expired tick c
      in (case map_of (cl_entries c') key of None \<Rightarrow> 0 | Some e \<Rightarrow> max 0 (whole_seconds (e - tick)), c'))"

definition check_cooldown :: "int \<Rightarrow> cooldown_key \<Rightarrow> cooldown_cache \<Rightarrow> (bool \<times> int) \<times> cooldown_cache" where
  "check_cooldown tick key c = (let (r, c') = get_remaining tick key c in ((r > 0, r), c'))"

definition set_cooldown ::
  "guard_config \<Rightarrow> int \<Rightarrow> string \<Rightarrow> string \<Rightarrow> string \<Rightarrow> cooldown_cache \<Rightarrow> cooldown_cache" where
  "set_cooldown g tick agent op target c =
     cache_set tick (agent, op, target) (dict_get (cooldowns g) op 60) c"

subsection \<open>The operation log\<close>

record ai_operation =
  ao_time :: instant
  ao_persona :: string
  ao_agent :: string
  ao_operation :: string
  ao_target_type :: string
  ao_target :: string
  ao_name :: string
  ao_result :: string
  ao_blocked_reason :: "string option"

record guard_state =
  gs_cache :: cooldown_cache
  gs_log :: "ai_operation list"

text \<open>
  A successful operation sets its cooldown before the row is committed; with \<open>db_fails\<close> the commit
  raises, the row is rolled back and the cooldown stays.
\<close>

definition record_operation ::
  "guard_config \<Rightarrow> int \<Rightarrow> bool \<Rightarrow> ai_operation \<Rightarrow> guard_state \<Rightarrow> (py_exc + unit) \<times> guard_state" where
  "record_operation g tick db_fails entry s =
     (let c = (if ao_result entry = ''success''
               then set_cooldown g tick (ao_agent entry) (ao_operation entry) (ao_target entry) (gs_cache s)
               else gs_cache s)
      in if db_fails then (Inl (DatabaseError ''ai_operation_log''), s\<lparr>gs_cache := c\<rparr>)
         else (Inr (), \<lparr>gs_cache = c, gs_log = gs_log s @ [entry]\<rparr>))"

subsection \<open>The guards\<close>

record guard_result =
  gr_allowed :: bool
  gr_reason :: "string option"
  gr_remaining :: "int option"
  gr_escalate :: bool

definition allow :: guard_result where
  "allow = \<lparr>gr_allowed = True, gr_reason = None, gr_remaining = None, gr_escalate = False\<rparr>"

definition block_because :: "string \<Rightarrow> guard_result" where
  "block_because why = \<lparr>gr_allowed = False, gr_reason = Some why, gr_remaining = None, gr_escalate = False\<rparr>"

definition escalate :: "string \<Rightarrow> guard_result" where
  "escalate why = \<lparr>gr_allowed = True, gr_reason = Some why, gr_remaining = None, gr_escalate = True\<rparr>"

text \<open>\<open>now.replace(second=0, microsecond=0)\<close>\<close>

definition minute_start :: "instant \<Rightarrow> instant" where
  "minute_start now = now - now mod seconds 60"

definition done_since :: "instant \<Rightarrow> string \<Rightarrow> string \<Rightarrow> ai_operation list \<Rightarrow> ai_operation list" where
  "done_since cutoff agent op ops_log =
     filter (\<lambda>r. ao_agent r = agent \<and> ao_operation r = op \<and> ao_time r > cutoff \<and> ao_result r = ''success'') ops_log"

definition diagnosed_since :: "instant \<Rightarrow> string \<Rightarrow> ai_operation list \<Rightarrow> bool" where
  "diagnosed_since cutoff agent ops_log =
     list_ex (\<lambda>r. ao_agent r = agent \<and> ao_operation r = ''diagnose'' \<and> ao_time r > cutoff) ops_log"

definition check_behavioral_guards ::
  "instant \<Rightarrow> string \<Rightarrow> string \<Rightarrow> string \<Rightarrow> ai_operation list \<Rightarrow> guard_result" where
  "check_behavioral_guards now agent op target ops_log =
     (let cutoff_1h = minute_start now;
          cutoff_10m = now - seconds 600;
          cutoff_5m = now - seconds 300
      in if op = ''close'' \<and>
            length (filter (\<lambda>r. ao_target r = target) (done_since cutoff_1h agent ''close'' ops_log)) > 3 \<and>
            \<not> diagnosed_since cutoff_1h agent ops_log
         then block_because ''Close without diagnostic: >3 closes/hour without any diagnostic''
         else if op = ''ack'' \<and> length (done_since cutoff_10m agent ''ack'' ops_log) > 20 \<and>
            \<not> diagnosed_since cutoff_10m agent ops_log
         then block_because ''Ack flood: >20 acks/10min without any diagnostic''
         else if op = ''ci_metadata_update'' \<and> length (done_since cutoff_5m agent ''ci_metadata_update'' ops_log) > 5
         then block_because ''Metadata stampede: >5 CI updates/5min''
         else allow)"

definition check_bulk_detection ::
  "guard_config \<Rightarrow> instant \<Rightarrow> string \<Rightarrow> string \<Rightarrow> string list \<Rightarrow> ai_operation list \<Rightarrow> guard_result" where
  "check_bulk_detection g now agent op targets ops_log =
     (if length targets > 10
      then block_because (''Bulk operation too large: '' @ show_nat (length targets) @ '' entities (max 10)'')
      else
        let cutoff_1h = minute_start now;
            proposals = length (done_since (now - seconds bulk_window_seconds) agent op ops_log);
            same_op = length (filter (\<lambda>r. ao_agent r = agent \<and> ao_operation r = op \<and> ao_time r > cutoff_1h) ops_log);
            cis = length (remdups (map ao_target
                    (filter (\<lambda>r. ao_agent r = agent \<and> ao_target_type r = ''ci'' \<and> ao_time r > cutoff_1h) ops_log)))
        in if op = ''propose_ci'' \<and> proposals \<ge> gc_bulk_threshold g
           then escalate (''propose_ci bulk threshold reached: '' @ show_nat proposals
                  @ '' proposals in the last 60 minutes (limit '' @ show_nat (gc_bulk_threshold g) @ '')'')
           else if same_op \<ge> 50
           then escalate (''High volume: '' @ show_nat same_op @ '' same operations in the last hour'')
           else if targets \<noteq> [] \<and> cis \<ge> 30
           then escalate (''High CI diversity: '' @ show_nat cis @ '' different CIs in the last hour'')
           else allow)"

definition check_all_guards ::
  "guard_config \<Rightarrow> int \<Rightarrow> instant \<Rightarrow> string \<Rightarrow> string \<Rightarrow> string list \<Rightarrow> guard_state \<Rightarrow> guard_result \<times> guard_state" where
  "check_all_guards g tick now agent op targets s =
     (let target = (case targets of [] \<Rightarrow> '''' | t # _ \<Rightarrow> t);
          ((blocked, remaining), c) = check_cooldown tick (agent, op, target) (gs_cache s);
          s' = s\<lparr>gs_cache := c\<rparr>;
          behavior = check_behavioral_guards now agent op target (gs_log s)
      in if blocked
         then (\<lparr>gr_allowed = False, gr_reason = Some ''Cooldown active'', gr_remaining = Some remaining,
                gr_escalate = False\<rparr>, s')
         else if \<not> gr_allowed behavior then (behavior, s')
         else (check_bulk_detection g now agent op targets (gs_log s), s'))"

subsection \<open>Cooldowns hold and end\<close>

text \<open>What the process does with the cache between two instants.\<close>

datatype cooldown_op = Set_cooldown string string string | Check_cooldown cooldown_key

definition cooldown_step :: "guard_config \<Rightarrow> int \<Rightarrow> cooldown_op \<Rightarrow> cooldown_cache \<Rightarrow> cooldown_cache" where
  "cooldown_step g tick op c =
     (case op of Set_cooldown a p t \<Rightarrow> set_cooldown g tick a p t c
      | Check_cooldown k \<Rightarrow> snd (check_cooldown tick k c))"

fun cooldown_run :: "guard_config \<Rightarrow> (int \<times> cooldown_op) list \<Rightarrow> cooldown_cache \<Rightarrow> cooldown_cache" where
  "cooldown_run g [] c = c"
| "cooldown_run g ((tick, op) # ops) c = cooldown_run g ops (cooldown_step g tick op c)"

definition sets_key :: "cooldown_key \<Rightarrow> cooldown_op \<Rightarrow> bool" where
  "sets_key k op = (case op of Set_cooldown a p t \<Rightarrow> (a, p, t) = k | Check_cooldown _ \<Rightarrow> False)"

text \<open>When a key's cooldown ends, as an observer at \<open>tick\<close> can tell.\<close>

definition cooldown_end :: "int \<Rightarrow> cooldown_key \<Rightarrow> cooldown_cache \<Rightarrow> int option" where
  "cooldown_end tick k c =
     (case map_of (cl_entries c) k of None \<Rightarrow> None | Some e \<Rightarrow> if e > tick then Some e else None)"

lemma map_of_filter_live:
  "distinct (map fst xs) \<Longrightarrow>
     map_of (filter (\<lambda>(k, e). e > (tick::int)) xs) k =
       (case map_of xs k of None \<Rightarrow> None | Some e \<Rightarrow> if e > tick then Some e else None)"
proof (induction xs)
  case Nil
  then show ?case by simp
next
  case (Cons x xs)
  obtain k' e where x: "x = (k', e)" by force
  with Cons.prems have "map_of xs k' = None" by (simp add: map_of_eq_None_iff)
  with Cons x show ?case by auto
qed

definition cache_ok :: "cooldown_cache \<Rightarrow> bool" where
  "cache_ok c = distinct (map fst (cl_entries c))"

lemma sweep_ok: "cache_ok c \<Longrightarrow> cache_ok (sweep_expired tick c)"
  by (auto simp: cache_ok_def sweep_expired_def distinct_map_filter)

lemma sweep_end:
  "cache_ok c \<Longrightarrow> tick \<le> later \<Longrightarrow> cooldown_end later k (sweep_expired tick c) = cooldown_end later k c"
  by (auto simp: cache_ok_def sweep_expired_def cooldown_end_def map_of_filter_live split: option.split)

lemma step_end:
  assumes "cache_ok c" "tick \<le> later" "\<not> sets_key k op"
  shows "cache_ok (cooldown_step g tick op c)"
    and "cooldown_end later k (cooldown_step g tick op c) = cooldown_end later k c"
proof -
  have "cache_ok (cooldown_step g tick op c) \<and>
      cooldown_end later k (cooldown_step g tick op c) = cooldown_end later k c"
  proof (cases op)
    case (Set_cooldown a p t)
    have "cooldown_end later k (sweep_expired tick c) = cooldown_end later k c"
      using assms sweep_end by blast
    with Set_cooldown assms sweep_ok [OF assms(1), of tick] show ?thesis
      by (auto simp: cooldown_step_def set_cooldown_def cache_set_def Let_def sets_key_def cache_ok_def
          cooldown_end_def map_of_update distinct_update)
  next
    case (Check_cooldown k')
    with assms show ?thesis
      by (simp add: cooldown_step_def check_cooldown_def get_remaining_def Let_def sweep_end sweep_ok)
  qed
  then show "cache_ok (cooldown_step g tick op c)"
    "cooldown_end later k (cooldown_step g tick op c) = cooldown_end later k c" by simp_all
qed

lemma run_end:
  assumes "cache_ok c" "list_all (\<lambda>(tick, op). tick \<le> later \<and> \<not> sets_key k op) ops"
  shows "cache_ok (cooldown_run g ops c) \<and> cooldown_end later k (cooldown_run g ops c) = cooldown_end later k c"
  using assms
proof (induction ops arbitrary: c)
  case Nil
  then show ?case by simp
next
  case (Cons x ops)
  obtain tick op where x: "x = (tick, op)" by force
  with Cons.prems have "tick \<le> later" "\<not> sets_key k op" by auto
  note step = step_end [OF Cons.prems(1) this, of g]
  show ?case using Cons.IH [OF step(1)] Cons.prems(2) step(2) x by simp
qed

lemma check_end:
  assumes "cache_ok c"
  shows "fst (check_cooldown tick k c) =
    (case cooldown_end tick k c of None \<Rightarrow> (False, 0)
     | Some e \<Rightarrow> (e - tick \<ge> seconds 1, whole_seconds (e - tick)))"
proof -
  have "cooldown_end tick k (sweep_expired tick c) = cooldown_end tick k c"
    using sweep_end [OF assms order_refl] .
  then show ?thesis
    by (auto simp: check_cooldown_def get_remaining_def Let_def cooldown_end_def whole_seconds_def
        seconds_def pos_imp_zdiv_pos_iff max_def pos_imp_zdiv_neg_iff not_less
        split: option.splits if_splits)
qed

lemma set_end:
  assumes "cache_ok c" "t \<le> later"
  shows "cache_ok (set_cooldown g t a p x c)"
    and "cooldown_end later (a, p, x) (set_cooldown g t a p x c) =
      (if t + seconds (dict_get (cooldowns g) p 60) > later
       then Some (t + seconds (dict_get (cooldowns g) p 60)) else None)"
  using sweep_ok [OF assms(1), of t]
  by (simp_all add: set_cooldown_def cache_set_def Let_def cache_ok_def cooldown_end_def map_of_update
      distinct_update)

text \<open>
  A cooldown holds for its time and no longer. After an operation of an agent on a target has
  been recorded, the same operation on the same target is refused while at least a second of its
  cooldown is left, and allowed afterwards, whatever other cooldowns are set or checked and
  whenever the periodic sweep runs in between; the answer carries the whole seconds left.
\<close>

theorem cooldown_enforced:
  assumes "cache_ok c" "t \<le> later" "list_all (\<lambda>(tick, op). tick \<le> later \<and> \<not> sets_key (a, p, x) op) ops"
  shows "fst (check_cooldown later (a, p, x) (cooldown_run g ops (set_cooldown g t a p x c))) =
    (let left = t + seconds (dict_get (cooldowns g) p 60) - later
     in if left > 0 then (left \<ge> seconds 1, whole_seconds left) else (False, 0))"
proof -
  note set_facts = set_end [OF assms(1,2), where g = g and a = a and p = p and x = x]
  note run_facts = run_end [OF set_facts(1) assms(3), of g]
  show ?thesis
    using check_end [OF conjunct1 [OF run_facts], of later "(a, p, x)"] run_facts set_facts(2)
    by (simp add: Let_def)
qed

theorem cooldown_enforced_witness:
  "fst (check_cooldown (seconds 700) (''bot'', ''ack'', ''ev-1'')
     (cooldown_run default_guard_config
        [(seconds 200, Set_cooldown ''bot'' ''close'' ''ev-1''), (seconds 500, Check_cooldown (''bot'', ''ack'', ''ev-2''))]
        (set_cooldown default_guard_config (seconds 150) ''bot'' ''ack'' ''ev-1'' \<lparr>cl_entries = [], cl_last_sweep = 0\<rparr>)))
     = (True, 50)"
  by (subst cooldown_enforced) (simp add: cache_ok_def, simp, simp add: sets_key_def, code_simp)

text \<open>
  The hourly limits look at the current clock minute only. An agent's operations before the
  start of the minute count neither towards the 50 operations nor towards the 30 targets per
  hour: however many there were in the past hour, the request is allowed without escalation.
\<close>

theorem hourly_limits_see_one_minute:
  assumes "op \<noteq> ''propose_ci''" "length targets \<le> 10"
    and "list_all (\<lambda>r. ao_agent r = agent \<longrightarrow> ao_time r \<le> minute_start now) ops_log"
  shows "check_bulk_detection g now agent op targets ops_log = allow"
proof -
  have none: "filter (\<lambda>r. ao_agent r = agent \<and> Q r \<and> ao_time r > minute_start now) ops_log = []" for Q
    using assms(3) by (auto simp: filter_empty_conv list_all_iff not_less)
  show ?thesis using assms(1,2) by (simp add: check_bulk_detection_def Let_def none)
qed

theorem hourly_limits_see_one_minute_witness:
  "let busy = map (\<lambda>i. \<lparr>ao_time = seconds (7199 - i), ao_persona = ''AI_OPERATOR'', ao_agent = ''bot'',
       ao_operation = ''ack'', ao_target_type = ''ci'', ao_target = show_int i, ao_name = '''',
       ao_result = ''success'', ao_blocked_reason = None\<rparr>) [0..200]
   in length busy = 201 \<and>
      check_bulk_detection default_guard_config (seconds 7200) ''bot'' ''ack'' [''ev''] busy = allow"
proof -
  have "minute_start (seconds 7200) = seconds 7200" by code_simp
  then show ?thesis
    unfolding Let_def
    by (intro conjI hourly_limits_see_one_minute) (simp_all add: list_all_iff)
qed

end
