(* ===== verification/Audit_Trail.thy ===== *)
theory Audit_Trail
  imports Py_Values
begin

section \<open>What the audit trail may hold (services/audit_service.py)\<close>

text \<open>
  The allow-list of context keys with its bounds on values, and the deny-list walker that redacts
  a manifest before it is written to the trail. \<open>str\<close> of keys is the identity: the keys of a JSON
  object are texts.
\<close>

definition allowed_context_keys :: "string list" where
  "allowed_context_keys =
     [''route'', ''method'', ''request_id'', ''changed_fields'', ''required_permission'',
      ''session_id'', ''user_id'', ''policy_profile'', ''throttle_seconds'', ''activity_anchor'',
      ''mapping_id'', ''source_device_id'', ''source_metric_id'', ''target_ci_id'', ''target_metric_def_id'',
      ''previous_state'', ''next_state'', ''version'',
      ''proposal_id'', ''proposed_by'', ''proposed_role'', ''actor_role'', ''resulted_ci_id'',
      ''applied_manifest_summary'', ''applied_manifest_attributes'', ''manifest_diff'', ''revoke_reason'']"

definition sensitive_context_keys :: "string list" where
  "sensitive_context_keys =
     [''authorization'', ''body'', ''cookie'', ''cookies'', ''password'', ''raw_body'', ''refresh_token'',
      ''request_body'', ''session_token'', ''token'']"

definition max_context_value_length :: nat where
  "max_context_value_length = 256"

definition max_context_list_length :: nat where
  "max_context_list_length = 25"

fun truncate_value :: "runtime \<Rightarrow> nat \<Rightarrow> pyval \<Rightarrow> pyval" where
  "truncate_value rt n PNone = PNone"
| "truncate_value rt n v = PStr (take n (text_of rt v))"

definition safe_scalar :: "runtime \<Rightarrow> pyval \<Rightarrow> pyval" where
  "safe_scalar rt v =
     (case v of PInt i \<Rightarrow> PInt i | PFloat x \<Rightarrow> PFloat x | PBool b \<Rightarrow> PBool b | PNone \<Rightarrow> PNone
      | _ \<Rightarrow> truncate_value rt max_context_value_length v)"

fun safe_context_value :: "runtime \<Rightarrow> pyval \<Rightarrow> pyval"
  and safe_context_items :: "runtime \<Rightarrow> nat \<Rightarrow> pyval list \<Rightarrow> pyval list"
  and safe_context_dict :: "runtime \<Rightarrow> pydict \<Rightarrow> pydict" where
  "safe_context_value rt (PDict d) = PDict (safe_context_dict rt d)"
| "safe_context_value rt (PList xs) = PList (safe_context_items rt max_context_list_length xs)"
| "safe_context_value rt v = safe_scalar rt v"
| "safe_context_items rt n [] = []"
| "safe_context_items rt n (x # xs) =
     (if n = 0 then [] else safe_context_value rt x # safe_context_items rt (n - 1) xs)"
| "safe_context_dict rt [] = []"
| "safe_context_dict rt ((k, v) # d) =
     (if lower k \<in> set sensitive_context_keys then safe_context_dict rt d
      else (k, safe_context_value rt v) # safe_context_dict rt d)"

definition sanitize_context :: "runtime \<Rightarrow> pydict \<Rightarrow> pydict option" where
  "sanitize_context rt d =
     (let safe = map (\<lambda>(k, v). (k, safe_context_value rt v))
            (filter (\<lambda>(k, v). lower k \<notin> set sensitive_context_keys \<and> k \<in> set allowed_context_keys) d)
      in if safe = [] then None else Some safe)"

subsection \<open>Redaction of manifests\<close>

definition hard_coded_secret_leaves :: "string list" where
  "hard_coded_secret_leaves = [''community'', ''authkey'', ''privkey'']"

definition secret_tokens :: "string list" where
  "secret_tokens = [''key'', ''token'', ''secret'', ''password'']"

definition redacted_value :: pyval where
  "redacted_value = PStr ''<REDACTED>''"

text \<open>
  \<open>(?i).*(key|token|secret|password).*\<close> matched at the start: the dot stops at a line end, so the
  token has to stand in the first line of the key.
\<close>

definition is_secret_field :: "string \<Rightarrow> bool" where
  "is_secret_field k =
     (lower (last (split_on (CHR ''.'') k)) \<in> set hard_coded_secret_leaves \<or>
      list_ex (\<lambda>t. contains t (lower (takeWhile (\<lambda>c. c \<noteq> CHR 0x0A) k))) secret_tokens)"

fun redact_value :: "pyval \<Rightarrow> pyval"
  and redact_items :: "pyval list \<Rightarrow> pyval list"
  and redact_dict :: "pydict \<Rightarrow> pydict" where
  "redact_value (PDict d) = PDict (redact_dict d)"
| "redact_value (PList xs) = PList (redact_items xs)"
| "redact_value v = v"
| "redact_items [] = []"
| "redact_items (x # xs) = redact_value x # redact_items xs"
| "redact_dict [] = []"
| "redact_dict ((k, v) # d) =
     (k, if is_secret_field k then redacted_value else redact_value v) # redact_dict d"

definition redact_manifest_secrets :: "pyval \<Rightarrow> pydict" where
  "redact_manifest_secrets m = (case m of PDict d \<Rightarrow> redact_dict d | _ \<Rightarrow> [])"

subsection \<open>Nothing secret, nothing unbounded\<close>

text \<open>A value every entry of which under a secret key is the redaction mark, at any depth.\<close>

fun redacted :: "pyval \<Rightarrow> bool"
  and redacted_items :: "pyval list \<Rightarrow> bool"
  and redacted_dict :: "pydict \<Rightarrow> bool" where
  "redacted (PDict d) = redacted_dict d"
| "redacted (PList xs) = redacted_items xs"
| "redacted v = True"
| "redacted_items [] = True"
| "redacted_items (x # xs) = (redacted x \<and> redacted_items xs)"
| "redacted_dict [] = True"
| "redacted_dict ((k, v) # d) =
     ((if is_secret_field k then v = redacted_value else redacted v) \<and> redacted_dict d)"

lemma redact_redacted: "redacted (redact_value v)" "redacted_items (redact_items xs)" "redacted_dict (redact_dict d)"
  by (induction v and xs and d rule: redact_value_redact_items_redact_dict.induct) simp_all

text \<open>Values the walker leaves as they are.\<close>

lemma redact_fixed:
  "redacted v \<Longrightarrow> redact_value v = v" "redacted_items xs \<Longrightarrow> redact_items xs = xs"
  "redacted_dict d \<Longrightarrow> redact_dict d = d"
  by (induction v and xs and d rule: redact_value_redact_items_redact_dict.induct) (simp_all split: if_splits)

lemma redact_keys: "map fst (redact_dict d) = map fst d"
  by (induction d) auto

text \<open>The bounds of a sanitised value.\<close>

fun bounded_value :: "pyval \<Rightarrow> bool"
  and bounded_items :: "pyval list \<Rightarrow> bool"
  and bounded_dict :: "pydict \<Rightarrow> bool" where
  "bounded_value (PDict d) = bounded_dict d"
| "bounded_value (PList xs) = (length xs \<le> max_context_list_length \<and> bounded_items xs)"
| "bounded_value (PStr s) = (length s \<le> max_context_value_length)"
| "bounded_value (PTime t) = False"
| "bounded_value v = True"
| "bounded_items [] = True"
| "bounded_items (x # xs) = (bounded_value x \<and> bounded_items xs)"
| "bounded_dict [] = True"
| "bounded_dict ((k, v) # d) = (lower k \<notin> set sensitive_context_keys \<and> bounded_value v \<and> bounded_dict d)"

lemma length_safe_items: "length (safe_context_items rt n xs) \<le> n"
proof (induction xs arbitrary: n)
  case Nil
  then show ?case by simp
next
  case (Cons x xs)
  from Cons.IH [of "n - 1"] show ?case by (cases n) auto
qed

lemma safe_bounded:
  "bounded_value (safe_context_value rt v)" "bounded_items (safe_context_items rt n xs)"
  "bounded_dict (safe_context_dict rt d)"
  by (induction rt v and rt n xs and rt d rule: safe_context_value_safe_context_items_safe_context_dict.induct)
     (simp_all add: safe_scalar_def length_safe_items)

text \<open>Sanitising keeps redacted values redacted: the mark is short and stays.\<close>

lemma safe_redacted_value: "safe_context_value rt redacted_value = redacted_value"
  by (simp add: redacted_value_def safe_scalar_def max_context_value_length_def)

lemma safe_redacted:
  "redacted v \<Longrightarrow> redacted (safe_context_value rt v)"
  "redacted_items xs \<Longrightarrow> redacted_items (safe_context_items rt n xs)"
  "redacted_dict d \<Longrightarrow> redacted_dict (safe_context_dict rt d)"
  by (induction rt v and rt n xs and rt d rule: safe_context_value_safe_context_items_safe_context_dict.induct)
     (auto simp: safe_scalar_def safe_redacted_value split: if_splits)


lemma redacted_dict_iff:
  "redacted_dict d \<longleftrightarrow> list_all (\<lambda>(k, v). if is_secret_field k then v = redacted_value else redacted v) d"
proof (induction d)
  case Nil
  then show ?case by simp
next
  case (Cons x d)
  then show ?case by (cases x) (simp del: split_paired_All)
qed

lemma bounded_dict_iff:
  "bounded_dict d \<longleftrightarrow> list_all (\<lambda>(k, v). lower k \<notin> set sensitive_context_keys \<and> bounded_value v) d"
  by (induction d) auto

lemma sanitized_clean:
  assumes "sanitize_context rt d = Some c"
  shows "bounded_dict c" and "redacted_dict d \<Longrightarrow> redacted_dict c"
    and "set (map fst c) \<subseteq> set allowed_context_keys"
proof -
  have c: "c = map (\<lambda>(k, v). (k, safe_context_value rt v))
      (filter (\<lambda>(k, v). lower k \<notin> set sensitive_context_keys \<and> k \<in> set allowed_context_keys) d)"
    using assms by (simp add: sanitize_context_def Let_def split: if_splits)
  have from_d: "\<exists>w. v = safe_context_value rt w \<and> (k, w) \<in> set d \<and> lower k \<notin> set sensitive_context_keys \<and>
      k \<in> set allowed_context_keys" if "(k, v) \<in> set c" for k v
    using that unfolding c by auto
  show "bounded_dict c"
    using from_d safe_bounded(1) unfolding bounded_dict_iff list_all_iff by fast
  show "set (map fst c) \<subseteq> set allowed_context_keys"
    using from_d by fastforce
  show "redacted_dict c" if "redacted_dict d"
    unfolding redacted_dict_iff list_all_iff
  proof clarify
    fix k v
    assume "(k, v) \<in> set c"
    with from_d obtain w where v: "v = safe_context_value rt w" and "(k, w) \<in> set d" by blast
    with that have "if is_secret_field k then w = redacted_value else redacted w"
      by (auto simp: redacted_dict_iff list_all_iff)
    then show "if is_secret_field k then v = redacted_value else redacted v"
      unfolding v by (simp add: safe_redacted_value safe_redacted(1) split: if_splits)
  qed
qed


subsection \<open>Writing the trail\<close>

text \<open>What the service reads of a request; header names are lower case.\<close>

record http_request =
  hr_path :: "string option"
  hr_method :: "string option"
  hr_headers :: "(string \<times> string) list"
  hr_host :: "string option"

definition given :: "string option \<Rightarrow> bool" where
  "given v = (case v of None \<Rightarrow> False | Some s \<Rightarrow> s \<noteq> '''')"

definition context_entry :: "string \<Rightarrow> string option \<Rightarrow> pydict" where
  "context_entry k v = (case v of None \<Rightarrow> [] | Some s \<Rightarrow> if s = '''' then [] else [(k, PStr s)])"

definition build_request_context :: "http_request option \<Rightarrow> pydict" where
  "build_request_context rq =
     (case rq of None \<Rightarrow> []
      | Some r \<Rightarrow> context_entry ''route'' (hr_path r) @ context_entry ''method'' (hr_method r) @
                 context_entry ''request_id'' (map_of (hr_headers r) ''x-request-id''))"

definition cut :: "nat \<Rightarrow> string option \<Rightarrow> string option" where
  "cut n = map_option (take n)"

definition request_ip :: "http_request option \<Rightarrow> string option" where
  "request_ip rq =
     (case rq of None \<Rightarrow> None
      | Some r \<Rightarrow>
          (case map_of (hr_headers r) ''x-forwarded-for'' of
             Some f \<Rightarrow> if f = '''' then cut 64 (hr_host r) else Some (take 64 (strip (hd (split_on (CHR '','') f))))
           | None \<Rightarrow> cut 64 (hr_host r)))"

definition request_user_agent :: "http_request option \<Rightarrow> string option" where
  "request_user_agent rq =
     (case rq of None \<Rightarrow> None | Some r \<Rightarrow> cut 256 (map_of (hr_headers r) ''user-agent''))"

record audit_actor =
  aa_username :: "string option"
  aa_role :: "string option"

record audit_event =
  ev_type :: string
  ev_outcome :: string
  ev_actor :: "string option"
  ev_actor_role :: "string option"
  ev_target_type :: "string option"
  ev_target :: "string option"
  ev_label :: "string option"
  ev_source :: "string option"
  ev_ip :: "string option"
  ev_user_agent :: "string option"
  ev_reason :: "string option"
  ev_context :: "pydict option"
  ev_created :: instant

text \<open>A failure to store an event is logged and forgotten.\<close>

definition persist_event :: "bool \<Rightarrow> audit_event \<Rightarrow> audit_event list \<Rightarrow> audit_event list" where
  "persist_event db_fails event trail = (if db_fails then trail else trail @ [event])"

definition record_auth_event ::
  "runtime \<Rightarrow> instant \<Rightarrow> bool \<Rightarrow> http_request option \<Rightarrow> string \<Rightarrow> string \<Rightarrow> string option \<Rightarrow> string option \<Rightarrow> pydict \<Rightarrow>
     audit_event list \<Rightarrow> audit_event list" where
  "record_auth_event rt now db_fails rq event outcome username reason ctx =
     persist_event db_fails
       \<lparr>ev_type = event, ev_outcome = outcome, ev_actor = cut 128 username, ev_actor_role = None,
        ev_target_type = Some ''auth'', ev_target = cut 256 username, ev_label = cut 256 username,
        ev_source = Some ''auth'', ev_ip = request_ip rq, ev_user_agent = request_user_agent rq,
        ev_reason = cut 128 reason,
        ev_context = sanitize_context rt (merge_dict (build_request_context rq) ctx), ev_created = now\<rparr>"

definition record_critical_change ::
  "runtime \<Rightarrow> instant \<Rightarrow> bool \<Rightarrow> http_request option \<Rightarrow> audit_actor option \<Rightarrow> string \<Rightarrow> string \<Rightarrow> string \<Rightarrow>
     string option \<Rightarrow> string option \<Rightarrow> string option \<Rightarrow> string option \<Rightarrow> pydict \<Rightarrow>
     audit_event list \<Rightarrow> audit_event list" where
  "record_critical_change rt now db_fails rq actor event outcome ttype target label reason source ctx =
     persist_event db_fails
       \<lparr>ev_type = event, ev_outcome = outcome,
        ev_actor = cut 128 (case actor of None \<Rightarrow> None | Some a \<Rightarrow> aa_username a),
        ev_actor_role = cut 64 (case actor of None \<Rightarrow> None | Some a \<Rightarrow> aa_role a),
        ev_target_type = Some (take 64 ttype), ev_target = cut 256 target, ev_label = cut 256 label,
        ev_source = cut 64 source, ev_ip = request_ip rq, ev_user_agent = request_user_agent rq,
        ev_reason = cut 128 reason,
        ev_context = sanitize_context rt (merge_dict (build_request_context rq) ctx), ev_created = now\<rparr>"

definition record_denied ::
  "runtime \<Rightarrow> instant \<Rightarrow> bool \<Rightarrow> http_request option \<Rightarrow> audit_actor option \<Rightarrow> string \<Rightarrow> string \<Rightarrow>
     string option \<Rightarrow> string option \<Rightarrow> string option \<Rightarrow> audit_event list \<Rightarrow> audit_event list" where
  "record_denied rt now db_fails rq actor permission ttype target reason source =
     record_critical_change rt now db_fails rq actor ''ACCESS_DENIED'' ''DENIED'' ttype target None
       (if given reason then reason else Some (''missing_permission:'' @ permission)) source
       [(''required_permission'', PStr permission)]"

definition cleanup_old_events :: "int \<Rightarrow> instant \<Rightarrow> audit_event list \<Rightarrow> nat \<times> audit_event list" where
  "cleanup_old_events days now trail =
     (let cutoff = now - seconds (days * 86400)
      in (length (filter (\<lambda>e. ev_created e < cutoff) trail), filter (\<lambda>e. \<not> ev_created e < cutoff) trail))"

subsection \<open>Clean events\<close>

text \<open>The column sizes of the table hold, and the context is bounded, allow-listed and redacted.\<close>

definition fits :: "nat \<Rightarrow> string option \<Rightarrow> bool" where
  "fits n v = (case v of None \<Rightarrow> True | Some s \<Rightarrow> length s \<le> n)"

lemma fits_cut [simp]: "fits n (cut n v)"
  by (auto simp: fits_def cut_def split: option.split)

lemma fits_take [simp]: "fits n (Some (take n s))"
  by (simp add: fits_def)

definition clean_event :: "audit_event \<Rightarrow> bool" where
  "clean_event e =
     (fits 128 (ev_actor e) \<and> fits 64 (ev_actor_role e) \<and> fits 64 (ev_target_type e) \<and>
      fits 256 (ev_target e) \<and> fits 256 (ev_label e) \<and> fits 64 (ev_source e) \<and> fits 64 (ev_ip e) \<and>
      fits 256 (ev_user_agent e) \<and> fits 128 (ev_reason e) \<and>
      (case ev_context e of None \<Rightarrow> True
       | Some c \<Rightarrow> bounded_dict c \<and> redacted_dict c \<and> set (map fst c) \<subseteq> set allowed_context_keys))"

lemma fits_ip [simp]: "fits 64 (request_ip rq)"
  by (auto simp: request_ip_def fits_def cut_def split: option.splits)

lemma fits_agent [simp]: "fits 256 (request_user_agent rq)"
  by (auto simp: request_user_agent_def fits_def cut_def split: option.splits)

lemma set_merge_dict: "x \<in> set (merge_dict d e) \<Longrightarrow> x \<in> set d \<or> x \<in> set e"
  by (induction d e rule: merge_dict.induct) (auto dest: set_dict_update)

lemma request_context_plain: "redacted_dict (build_request_context rq)"
proof -
  have "\<not> is_secret_field ''route''" "\<not> is_secret_field ''method''" "\<not> is_secret_field ''request_id''" by code_simp+
  then show ?thesis
    by (auto simp: build_request_context_def context_entry_def redacted_dict_iff list_all_iff split: option.splits if_splits)
qed

lemma merged_redacted: "redacted_dict d \<Longrightarrow> redacted_dict e \<Longrightarrow> redacted_dict (merge_dict d e)"
  unfolding redacted_dict_iff list_all_iff using set_merge_dict by fast

lemma change_clean:
  assumes "list_all clean_event trail" "redacted_dict ctx"
  shows "list_all clean_event
    (record_critical_change rt now db_fails rq actor event outcome ttype target label reason source ctx trail)"
proof -
  have "redacted_dict (merge_dict (build_request_context rq) ctx)"
    using merged_redacted request_context_plain assms(2) by blast
  then show ?thesis
    using assms(1) sanitized_clean [of rt "merge_dict (build_request_context rq) ctx"]
    by (auto simp: record_critical_change_def persist_event_def clean_event_def split: option.split)
qed

end
