(* ===== verification/Cmdb_Proposals.thy ===== *)
theory Cmdb_Proposals
  imports Ai_Guard Audit_Trail
begin

section \<open>CMDB proposals (services/cmdb_proposal_service.py, repositories/cmdb_proposal_repo.py)\<close>

text \<open>
  The life of a proposal to add configuration items: an agent drafts it, a human approves it
  (which writes the items to the graph) or revokes it, and a sweep revokes stale drafts. The
  state holds the graph database (items, categories, metric links, proposals), the guard state of
  the process and the audit trail.

  What the code takes from elsewhere is the record \<open>cmdb_env\<close>: the field parsers of pydantic for a
  manifest and for a node, the IP address parser, and which database calls fail at the moment.
  The JSON text of a stored manifest is represented by the JSON object itself. An error carries its
  status and the fields of its detail; a detail that is only a text is its reason, and hints and the
  texts of exceptions are left out.
\<close>

subsection \<open>Items, manifests and proposals\<close>

record node =
  nd_id :: string
  nd_label :: string
  nd_type :: string
  nd_status :: "string option"
  nd_ip :: "string option"
  nd_public_ip :: "string option"
  nd_location :: "pydict option"
  nd_metadata :: "pydict option"
  nd_owner :: "string option"
  nd_location_name :: "string option"
  nd_polling :: "int option"
  nd_snmp :: pyval
  nd_brand :: "string option"
  nd_model :: "string option"
  nd_serial :: "string option"
  nd_firmware :: "string option"
  nd_metrics :: "pyval option"

datatype manifest_mode = Single | Bulk

record manifest =
  mf_schema_version :: int
  mf_ci :: "node option"
  mf_cis :: "node list option"
  mf_mode :: manifest_mode
  mf_rationale :: string
  mf_source_refs :: "string list"

datatype proposal_status = DRAFT | APPROVED | REVOKED

fun status_text :: "proposal_status \<Rightarrow> string" where
  "status_text DRAFT = ''DRAFT''"
| "status_text APPROVED = ''APPROVED''"
| "status_text REVOKED = ''REVOKED''"

record proposal =
  pr_id :: string
  pr_manifest :: pydict
  pr_applied :: "pydict option"
  pr_status :: proposal_status
  pr_version :: int
  pr_proposed_by :: string
  pr_proposed_role :: string
  pr_reviewed_by :: "string option"
  pr_reviewed_at :: "instant option"
  pr_created :: instant
  pr_updated :: instant
  pr_resulted_ci :: "string option"
  pr_revoke_reason :: "string option"
  pr_category :: "string option"
  pr_ci :: "string option"
  pr_mode :: "string option"
  pr_count :: "nat option"

text \<open>A configuration item as the graph keeps it: the node's metadata is not among its properties.\<close>

record ci_row =
  cr_id :: string
  cr_name :: string
  cr_layer :: string
  cr_status :: "string option"
  cr_ip :: "string option"
  cr_owner :: "string option"
  cr_location_name :: "string option"
  cr_brand :: "string option"
  cr_model :: "string option"
  cr_serial :: string
  cr_firmware :: string
  cr_snmp :: pyval
  cr_polling :: "int option"
  cr_public_ip :: "string option"
  cr_point :: "(pyval \<times> pyval) option"

record account =
  ac_name :: string
  ac_role :: "string option"
  ac_permissions :: "string list"

record cmdb =
  cm_items :: "ci_row list"
  cm_categories :: "string list"
  cm_owners :: "string list"
  cm_models :: "(string \<times> string) list"
  cm_metric_links :: "(string \<times> string) list"
  cm_proposals :: "proposal list"
  cm_guard :: guard_state
  cm_audit :: "audit_event list"

record cmdb_env =
  ce_rt :: runtime
  ce_guard :: guard_config
  ce_manifest :: "pydict \<Rightarrow> manifest option"
  ce_node :: "pydict \<Rightarrow> node option"
  ce_valid_ip :: "string \<Rightarrow> bool"
  ce_catalog_fails :: bool
  ce_lookup_fails :: bool
  ce_log_fails :: bool
  ce_audit_fails :: bool
  ce_request :: "http_request option"
  ce_write_fails :: "string \<Rightarrow> bool"

text \<open>An error a handler raises: an HTTP status with its detail object, or any other exception.\<close>

datatype api_error = Api nat pydict | Crash string

definition detail :: "string \<Rightarrow> pydict" where
  "detail why = [(''reason'', PStr why)]"

definition opt_str :: "string option \<Rightarrow> pyval" where
  "opt_str v = (case v of None \<Rightarrow> PNone | Some s \<Rightarrow> PStr s)"

definition role_or :: "account \<Rightarrow> string \<Rightarrow> string" where
  "role_or u dflt = (case ac_role u of None \<Rightarrow> dflt | Some r \<Rightarrow> if r = '''' then dflt else r)"

subsection \<open>Validation of a manifest (models/cmdb_proposal.py)\<close>

definition blocked_ai_update_fields :: "string list" where
  "blocked_ai_update_fields =
     [''id'', ''label'', ''type'', ''brand'', ''model'', ''serialNumber'', ''firmwareVersion'', ''ip'', ''snmp'', ''location'']"

definition category_as_type :: "pydict \<Rightarrow> pydict" where
  "category_as_type ci =
     (if \<not> has_key ci ''type'' \<and> has_key ci ''category'' then put ''type'' (get ci ''category'') ci else ci)"

definition coerce_category_to_type :: "pydict \<Rightarrow> pydict" where
  "coerce_category_to_type data =
     (let d1 = (case get data ''ci'' of PDict ci \<Rightarrow> put ''ci'' (PDict (category_as_type ci)) data | _ \<Rightarrow> data)
      in case get d1 ''cis'' of
           PList vs \<Rightarrow> put ''cis'' (PList (map (\<lambda>v. case v of PDict ci \<Rightarrow> PDict (category_as_type ci) | _ \<Rightarrow> v) vs)) d1
         | _ \<Rightarrow> d1)"

definition metadata_blocked :: "node \<Rightarrow> bool" where
  "metadata_blocked n =
     (case nd_metadata n of None \<Rightarrow> False
      | Some m \<Rightarrow> list_ex (\<lambda>k. k \<in> set blocked_ai_update_fields) (map fst m))"

definition single_or_bulk :: "manifest \<Rightarrow> bool" where
  "single_or_bulk m =
     (case (mf_ci m, mf_cis m) of
        (None, Some (c # cs)) \<Rightarrow> mf_mode m = Bulk \<and> list_all (\<lambda>n. \<not> metadata_blocked n) (c # cs)
      | (Some ci, None) \<Rightarrow> mf_mode m = Single \<and> \<not> metadata_blocked ci
      | (Some ci, Some []) \<Rightarrow> mf_mode m = Single \<and> \<not> metadata_blocked ci
      | _ \<Rightarrow> False)"

definition validate_manifest :: "cmdb_env \<Rightarrow> pydict \<Rightarrow> manifest option" where
  "validate_manifest e d =
     (case ce_manifest e (coerce_category_to_type d) of None \<Rightarrow> None
      | Some m \<Rightarrow> if mf_schema_version m = 1 \<and> single_or_bulk m then Some m else None)"

text \<open>\<open>model_dump(mode="json")\<close>\<close>

definition dump_node :: "node \<Rightarrow> pydict" where
  "dump_node n =
     [(''id'', PStr (nd_id n)), (''label'', PStr (nd_label n)), (''type'', PStr (nd_type n)),
      (''status'', opt_str (nd_status n)), (''ip'', opt_str (nd_ip n)), (''public_ip'', opt_str (nd_public_ip n)),
      (''location'', case nd_location n of None \<Rightarrow> PNone | Some d \<Rightarrow> PDict d),
      (''metadata'', case nd_metadata n of None \<Rightarrow> PNone | Some d \<Rightarrow> PDict d),
      (''owner'', opt_str (nd_owner n)), (''location_name'', opt_str (nd_location_name n)),
      (''pollingInterval'', case nd_polling n of None \<Rightarrow> PNone | Some i \<Rightarrow> PInt i),
      (''snmp'', nd_snmp n), (''brand'', opt_str (nd_brand n)), (''model'', opt_str (nd_model n)),
      (''serialNumber'', opt_str (nd_serial n)), (''firmwareVersion'', opt_str (nd_firmware n)),
      (''metrics'', case nd_metrics n of None \<Rightarrow> PNone | Some v \<Rightarrow> v)]"

definition dump_manifest :: "manifest \<Rightarrow> pydict" where
  "dump_manifest m =
     [(''schema_version'', PInt (mf_schema_version m)),
      (''ci'', case mf_ci m of None \<Rightarrow> PNone | Some n \<Rightarrow> PDict (dump_node n)),
      (''cis'', case mf_cis m of None \<Rightarrow> PNone | Some ns \<Rightarrow> PList (map (\<lambda>n. PDict (dump_node n)) ns)),
      (''mode'', PStr (case mf_mode m of Single \<Rightarrow> ''single'' | Bulk \<Rightarrow> ''bulk'')),
      (''rationale'', PStr (mf_rationale m)),
      (''source_refs'', PList (map PStr (mf_source_refs m)))]"

subsection \<open>The repository\<close>

definition whole_second :: "instant \<Rightarrow> instant" where
  "whole_second now = now - now mod seconds 1"

text \<open>
  \<open>manifest_mode\<close> and \<open>ci_count\<close> are derived from the manifest where the caller gives none. The
  unique constraint on the id refuses a second proposal with it.
\<close>

definition manifest_mode_of :: "pydict \<Rightarrow> string" where
  "manifest_mode_of m = (if truthy (get m ''cis'') then ''bulk'' else ''single'')"

definition ci_count_of :: "string \<Rightarrow> pydict \<Rightarrow> nat" where
  "ci_count_of mode m =
     (if mode = ''bulk'' then (case por (get m ''cis'') (PList []) of PList vs \<Rightarrow> length vs | _ \<Rightarrow> 1) else 1)"

definition create_draft ::
  "instant \<Rightarrow> string \<Rightarrow> pydict \<Rightarrow> string \<Rightarrow> string \<Rightarrow> string option \<Rightarrow> string option \<Rightarrow> string option \<Rightarrow> nat option \<Rightarrow>
     cmdb \<Rightarrow> (proposal \<times> cmdb) option" where
  "create_draft now pid m by role cat ci mode cnt db =
     (let the_mode = (case mode of Some x \<Rightarrow> x | None \<Rightarrow> manifest_mode_of m);
          the_count = (case cnt of Some n \<Rightarrow> n | None \<Rightarrow> ci_count_of the_mode m);
          p = \<lparr>pr_id = pid, pr_manifest = m, pr_applied = None, pr_status = DRAFT, pr_version = 1,
               pr_proposed_by = by, pr_proposed_role = role, pr_reviewed_by = None, pr_reviewed_at = None,
               pr_created = whole_second now, pr_updated = whole_second now, pr_resulted_ci = None,
               pr_revoke_reason = None, pr_category = cat, pr_ci = ci, pr_mode = Some the_mode,
               pr_count = Some the_count\<rparr>
      in if pid \<in> pr_id ` set (cm_proposals db) then None
         else Some (p, db\<lparr>cm_proposals := cm_proposals db @ [p]\<rparr>))"

definition repo_get :: "cmdb \<Rightarrow> string \<Rightarrow> proposal option" where
  "repo_get db pid = find (\<lambda>p. pr_id p = pid) (cm_proposals db)"

record list_filter =
  lf_status :: "string option"
  lf_category :: "string option"
  lf_proposed_by :: "string option"
  lf_from :: "instant option"
  lf_to :: "instant option"

definition in_listing :: "list_filter \<Rightarrow> proposal \<Rightarrow> bool" where
  "in_listing f p =
     ((case lf_status f of None \<Rightarrow> True | Some s \<Rightarrow> status_text (pr_status p) = s) \<and>
      (case lf_category f of None \<Rightarrow> True | Some c \<Rightarrow> pr_category p = Some c) \<and>
      (case lf_proposed_by f of None \<Rightarrow> True | Some u \<Rightarrow> pr_proposed_by p = u) \<and>
      (case lf_from f of None \<Rightarrow> True | Some t \<Rightarrow> t \<le> pr_created p) \<and>
      (case lf_to f of None \<Rightarrow> True | Some t \<Rightarrow> pr_created p \<le> t))"

definition repo_list :: "list_filter \<Rightarrow> int \<Rightarrow> int \<Rightarrow> cmdb \<Rightarrow> proposal list" where
  "repo_list f page page_size db =
     take (nat (max 1 page_size)) (drop (nat (max 0 ((page - 1) * page_size)))
       (sort_key (\<lambda>p. (- pr_created p, pr_id p)) (filter (in_listing f) (cm_proposals db))))"

text \<open>A transition: the rows that match id, version and status are changed; none is a conflict.\<close>

definition transition ::
  "(proposal \<Rightarrow> bool) \<Rightarrow> (proposal \<Rightarrow> proposal) \<Rightarrow> cmdb \<Rightarrow> (proposal \<times> cmdb) option" where
  "transition hit f db =
     (case find hit (cm_proposals db) of None \<Rightarrow> None
      | Some p \<Rightarrow> Some (f p, db\<lparr>cm_proposals := update_where hit f (cm_proposals db)\<rparr>))"

definition repo_approve ::
  "instant \<Rightarrow> string \<Rightarrow> int \<Rightarrow> string \<Rightarrow> pydict \<Rightarrow> string \<Rightarrow> cmdb \<Rightarrow> (proposal \<times> cmdb) option" where
  "repo_approve now pid expected by applied ci =
     transition (\<lambda>p. pr_id p = pid \<and> pr_version p = expected \<and> pr_status p = DRAFT)
       (\<lambda>p. p\<lparr>pr_status := APPROVED, pr_version := expected + 1, pr_reviewed_by := Some by,
              pr_reviewed_at := Some (whole_second now), pr_updated := whole_second now,
              pr_applied := Some applied, pr_resulted_ci := Some ci\<rparr>)"

definition repo_revoke ::
  "instant \<Rightarrow> string \<Rightarrow> int \<Rightarrow> string \<Rightarrow> string option \<Rightarrow> cmdb \<Rightarrow> (proposal \<times> cmdb) option" where
  "repo_revoke now pid expected by reason =
     transition (\<lambda>p. pr_id p = pid \<and> pr_version p = expected \<and> pr_status p \<in> {DRAFT, APPROVED})
       (\<lambda>p. p\<lparr>pr_status := REVOKED, pr_version := expected + 1, pr_reviewed_by := Some by,
              pr_reviewed_at := Some (whole_second now), pr_updated := whole_second now,
              pr_revoke_reason := reason\<rparr>)"

definition ttl_sweep :: "instant \<Rightarrow> int \<Rightarrow> cmdb \<Rightarrow> nat \<times> cmdb" where
  "ttl_sweep now days db =
     (let stale = (\<lambda>p. pr_status p = DRAFT \<and> pr_created p < now - seconds (days * 86400))
      in (length (filter stale (cm_proposals db)),
          db\<lparr>cm_proposals := update_where stale
            (\<lambda>p. p\<lparr>pr_status := REVOKED, pr_version := pr_version p + 1, pr_reviewed_by := Some ''SYSTEM'',
                   pr_reviewed_at := Some (whole_second now), pr_updated := whole_second now,
                   pr_revoke_reason := Some ''ttl_expired''\<rparr>) (cm_proposals db)\<rparr>))"

subsection \<open>Committing an item (services/node_service.py, repositories/topology_repo.py)\<close>

definition check_permission :: "string \<Rightarrow> account \<Rightarrow> bool" where
  "check_permission p u = (ac_role u = Some ''ADMIN'' \<or> p \<in> set (ac_permissions u))"

definition location_point :: "node \<Rightarrow> (pyval \<times> pyval) option" where
  "location_point n =
     (case nd_location n of None \<Rightarrow> None
      | Some d \<Rightarrow> if has_key d ''lat'' \<and> has_key d ''long'' then Some (get d ''lat'', get d ''long'') else None)"

definition non_empty :: "string option \<Rightarrow> bool" where
  "non_empty v = (case v of None \<Rightarrow> False | Some s \<Rightarrow> s \<noteq> '''')"

definition text_or_empty :: "string option \<Rightarrow> string" where
  "text_or_empty v = (case v of None \<Rightarrow> '''' | Some s \<Rightarrow> s)"

definition written_row :: "node \<Rightarrow> ci_row option \<Rightarrow> ci_row" where
  "written_row n old =
     \<lparr>cr_id = nd_id n, cr_name = nd_label n, cr_layer = nd_type n, cr_status = nd_status n, cr_ip = nd_ip n,
      cr_owner = nd_owner n, cr_location_name = nd_location_name n, cr_brand = nd_brand n, cr_model = nd_model n,
      cr_serial = text_or_empty (nd_serial n), cr_firmware = text_or_empty (nd_firmware n), cr_snmp = nd_snmp n,
      cr_polling = nd_polling n, cr_public_ip = nd_public_ip n,
      cr_point = (case location_point n of Some p \<Rightarrow> Some p
                  | None \<Rightarrow> (case old of None \<Rightarrow> None | Some r \<Rightarrow> cr_point r))\<rparr>"

definition find_item :: "cmdb \<Rightarrow> string \<Rightarrow> ci_row option" where
  "find_item db i = find (\<lambda>r. cr_id r = i) (cm_items db)"

definition upsert_node :: "node \<Rightarrow> cmdb \<Rightarrow> cmdb" where
  "upsert_node n db =
     db\<lparr>cm_items := (case find_item db (nd_id n) of
            None \<Rightarrow> cm_items db @ [written_row n None]
          | Some _ \<Rightarrow> update_where (\<lambda>r. cr_id r = nd_id n) (\<lambda>r. written_row n (Some r)) (cm_items db)),
        cm_categories := List.insert (nd_type n) (cm_categories db),
        cm_owners := (if non_empty (nd_owner n) then List.insert (text_or_empty (nd_owner n)) (cm_owners db)
                      else cm_owners db),
        cm_models := (if non_empty (nd_brand n) \<and> non_empty (nd_model n)
                      then List.insert (text_or_empty (nd_brand n), text_or_empty (nd_model n)) (cm_models db)
                      else cm_models db)\<rparr>"

definition create_default_ping_metric :: "string \<Rightarrow> cmdb \<Rightarrow> cmdb" where
  "create_default_ping_metric i db =
     db\<lparr>cm_metric_links := List.insert (i, ''icmp_jitter_ms'')
          (List.insert (i, ''icmp_latency_ms'') (cm_metric_links db))\<rparr>"

definition node_valid :: "cmdb_env \<Rightarrow> node \<Rightarrow> bool" where
  "node_valid e n = (case nd_public_ip n of None \<Rightarrow> True | Some a \<Rightarrow> a = '''' \<or> ce_valid_ip e a)"

text \<open>
  The validator turns an empty public address into none. The reconciliation of metrics that
  follows is another service; its exceptions are swallowed.
\<close>

definition revalidated :: "node \<Rightarrow> node" where
  "revalidated n = (if nd_public_ip n = Some '''' then n\<lparr>nd_public_ip := None\<rparr> else n)"

definition create_update_node :: "cmdb_env \<Rightarrow> account \<Rightarrow> node \<Rightarrow> cmdb \<Rightarrow> (api_error + unit) \<times> cmdb" where
  "create_update_node e u n db =
     (if \<not> check_permission ''CI_EDIT'' u
      then (Inl (Api 403 (detail ''Permission denied: CI_EDIT required'')), db)
      else if \<not> node_valid e n then (Inl (Api 400 (detail ''invalid CI payload'')), db)
      else if ce_write_fails e (nd_id n) then (Inl (Crash ''database''), db)
      else
        let db' = upsert_node (revalidated n) db
        in (Inr (), if non_empty (nd_ip n) then create_default_ping_metric (nd_id n) db' else db'))"

subsection \<open>The service\<close>

definition resolve_category :: "cmdb_env \<Rightarrow> cmdb \<Rightarrow> string list option" where
  "resolve_category e db = (if ce_catalog_fails e then None else Some (cm_categories db))"

definition ci_id_exists :: "cmdb_env \<Rightarrow> cmdb \<Rightarrow> string \<Rightarrow> bool" where
  "ci_id_exists e db i = (i \<noteq> '''' \<and> \<not> ce_lookup_fails e \<and> find_item db i \<noteq> None)"

definition missing_permission :: "string \<Rightarrow> api_error" where
  "missing_permission what = Api 403 (detail (''missing_permission: '' @ what))"

record audit_fields =
  af_proposal :: string
  af_proposed_by :: "string option"
  af_role :: string
  af_previous :: "string option"
  af_next :: string
  af_version :: int
  af_summary :: "pydict option"
  af_attributes :: "pydict option"
  af_resulted :: "string option"
  af_reason :: "string option"

definition audit_context :: "audit_fields \<Rightarrow> pydict" where
  "audit_context a =
     [(''proposal_id'', PStr (af_proposal a)), (''proposed_by'', opt_str (af_proposed_by a)),
      (''actor_role'', PStr (af_role a)), (''previous_state'', opt_str (af_previous a)),
      (''next_state'', PStr (af_next a)), (''version'', PInt (af_version a)),
      (''applied_manifest_summary'', case af_summary a of None \<Rightarrow> PNone | Some d \<Rightarrow> PDict d),
      (''applied_manifest_attributes'', case af_attributes a of None \<Rightarrow> PNone | Some d \<Rightarrow> PDict d),
      (''resulted_ci_id'', opt_str (af_resulted a)), (''revoke_reason'', opt_str (af_reason a)),
      (''manifest_diff'', PNone)]"

definition actor_of :: "account \<Rightarrow> audit_actor" where
  "actor_of u = \<lparr>aa_username = Some (ac_name u), aa_role = ac_role u\<rparr>"

definition record_audit :: "cmdb_env \<Rightarrow> instant \<Rightarrow> account \<Rightarrow> string \<Rightarrow> string \<Rightarrow> audit_fields \<Rightarrow> cmdb \<Rightarrow> cmdb" where
  "record_audit e now u event why a db =
     db\<lparr>cm_audit := record_critical_change (ce_rt e) now (ce_audit_fails e) (ce_request e) (Some (actor_of u)) event
        ''SUCCESS'' ''ci_proposal'' (Some (af_proposal a)) (Some (af_proposal a)) (Some why) (Some ''cmdb_proposals'')
        (audit_context a) (cm_audit db)\<rparr>"

text \<open>An entry of the operation log; a failure to write it is logged and forgotten.\<close>

definition log_operation ::
  "cmdb_env \<Rightarrow> int \<Rightarrow> instant \<Rightarrow> string \<Rightarrow> string \<Rightarrow> string \<Rightarrow> string \<Rightarrow> string \<Rightarrow> string option \<Rightarrow> cmdb \<Rightarrow> cmdb" where
  "log_operation e tick now persona agent target name outcome why db =
     db\<lparr>cm_guard := snd (record_operation (ce_guard e) tick (ce_log_fails e)
        \<lparr>ao_time = now, ao_persona = persona, ao_agent = agent, ao_operation = ''propose_ci'',
         ao_target_type = ''ci_proposal'', ao_target = target, ao_name = name, ao_result = outcome,
         ao_blocked_reason = why\<rparr> (cm_guard db))\<rparr>"

datatype create_answer =
    Created proposal
  | Harness_denied string string
  | Preview nat "string list" pydict

definition reason_text :: "guard_result \<Rightarrow> string" where
  "reason_text g = (case gr_reason g of None \<Rightarrow> '''' | Some s \<Rightarrow> s)"

definition reason_code :: "guard_result \<Rightarrow> string" where
  "reason_code g = (if contains ''bulk'' (lower (reason_text g)) then ''bulk_threshold'' else ''cooldown_active'')"

text \<open>
  The guard gate, then the write: \<open>target\<close> is the guard's target, \<open>name\<close> the item the log names.
\<close>

definition drafted ::
  "cmdb_env \<Rightarrow> int \<Rightarrow> instant \<Rightarrow> string \<Rightarrow> account \<Rightarrow> string \<Rightarrow> string \<Rightarrow> string \<Rightarrow> pydict \<Rightarrow>
     string option \<Rightarrow> string option \<Rightarrow> string option \<Rightarrow> nat option \<Rightarrow> string \<Rightarrow> cmdb \<Rightarrow>
     (api_error + create_answer) \<times> cmdb" where
  "drafted e tick now pid u agent role name m cat ci mode cnt why db =
     (case create_draft now pid m (ac_name u) role cat ci mode cnt db of
        None \<Rightarrow> (Inl (Crash ''CIProposal.id''), db)
      | Some (p, db1) \<Rightarrow>
          (Inr (Created p),
           log_operation e tick now role agent pid name ''success'' None
             (record_audit e now u ''CI_PROPOSAL_CREATE'' why
                \<lparr>af_proposal = pid, af_proposed_by = Some (ac_name u), af_role = role, af_previous = None,
                 af_next = ''DRAFT'', af_version = 1, af_summary = Some (redact_manifest_secrets (PDict m)),
                 af_attributes = None, af_resulted = None, af_reason = None\<rparr> db1)))"

definition create_proposal ::
  "cmdb_env \<Rightarrow> int \<Rightarrow> instant \<Rightarrow> string \<Rightarrow> pydict \<Rightarrow> account \<Rightarrow> string \<Rightarrow> cmdb \<Rightarrow>
     (api_error + create_answer) \<times> cmdb" where
  "create_proposal e tick now pid raw u agent db =
     (if \<not> check_permission ''AI_PROPOSE_CI'' u
      then (Inl (missing_permission ''AI_PROPOSE_CI required to propose a CI''), db)
      else case validate_manifest e raw of
        None \<Rightarrow> (Inl (Api 422 (detail ''invalid_manifest'')), db)
      | Some m \<Rightarrow>
          (case mf_ci m of
             None \<Rightarrow> (Inl (Api 422 (detail ''bulk_manifest_requires_bulk_import'')), db)
           | Some ci \<Rightarrow>
               if (case resolve_category e db of None \<Rightarrow> True | Some names \<Rightarrow> nd_type ci \<notin> set names)
               then (Inl (Api 422 (detail ''unknown_category'' @ [(''category'', PStr (nd_type ci))])), db)
               else if ci_id_exists e db (nd_id ci)
               then (Inl (Api 409 (detail ''ci_id_collision'' @ [(''ci_id'', PStr (nd_id ci))])), db)
               else
                 let (g, gs) = check_all_guards (ce_guard e) tick now agent ''propose_ci'' [''ci_proposal:new''] (cm_guard db);
                     db1 = db\<lparr>cm_guard := gs\<rparr>;
                     role = role_or u ''AI_OPERATOR''
                 in if \<not> gr_allowed g
                    then (Inr (Harness_denied (reason_text g) (reason_code g)),
                          log_operation e tick now role agent ''ci_proposal:new'' (nd_id ci) ''blocked'' (gr_reason g) db1)
                    else drafted e tick now pid u agent role (nd_id ci) (dump_manifest m) (Some (nd_type ci))
                           (Some (nd_id ci)) None None ''proposal_created'' db1))"

definition version_conflict :: "string \<Rightarrow> api_error" where
  "version_conflict pid = Api 409 (detail ''version_conflict'' @ [(''proposal_id'', PStr pid)])"

text \<open>The repository transition and the audit entry that close an approval.\<close>

definition approved ::
  "cmdb_env \<Rightarrow> instant \<Rightarrow> proposal \<Rightarrow> int \<Rightarrow> account \<Rightarrow> string \<Rightarrow> string \<Rightarrow> cmdb \<Rightarrow> (api_error + proposal) \<times> cmdb" where
  "approved e now p expected u ci why db =
     (case repo_approve now (pr_id p) expected (ac_name u) (pr_manifest p) ci db of
        None \<Rightarrow> (Inl (version_conflict (pr_id p)), db)
      | Some (row, db1) \<Rightarrow>
          (Inr row,
           record_audit e now u ''CI_PROPOSAL_APPROVE'' why
             \<lparr>af_proposal = pr_id p, af_proposed_by = Some (pr_proposed_by p), af_role = role_or u ''OPERATOR'',
              af_previous = Some ''DRAFT'', af_next = ''APPROVED'', af_version = pr_version row,
              af_summary = Some (redact_manifest_secrets (PDict (pr_manifest p))),
              af_attributes = Some (redact_manifest_secrets (PDict (pr_manifest p))),
              af_resulted = Some ci, af_reason = None\<rparr> db1))"

definition approve_single ::
  "cmdb_env \<Rightarrow> instant \<Rightarrow> proposal \<Rightarrow> int \<Rightarrow> account \<Rightarrow> string option \<Rightarrow> cmdb \<Rightarrow> (api_error + proposal) \<times> cmdb" where
  "approve_single e now p expected u cat db =
     (case get (pr_manifest p) ''ci'' of
        PDict d \<Rightarrow>
          (case ce_node e d of
             None \<Rightarrow> (Inl (Crash ''ValidationError''), db)
           | Some ci \<Rightarrow>
               if (case cat of None \<Rightarrow> False | Some c \<Rightarrow> nd_type ci \<noteq> c)
               then (Inl (Api 409 (detail ''category_renamed'' @ [(''expected'', opt_str cat), (''got'', PStr (nd_type ci))])), db)
               else if (case resolve_category e db of None \<Rightarrow> True | Some names \<Rightarrow> nd_type ci \<notin> set names)
               then (Inl (Api 409 (detail ''category_renamed'' @ [(''category'', PStr (nd_type ci))])), db)
               else if ci_id_exists e db (nd_id ci)
               then (Inl (Api 409 (detail ''ci_id_collision'' @ [(''ci_id'', PStr (nd_id ci))])), db)
               else
                 case create_update_node e u ci db of
                   (Inl (Crash x), db1) \<Rightarrow> (Inl (Api 500 (detail ''ci_commit_failed'')), db1)
                 | (Inl err, db1) \<Rightarrow> (Inl err, db1)
                 | (Inr _, db1) \<Rightarrow> approved e now p expected u (nd_id ci) ''proposal_approved'' db1)
      | _ \<Rightarrow> (Inl (Crash ''manifest''), db))"

text \<open>Every item of a bulk manifest is committed, whatever happened to the ones before.\<close>

fun commit_all :: "cmdb_env \<Rightarrow> account \<Rightarrow> node list \<Rightarrow> cmdb \<Rightarrow> string list \<times> cmdb" where
  "commit_all e u [] db = ([], db)"
| "commit_all e u (n # ns) db =
     (case create_update_node e u n db of
        (Inl _, db1) \<Rightarrow> (let (bad, db2) = commit_all e u ns db1 in (nd_id n # bad, db2))
      | (Inr _, db1) \<Rightarrow> commit_all e u ns db1)"

fun parse_nodes :: "cmdb_env \<Rightarrow> pyval list \<Rightarrow> node list option" where
  "parse_nodes e [] = Some []"
| "parse_nodes e (v # vs) =
     (case v of
        PDict d \<Rightarrow> (case (ce_node e d, parse_nodes e vs) of (Some n, Some ns) \<Rightarrow> Some (n # ns) | _ \<Rightarrow> None)
      | _ \<Rightarrow> None)"

definition approve_bulk ::
  "cmdb_env \<Rightarrow> instant \<Rightarrow> proposal \<Rightarrow> int \<Rightarrow> account \<Rightarrow> string option \<Rightarrow> cmdb \<Rightarrow> (api_error + proposal) \<times> cmdb" where
  "approve_bulk e now p expected u cat db =
     (case por (get (pr_manifest p) ''cis'') (PList []) of
        PList [] \<Rightarrow> (Inl (Api 409 (detail ''empty_bulk_manifest'' @ [(''ci_count'', PInt 0)])), db)
      | PList vs \<Rightarrow>
          (case parse_nodes e vs of
             None \<Rightarrow> (Inl (Crash ''ValidationError''), db)
           | Some ns \<Rightarrow>
               if cat \<noteq> None
               then (Inl (Api 409 (detail ''expected_category_not_supported_for_bulk'' @ [(''expected'', opt_str cat)])), db)
               else
                 let live = (case resolve_category e db of None \<Rightarrow> [] | Some names \<Rightarrow> names);
                     renamed = map nd_type (filter (\<lambda>n. nd_type n \<notin> set live) ns);
                     colliding = map nd_id (filter (\<lambda>n. nd_type n \<in> set live \<and> ci_id_exists e db (nd_id n)) ns)
                 in if renamed \<noteq> []
                    then (Inl (Api 409 (detail ''category_renamed'' @ [(''categories'', PList (map PStr renamed))])), db)
                    else if colliding \<noteq> []
                    then (Inl (Api 409 (detail ''ci_id_collision'' @ [(''ci_ids'', PList (map PStr colliding))])), db)
                    else
                      let (bad, db1) = commit_all e u ns db
                      in if bad \<noteq> []
                         then (Inl (Api 500 (detail ''ci_commit_failed'' @ [(''errors'', PList (map PStr bad))])), db1)
                         else approved e now p expected u (nd_id (hd ns)) ''proposal_approved_bulk'' db1)
      | _ \<Rightarrow> (Inl (Crash ''manifest''), db))"

definition approve_proposal ::
  "cmdb_env \<Rightarrow> instant \<Rightarrow> string \<Rightarrow> int \<Rightarrow> account \<Rightarrow> string option \<Rightarrow> cmdb \<Rightarrow> (api_error + proposal) \<times> cmdb" where
  "approve_proposal e now pid expected u cat db =
     (if \<not> check_permission ''CI_APPROVE_PROPOSAL'' u
      then (Inl (missing_permission ''CI_APPROVE_PROPOSAL required''), db)
      else case repo_get db pid of
        None \<Rightarrow> (Inl (Api 404 (detail ''proposal_not_found'')), db)
      | Some p \<Rightarrow>
          if pr_status p \<noteq> DRAFT
          then (Inl (Api 409 (detail ''invalid_state'' @ [(''current_state'', PStr (status_text (pr_status p)))])), db)
          else if por (get (pr_manifest p) ''mode'') (por (opt_str (pr_mode p)) (PStr ''single'')) = PStr ''bulk''
          then approve_bulk e now p expected u cat db
          else approve_single e now p expected u cat db)"

text \<open>\<open>role\<close> is the caller's explicit actor role; only \<open>SYSTEM\<close> skips the permission.\<close>

definition revoke_proposal ::
  "cmdb_env \<Rightarrow> instant \<Rightarrow> string \<Rightarrow> int \<Rightarrow> account \<Rightarrow> string option \<Rightarrow> string option \<Rightarrow> cmdb \<Rightarrow>
     (api_error + proposal) \<times> cmdb" where
  "revoke_proposal e now pid expected u reason role db =
     (if role \<noteq> Some ''SYSTEM'' \<and> \<not> check_permission ''CI_APPROVE_PROPOSAL'' u
      then (Inl (missing_permission ''CI_APPROVE_PROPOSAL required''), db)
      else
        let actor = (if role = Some ''SYSTEM'' then ''SYSTEM'' else role_or u ''OPERATOR'')
        in case repo_get db pid of
             None \<Rightarrow> (Inl (Api 404 (detail ''proposal_not_found'')), db)
           | Some p \<Rightarrow>
               if pr_status p \<notin> {DRAFT, APPROVED}
               then (Inl (Api 409 (detail ''invalid_state'' @ [(''current_state'', PStr (status_text (pr_status p)))])), db)
               else case repo_revoke now pid expected actor reason db of
                 None \<Rightarrow> (Inl (version_conflict pid), db)
               | Some (row, db1) \<Rightarrow>
                   (Inr row,
                    record_audit e now u ''CI_PROPOSAL_REVOKE'' ''proposal_revoked''
                      \<lparr>af_proposal = pid, af_proposed_by = Some (pr_proposed_by p), af_role = actor,
                       af_previous = Some (status_text (pr_status p)), af_next = ''REVOKED'',
                       af_version = pr_version row, af_summary = None, af_attributes = None,
                       af_resulted = None, af_reason = reason\<rparr> db1))"

record listing =
  ls_rows :: "proposal list"
  ls_total :: nat
  ls_page :: int
  ls_page_size :: int

definition list_proposals :: "list_filter \<Rightarrow> int \<Rightarrow> int \<Rightarrow> cmdb \<Rightarrow> listing" where
  "list_proposals f page page_size db =
     (let rows = repo_list f page page_size db
      in \<lparr>ls_rows = rows, ls_total = length rows, ls_page = page, ls_page_size = page_size\<rparr>)"

subsection \<open>The sweep (scripts/cmdb_proposal_ttl_sweep.py)\<close>

definition emit_audit :: "cmdb_env \<Rightarrow> instant \<Rightarrow> proposal \<Rightarrow> cmdb \<Rightarrow> cmdb" where
  "emit_audit e now p db =
     db\<lparr>cm_audit := record_critical_change (ce_rt e) now (ce_audit_fails e) None None ''CI_PROPOSAL_REVOKE'' ''SUCCESS''
       ''ci_proposal'' (Some (pr_id p)) (Some (pr_id p)) (Some ''proposal_ttl_revoked'') (Some ''cmdb_proposals'')
       [(''proposal_id'', PStr (pr_id p)), (''proposed_by'', PStr (pr_proposed_by p)), (''actor_role'', PStr ''SYSTEM''),
        (''previous_state'', PStr ''DRAFT''), (''next_state'', PStr ''REVOKED''), (''version'', PInt 0),
        (''revoke_reason'', PStr ''ttl_expired''),
        (''applied_manifest_summary'', PDict (redact_manifest_secrets (PDict (pr_manifest p)))),
        (''manifest_diff'', PNone)] (cm_audit db)\<rparr>"

definition sweep_main :: "cmdb_env \<Rightarrow> instant \<Rightarrow> int \<Rightarrow> cmdb \<Rightarrow> cmdb" where
  "sweep_main e now days db =
     (let (n, db1) = ttl_sweep now days db
      in if n = 0 then db1
         else
           let recent = repo_list \<lparr>lf_status = Some ''REVOKED'', lf_category = None, lf_proposed_by = None,
                           lf_from = None, lf_to = None\<rparr> 1 (int (max n 50)) db1;
               swept = filter (\<lambda>p. pr_reviewed_by p = Some ''SYSTEM'' \<and> pr_revoke_reason p = Some ''ttl_expired'') recent
           in fold (emit_audit e now) (take n swept) db1)"

subsection \<open>Proposals only move forward\<close>

definition proposal_ok :: "proposal \<Rightarrow> bool" where
  "proposal_ok p =
     (case pr_status p of
        DRAFT \<Rightarrow> pr_version p = 1 \<and> pr_reviewed_by p = None \<and> pr_resulted_ci p = None
      | APPROVED \<Rightarrow> pr_version p = 2 \<and> pr_reviewed_by p \<noteq> None \<and> pr_resulted_ci p \<noteq> None
      | REVOKED \<Rightarrow> pr_reviewed_by p \<noteq> None \<and> pr_version p = (if pr_resulted_ci p = None then 2 else 3))"

definition proposals_ok :: "cmdb \<Rightarrow> bool" where
  "proposals_ok db = (distinct (map pr_id (cm_proposals db)) \<and> list_all proposal_ok (cm_proposals db))"

text \<open>
  What may happen to one proposal: nothing, an approval of a draft, a revocation of a draft or of
  an approved proposal, or an approval followed by a revocation. Its request never changes.
\<close>

definition status_moves :: "(proposal_status \<times> proposal_status) list" where
  "status_moves = [(DRAFT, APPROVED), (DRAFT, REVOKED), (APPROVED, REVOKED)]"

definition advances :: "proposal \<Rightarrow> proposal \<Rightarrow> bool" where
  "advances p q =
     (p = q \<or>
      pr_id q = pr_id p \<and> pr_manifest q = pr_manifest p \<and> pr_proposed_by q = pr_proposed_by p \<and>
      pr_created q = pr_created p \<and> pr_version p < pr_version q \<and>
      (pr_status p, pr_status q) \<in> set status_moves)"

definition evolves :: "cmdb \<Rightarrow> cmdb \<Rightarrow> bool" where
  "evolves db db' =
     (proposals_ok db \<longrightarrow> proposals_ok db' \<and>
        (\<forall>p \<in> set (cm_proposals db). \<exists>q \<in> set (cm_proposals db'). advances p q))"

lemma advances_refl [simp]: "advances p p"
  by (simp add: advances_def)

lemma advances_trans: "advances p q \<Longrightarrow> advances q r \<Longrightarrow> advances p r"
  by (auto simp: advances_def status_moves_def)

lemma evolves_refl [simp, intro]: "evolves db db"
  unfolding evolves_def using advances_refl by blast

lemma advances_id: "advances p q \<Longrightarrow> pr_id q = pr_id p"
  by (auto simp: advances_def)

lemma evolves_trans [trans]: "evolves a b \<Longrightarrow> evolves b c \<Longrightarrow> evolves a c"
  unfolding evolves_def by (meson advances_trans)

lemma evolves_same: "cm_proposals db' = cm_proposals db \<Longrightarrow> evolves db db'"
  unfolding evolves_def proposals_ok_def using advances_refl by metis

lemma evolves_update:
  assumes f: "\<And>p. P p \<Longrightarrow> proposal_ok p \<Longrightarrow> proposal_ok (f p) \<and> advances p (f p)"
    and db': "cm_proposals db' = update_where P f (cm_proposals db)"
  shows "evolves db db'"
  unfolding evolves_def
proof (intro impI conjI ballI)
  assume ok: "proposals_ok db"
  have ids: "map pr_id (cm_proposals db') = map pr_id (cm_proposals db)"
    unfolding db'
    by (rule update_where_keys_on)
       (use f ok in \<open>auto simp: proposals_ok_def list_all_iff intro: advances_id\<close>)
  have "list_all proposal_ok (cm_proposals db')"
    using ok f by (auto simp: db' update_where_def proposals_ok_def list_all_iff)
  with ids ok show "proposals_ok db'" by (simp add: proposals_ok_def)
  fix p
  assume p: "p \<in> set (cm_proposals db)"
  then have "proposal_ok p" using ok by (auto simp: proposals_ok_def list_all_iff)
  moreover from p have "(if P p then f p else p) \<in> set (cm_proposals db')"
    by (auto simp: db' update_where_def)
  ultimately show "\<exists>q \<in> set (cm_proposals db'). advances p q"
    using f by (intro bexI [of _ "if P p then f p else p"]) auto
qed

lemma evolves_draft:
  assumes "create_draft now pid m by role cat ci mode cnt db = Some (p, db')"
  shows "evolves db db'"
  using assms
proof -
  have db': "cm_proposals db' = cm_proposals db @ [p]" and "pr_id p \<notin> pr_id ` set (cm_proposals db)"
    and "proposal_ok p"
    using assms by (auto simp: create_draft_def Let_def proposal_ok_def split: if_splits)
  then have "proposals_ok db \<Longrightarrow> proposals_ok db'" by (auto simp: proposals_ok_def)
  moreover have "\<forall>q \<in> set (cm_proposals db). q \<in> set (cm_proposals db')" by (simp add: db')
  ultimately show ?thesis unfolding evolves_def using advances_refl by blast
qed

lemma evolves_approve: "repo_approve now pid v by m ci db = Some (p, db') \<Longrightarrow> evolves db db'"
  by (rule evolves_update [where P = "\<lambda>p. pr_id p = pid \<and> pr_version p = v \<and> pr_status p = DRAFT"
        and f = "\<lambda>p. p\<lparr>pr_status := APPROVED, pr_version := v + 1, pr_reviewed_by := Some by,
              pr_reviewed_at := Some (whole_second now), pr_updated := whole_second now,
              pr_applied := Some m, pr_resulted_ci := Some ci\<rparr>"])
     (auto simp: repo_approve_def transition_def proposal_ok_def advances_def status_moves_def split: option.splits)

lemma evolves_revoke: "repo_revoke now pid v by why db = Some (p, db') \<Longrightarrow> evolves db db'"
  by (rule evolves_update
        [where P = "\<lambda>p. pr_id p = pid \<and> pr_version p = v \<and> pr_status p \<in> {DRAFT, APPROVED}"
         and f = "\<lambda>p. p\<lparr>pr_status := REVOKED, pr_version := v + 1, pr_reviewed_by := Some by,
              pr_reviewed_at := Some (whole_second now), pr_updated := whole_second now,
              pr_revoke_reason := why\<rparr>"])
     (auto simp: repo_revoke_def transition_def proposal_ok_def advances_def status_moves_def
        split: option.splits proposal_status.splits)

lemma evolves_sweep: "evolves db (snd (ttl_sweep now days db))"
  by (rule evolves_update [where P = "\<lambda>p. pr_status p = DRAFT \<and> pr_created p < now - seconds (days * 86400)"
        and f = "\<lambda>p. p\<lparr>pr_status := REVOKED, pr_version := pr_version p + 1, pr_reviewed_by := Some ''SYSTEM'',
              pr_reviewed_at := Some (whole_second now), pr_updated := whole_second now,
              pr_revoke_reason := Some ''ttl_expired''\<rparr>"])
     (auto simp: ttl_sweep_def Let_def proposal_ok_def advances_def status_moves_def)

text \<open>Everything else leaves the proposals alone.\<close>

lemma proposals_audit [simp]: "cm_proposals (record_audit e t a ev why f db) = cm_proposals db"
  by (simp add: record_audit_def)

lemma proposals_log [simp]: "cm_proposals (log_operation e tick now r a t n out why db) = cm_proposals db"
  by (simp add: log_operation_def)

lemma proposals_commit: "create_update_node e u n db = (r, db') \<Longrightarrow> cm_proposals db' = cm_proposals db"
  by (auto simp: create_update_node_def upsert_node_def create_default_ping_metric_def Let_def split: if_splits)

lemma proposals_commit_all: "commit_all e u ns db = (bad, db') \<Longrightarrow> cm_proposals db' = cm_proposals db"
proof (induction ns arbitrary: bad db db')
  case Nil
  then show ?case by simp
next
  case (Cons n ns)
  obtain r db1 where one: "create_update_node e u n db = (r, db1)" by force
  obtain bad2 db2 where rest: "commit_all e u ns db1 = (bad2, db2)" by force
  from Cons.prems one rest have "db' = db2" by (cases r) auto
  with Cons.IH [OF rest] proposals_commit [OF one] show ?case by simp
qed

lemma evolves_audited: "evolves db db1 \<Longrightarrow> evolves db (record_audit e t a ev why f db1)"
  by (erule evolves_trans) (simp add: evolves_same)

lemma evolves_logged: "evolves db db1 \<Longrightarrow> evolves db (log_operation e tick now r a t n out why db1)"
  by (erule evolves_trans) (simp add: evolves_same)

lemma evolves_drafted:
  "drafted e tick now pid u agent role name m cat ci mode cnt why db = (r, db') \<Longrightarrow> evolves db db'"
  by (auto simp: drafted_def intro!: evolves_audited evolves_logged dest: evolves_draft split: option.splits)

lemma evolves_approved: "approved e now p v u ci why db = (r, db') \<Longrightarrow> evolves db db'"
  by (auto simp: approved_def intro!: evolves_audited dest: evolves_approve split: option.splits)

lemma evolves_drafted_guarded:
  assumes "drafted e tick now pid u agent role name m cat ci mode cnt why (db\<lparr>cm_guard := g\<rparr>) = (r, db')"
  shows "evolves db db'"
  using evolves_trans [OF evolves_same evolves_drafted [OF assms], of db] by simp

lemma evolves_create: "create_proposal e tick now pid raw u agent db = (r, db') \<Longrightarrow> evolves db db'"
  by (auto simp: create_proposal_def Let_def intro: evolves_same dest: evolves_drafted_guarded
      split: if_splits option.splits prod.splits)

lemma evolves_then_approved:
  assumes "cm_proposals db1 = cm_proposals db" "approved e now p v u ci why db1 = (r, db')"
  shows "evolves db db'"
  using evolves_trans [OF evolves_same [OF assms(1)] evolves_approved [OF assms(2)]] .

lemma evolves_single: "approve_single e now p v u cat db = (r, db') \<Longrightarrow> evolves db db'"
  by (auto simp: approve_single_def dest: proposals_commit evolves_same evolves_then_approved
      split: pyval.splits option.splits if_splits prod.splits sum.splits api_error.splits)

lemma evolves_bulk:
  assumes "approve_bulk e now p v u cat db = (r, db')"
  shows "evolves db db'"
proof -
  show ?thesis
    using assms
    by (auto simp: approve_bulk_def Let_def simp del: commit_all.simps parse_nodes.simps
        dest!: proposals_commit_all intro: evolves_same evolves_then_approved
        split: pyval.splits list.splits option.splits if_splits prod.splits)
qed

lemma evolves_approve_proposal: "approve_proposal e now pid v u cat db = (r, db') \<Longrightarrow> evolves db db'"
  by (auto simp: approve_proposal_def dest: evolves_single evolves_bulk split: if_splits option.splits)

lemma evolves_revoke_proposal: "revoke_proposal e now pid v u why role db = (r, db') \<Longrightarrow> evolves db db'"
  by (auto simp: revoke_proposal_def Let_def intro!: evolves_audited dest: evolves_revoke
      split: if_splits option.splits)

lemma evolves_fold_audit: "evolves db db1 \<Longrightarrow> evolves db (fold (emit_audit e now) ps db1)"
proof (induction ps arbitrary: db1)
  case Nil
  then show ?case by simp
next
  case (Cons p ps)
  have "evolves db (emit_audit e now p db1)"
    by (rule evolves_trans [OF Cons.prems evolves_same]) (simp add: emit_audit_def)
  with Cons.IH show ?case by simp
qed

lemma evolves_sweep_main: "evolves db (sweep_main e now days db)"
  using evolves_sweep [of db now days]
  by (auto simp: sweep_main_def Let_def intro!: evolves_fold_audit split: prod.split)

end
