(* ===== verification/Event_Console.thy ===== *)
theory Event_Console
  imports Event_Graph Cmdb_Proposals
begin

section \<open>The event console (services/event_service.py, routers/events.py)\<close>

text \<open>
  What operators and AI agents do to the events that the writer raises: acknowledge, close, comment,
  diagnose and prune, each with its permission, the guards on agents, the escalation of critical
  events and the comments it leaves. Text is Latin-1; the accented i of the root cause label is the
  byte ED.
\<close>

subsection \<open>Comment texts\<close>

definition known_prefixes :: "string list" where
  "known_prefixes = [''[OWNERSHIP]'', ''[CIERRE'', ''[AUDIT]'']"

definition bracket_prefix :: "string \<Rightarrow> string" where
  "bracket_prefix s = takeWhile (\<lambda>c. c \<noteq> CHR '']'') s @ '']''"

definition strips_prefix :: "string \<Rightarrow> bool" where
  "strips_prefix s = (starts_with ''['' s \<and> CHR '']'' \<in> set s \<and>
     list_ex (\<lambda>p. starts_with p (bracket_prefix s)) known_prefixes)"

definition after_prefix :: "string \<Rightarrow> string" where
  "after_prefix s = dropWhile (\<lambda>c. c \<in> set '' -:'') (drop (length (bracket_prefix s)) s)"

function strip_prefixes :: "string \<Rightarrow> string" where
  "strip_prefixes s = (if strips_prefix s then strip_prefixes (after_prefix s) else s)"
  by pat_completeness auto

lemma after_prefix_shorter: "strips_prefix s \<Longrightarrow> length (after_prefix s) < length s"
proof -
  assume "strips_prefix s"
  then have "s \<noteq> []" "0 < length (bracket_prefix s)"
    by (auto simp: strips_prefix_def bracket_prefix_def)
  then have "length (drop (length (bracket_prefix s)) s) < length s" by simp
  then show ?thesis unfolding after_prefix_def using length_dropWhile_le by (rule le_less_trans [rotated])
qed

termination strip_prefixes
  by (relation "measure length") (simp_all add: after_prefix_shorter)

declare strip_prefixes.simps [simp del]

definition strip_known_audit_prefixes :: "string option \<Rightarrow> string" where
  "strip_known_audit_prefixes m = (case m of None \<Rightarrow> '''' | Some s \<Rightarrow> strip_prefixes (strip s))"

definition build_ack_audit_message :: "string \<Rightarrow> string" where
  "build_ack_audit_message user = ''[AUDIT][OWNERSHIP] Caso tomado por '' @ user"

definition normalize_ack_note :: "string option \<Rightarrow> string option" where
  "normalize_ack_note m =
     (case m of None \<Rightarrow> None
      | Some s \<Rightarrow>
          if starts_with ''[OWNERSHIP]'' (strip s) \<or> starts_with ''[AUDIT][OWNERSHIP]'' (strip s) then None
          else let n = strip_known_audit_prefixes (Some (strip s)) in if n = '''' then None else Some n)"

definition build_close_audit_message :: "string \<Rightarrow> bool \<Rightarrow> string option \<Rightarrow> string" where
  "build_close_audit_message user forced m =
     (let detail = strip_known_audit_prefixes m;
          head = (if forced then ''[AUDIT][FORCED_CLOSE] Cierre forzado por '' @ user
                  else ''[AUDIT][CLOSE] Evento cerrado por '' @ user)
      in if detail = '''' then head else head @ [CHR 0x0A] @ detail)"

text \<open>\<open>str.splitlines()\<close>; a carriage return with a line feed is one line end.\<close>

definition line_end :: "char \<Rightarrow> bool" where
  "line_end c = (c \<in> set [CHR 0x0A, CHR 0x0B, CHR 0x0C, CHR 0x0D, CHR 0x1C, CHR 0x1D, CHR 0x1E, CHR 0x85])"

fun lines_from :: "bool \<Rightarrow> string \<Rightarrow> string \<Rightarrow> string list" where
  "lines_from after_cr word [] = (if word = [] then [] else [rev word])"
| "lines_from after_cr word (c # s) =
     (if after_cr \<and> c = CHR 0x0A then lines_from False word s
      else if line_end c then rev word # lines_from (c = CHR 0x0D) [] s
      else lines_from False (c # word) s)"

definition splitlines :: "string \<Rightarrow> string list" where
  "splitlines s = lines_from False [] s"

text \<open>\<open>line.split(":", 1)[1].strip()\<close> of a line with a colon\<close>

definition value_of :: "string \<Rightarrow> string" where
  "value_of line = strip (drop 1 (dropWhile (\<lambda>c. c \<noteq> CHR '':'') line))"

record close_scan =
  sn_cause :: string
  sn_note :: "string list"
  sn_collecting :: bool

definition root_cause_labels :: "string list" where
  "root_cause_labels = [''causa ra'' @ [CHR 0xED] @ ''z:'', ''causa raiz:'']"

definition scan_line :: "string \<Rightarrow> close_scan \<Rightarrow> close_scan" where
  "scan_line raw s =
     (let line = strip raw; lowered = lower line
      in if list_ex (\<lambda>p. starts_with p lowered) root_cause_labels
         then s\<lparr>sn_cause := value_of line, sn_collecting := False\<rparr>
         else if starts_with ''nota:'' lowered then s\<lparr>sn_note := [value_of line], sn_collecting := True\<rparr>
         else if sn_collecting s then s\<lparr>sn_note := sn_note s @ [line]\<rparr> else s)"

definition extract_structured_close_fields :: "string option \<Rightarrow> string \<times> string" where
  "extract_structured_close_fields m =
     (let s = fold scan_line (splitlines (strip_known_audit_prefixes m)) \<lparr>sn_cause = '''', sn_note = [], sn_collecting = False\<rparr>
      in (sn_cause s, strip (join [CHR 0x0A] (filter (\<lambda>p. p \<noteq> '''') (sn_note s)))))"

definition validate_close_request :: "bool \<Rightarrow> string option \<Rightarrow> unit result" where
  "validate_close_request forced m =
     (if forced then
        let detail = strip_known_audit_prefixes m;
            reason = (if starts_with ''motivo:'' (lower detail) then value_of detail else detail)
        in if reason = '''' then Inl (HttpError 400 ''Forced close requires a reason in comment_message'') else Inr ()
      else
        let (cause, note) = extract_structured_close_fields m
        in if cause = ''''
           then Inl (HttpError 400 (''Normal close requires '' @ [CHR 0x27] @ ''Causa ra'' @ [CHR 0xED, CHR ''z'', CHR 0x27]
                  @ '' in comment_message''))
           else if length note < 20
           then Inl (HttpError 400 (''Normal close requires a '' @ [CHR 0x27] @ ''Nota'' @ [CHR 0x27]
                  @ '' of at least 20 characters''))
           else Inr ())"

subsection \<open>The state\<close>

text \<open>
  The graph of the writer, what the console notes on each event, and the state of the guards and of
  the escalation notifier. An event without a row of notes has null properties.
\<close>

record event_note =
  en_ack_at :: "instant option"
  en_ack_by :: "string option"
  en_closed_at :: "instant option"
  en_closed_by :: "string option"
  en_comments :: "string list"

record escalation =
  es_id :: string
  es_persona :: string
  es_agent :: string
  es_event :: string
  es_message :: "string option"
  es_ci :: string
  es_ci_name :: string
  es_timeout :: instant

record console =
  cn_graph :: graph
  cn_notes :: "(string \<times> event_note) list"
  cn_guard :: guard_state
  cn_escalations :: "escalation list"

text \<open>The clocks and the outside world of one request; \<open>ce_stamp\<close> is \<open>toString(datetime())\<close>.\<close>

record console_env =
  xe_guard :: guard_config
  xe_tick :: int
  xe_now :: instant
  xe_stamp :: string
  xe_uuid :: string
  xe_publish_fails :: bool
  xe_log_fails :: bool
  xe_diagnose :: "string \<Rightarrow> string"

definition blank_note :: event_note where
  "blank_note = \<lparr>en_ack_at = None, en_ack_by = None, en_closed_at = None, en_closed_by = None, en_comments = []\<rparr>"

definition note_of :: "console \<Rightarrow> string \<Rightarrow> event_note" where
  "note_of c i = dict_get (cn_notes c) i blank_note"

definition set_note :: "string \<Rightarrow> (event_note \<Rightarrow> event_note) \<Rightarrow> console \<Rightarrow> console" where
  "set_note i f c = c\<lparr>cn_notes := AList.update i (f (note_of c i)) (cn_notes c)\<rparr>"

definition set_event :: "string \<Rightarrow> (graph_event \<Rightarrow> graph_event) \<Rightarrow> console \<Rightarrow> console" where
  "set_event i f c = c\<lparr>cn_graph := (cn_graph c)\<lparr>g_events := update_where (\<lambda>e. ge_id e = i) f (g_events (cn_graph c))\<rparr>\<rparr>"

definition event_at :: "console \<Rightarrow> string \<Rightarrow> graph_event option" where
  "event_at c i = find (\<lambda>e. ge_id e = i) (g_events (cn_graph c))"

definition event_not_found :: "string \<Rightarrow> py_exc" where
  "event_not_found i = HttpError 404 (''Event not found: '' @ i)"

definition stamped :: "console_env \<Rightarrow> string \<Rightarrow> string" where
  "stamped e m = m @ '' ('' @ xe_stamp e @ '')''"

definition add_comment :: "string \<Rightarrow> event_note \<Rightarrow> event_note" where
  "add_comment m n = n\<lparr>en_comments := en_comments n @ [m]\<rparr>"


subsection \<open>The service\<close>

definition acked :: "graph_event \<Rightarrow> graph_event" where
  "acked e = e\<lparr>ge_status := ''ACK'', ge_ack := True\<rparr>"

definition ack_event :: "console_env \<Rightarrow> string \<Rightarrow> string \<Rightarrow> string option \<Rightarrow> console \<Rightarrow> unit result \<times> console" where
  "ack_event e i user comment c =
     (if event_at c i = None then (Inl (event_not_found i), c)
      else
        let note = normalize_ack_note comment;
            c1 = set_note i (\<lambda>n. add_comment (stamped e (build_ack_audit_message user))
                   (n\<lparr>en_ack_at := Some (xe_now e), en_ack_by := Some user\<rparr>)) (set_event i acked c)
        in (Inr (), case note of None \<Rightarrow> c1
              | Some m \<Rightarrow> if strip m = '''' then c1 else set_note i (add_comment (stamped e (user @ '': '' @ m))) c1))"

definition closed_event :: "graph_event \<Rightarrow> graph_event" where
  "closed_event e = e\<lparr>ge_status := ''CLOSED''\<rparr>"

definition closing_note :: "console_env \<Rightarrow> string \<Rightarrow> event_note \<Rightarrow> event_note" where
  "closing_note e user n = n\<lparr>en_closed_at := Some (xe_now e), en_closed_by := Some user\<rparr>"

definition close_event ::
  "console_env \<Rightarrow> string \<Rightarrow> string \<Rightarrow> bool \<Rightarrow> string option \<Rightarrow> console \<Rightarrow> unit result \<times> console" where
  "close_event e i user forced comment c =
     (case validate_close_request forced comment of Inl x \<Rightarrow> (Inl x, c)
      | Inr _ \<Rightarrow>
        (case event_at c i of None \<Rightarrow> (Inl (event_not_found i), c)
         | Some v \<Rightarrow>
             if ge_status v = ''CLOSED'' then (Inl (HttpError 400 (''Event '' @ i @ '' is already CLOSED'')), c)
             else (Inr (), set_note i (\<lambda>n. add_comment (stamped e (build_close_audit_message user forced comment))
                     (closing_note e user n)) (set_event i closed_event c))))"

definition add_event_comment :: "console_env \<Rightarrow> string \<Rightarrow> string \<Rightarrow> string \<Rightarrow> console \<Rightarrow> unit result \<times> console" where
  "add_event_comment e i user m c =
     (if event_at c i = None then (Inl (event_not_found i), c)
      else (Inr (), set_note i (add_comment (stamped e (user @ '': '' @ m))) c))"

text \<open>\<open>e.status = 'RECOVERED' AND (e.ack IS NULL OR e.ack = false)\<close>\<close>

definition prunable :: "graph_event \<Rightarrow> bool" where
  "prunable v = (ge_status v = ''RECOVERED'' \<and> \<not> ge_ack v)"

definition prune_recovered_events :: "console_env \<Rightarrow> string \<Rightarrow> console \<Rightarrow> nat \<times> console" where
  "prune_recovered_events e user c =
     (let old = filter prunable (g_events (cn_graph c));
          c1 = c\<lparr>cn_graph := (cn_graph c)\<lparr>g_events := update_where prunable closed_event (g_events (cn_graph c))\<rparr>\<rparr>
      in (length old, fold (\<lambda>v. set_note (ge_id v) (closing_note e user)) old c1))"

text \<open>The item and the metric of an event: \<open>(e)<-[:HAS_EVENT]-(ci)\<close> and \<open>(e)-[:TRIGGERED_BY]->(m)\<close>\<close>

definition has_item :: "console \<Rightarrow> string \<Rightarrow> bool" where
  "has_item c i = list_ex (\<lambda>(ci, ev). ev = i \<and> ci \<in> set (g_cis (cn_graph c))) (g_has_event (cn_graph c))"

definition has_trigger :: "console \<Rightarrow> string \<Rightarrow> bool" where
  "has_trigger c i = list_ex (\<lambda>(ev, m). ev = i \<and> m \<in> fst ` set (g_metrics (cn_graph c))) (g_triggered (cn_graph c))"

definition run_event_diagnostic :: "console_env \<Rightarrow> string \<Rightarrow> string \<Rightarrow> console \<Rightarrow> string result \<times> console" where
  "run_event_diagnostic e i user c =
     (if event_at c i = None \<or> \<not> has_item c i \<or> \<not> has_trigger c i then (Inl (HttpError 404 ''Event not found''), c)
      else (Inr (xe_diagnose e i),
            set_note i (add_comment (stamped e (''DIAGNOSTIC RUN BY '' @ user @ '':'' @ [CHR 0x0A] @ xe_diagnose e i))) c))"

subsection \<open>The requests\<close>

definition is_ai_agent :: "account \<Rightarrow> bool" where
  "is_ai_agent u = (case ac_role u of None \<Rightarrow> False | Some r \<Rightarrow> starts_with ''AI_'' r)"

definition has_ai_permission :: "string \<Rightarrow> account \<Rightarrow> bool" where
  "has_ai_permission p u = (p \<in> set (ac_permissions u))"

definition may :: "string \<Rightarrow> string \<Rightarrow> account \<Rightarrow> bool" where
  "may ai_permission permission u =
     (if is_ai_agent u then has_ai_permission ai_permission u else check_permission permission u)"

text \<open>The guard of an agent; a person is not guarded.\<close>

definition guarded :: "console_env \<Rightarrow> string \<Rightarrow> string \<Rightarrow> account \<Rightarrow> console \<Rightarrow> unit result \<times> console" where
  "guarded e op i u c =
     (if is_ai_agent u then
        let (g, gs) = check_all_guards (xe_guard e) (xe_tick e) (xe_now e) (ac_name u) op [i] (cn_guard c)
        in (if gr_allowed g then Inr () else Inl (HttpError 403 (text_or_empty (gr_reason g))), c\<lparr>cn_guard := gs\<rparr>)
      else (Inr (), c))"

definition operation :: "console_env \<Rightarrow> string \<Rightarrow> string \<Rightarrow> string \<Rightarrow> string \<Rightarrow> account \<Rightarrow> string \<Rightarrow> string option \<Rightarrow> ai_operation" where
  "operation e op kind i name u outcome why =
     \<lparr>ao_time = xe_now e, ao_persona = text_or_empty (ac_role u), ao_agent = ac_name u, ao_operation = op,
      ao_target_type = kind, ao_target = i, ao_name = name, ao_result = outcome, ao_blocked_reason = why\<rparr>"

definition log_operation :: "console_env \<Rightarrow> ai_operation \<Rightarrow> console \<Rightarrow> unit result \<times> console" where
  "log_operation e entry c =
     (let (r, gs) = record_operation (xe_guard e) (xe_tick e) (xe_log_fails e) entry (cn_guard c)
      in (r, c\<lparr>cn_guard := gs\<rparr>))"

text \<open>\<open>andThen\<close> continues with the state when the first part raised nothing.\<close>

definition and_then :: "'a result \<times> console \<Rightarrow> (console \<Rightarrow> 'b result \<times> console) \<Rightarrow> 'b result \<times> console" where
  "and_then p f = (case fst p of Inl x \<Rightarrow> (Inl x, snd p) | Inr _ \<Rightarrow> f (snd p))"

definition record_success :: "console_env \<Rightarrow> string \<Rightarrow> string \<Rightarrow> string \<Rightarrow> string \<Rightarrow> account \<Rightarrow> console \<Rightarrow> unit result \<times> console" where
  "record_success e op kind i name u c =
     (if is_ai_agent u then log_operation e (operation e op kind i name u ''success'' None) c else (Inr (), c))"

definition ack_route :: "console_env \<Rightarrow> account \<Rightarrow> string \<Rightarrow> string option \<Rightarrow> console \<Rightarrow> unit result \<times> console" where
  "ack_route e u i comment c =
     (if \<not> may ''AI_EVENT_ACK'' ''EVENT_ACK'' u
      then (Inl (HttpError 403 ''Not authorized to acknowledge events''), c)
      else and_then (guarded e ''ack'' i u c) (\<lambda>c1.
        and_then (ack_event e i (ac_name u) comment c1)
          (record_success e ''ack'' ''event'' i (''Event '' @ i) u)))"

text \<open>
  \<open>notify_critical_event_escalation\<close>: the ticket is kept for thirty minutes unless publishing it
  raises. The route reads \<open>event.ci\<close>, which the detail does not have (it is \<open>ci_ref\<close>), so item and
  name are the fall-backs.
\<close>

definition notify_critical_event_escalation :: "console_env \<Rightarrow> account \<Rightarrow> graph_event \<Rightarrow> console \<Rightarrow> console" where
  "notify_critical_event_escalation e u v c =
     (if xe_publish_fails e then c
      else c\<lparr>cn_escalations := cn_escalations c @
        [\<lparr>es_id = xe_uuid e, es_persona = text_or_empty (ac_role u), es_agent = ac_name u, es_event = ge_id v,
          es_message = ge_message v, es_ci = ge_id v, es_ci_name = ''Unknown CI'', es_timeout = xe_now e + seconds (30 * 60)\<rparr>]\<rparr>)"

definition escalate_critical :: "console_env \<Rightarrow> account \<Rightarrow> graph_event \<Rightarrow> console \<Rightarrow> unit result \<times> console" where
  "escalate_critical e u v c =
     (if ge_severity v \<noteq> ''CRITICAL'' then (Inr (), c)
      else and_then
        (log_operation e (operation e ''close'' ''event'' (ge_id v) (''Event '' @ ge_id v) u ''escalated''
           (Some ''CRITICAL event requires human approval to close'')) (notify_critical_event_escalation e u v c))
        (\<lambda>c1. (Inr (), c1\<lparr>cn_guard := (cn_guard c1)\<lparr>gs_cache :=
           set_cooldown (xe_guard e) (xe_tick e) (ac_name u) ''close'' (ge_id v) (gs_cache (cn_guard c1))\<rparr>\<rparr>)))"

definition close_route :: "console_env \<Rightarrow> account \<Rightarrow> string \<Rightarrow> bool \<Rightarrow> string option \<Rightarrow> console \<Rightarrow> unit result \<times> console" where
  "close_route e u i forced comment c =
     (if \<not> may ''AI_EVENT_CLOSE'' ''EVENT_CLOSE'' u then (Inl (HttpError 403 ''Not authorized to close events''), c)
      else if forced \<and> is_ai_agent u then (Inl (HttpError 403 ''AI agents cannot force-close events''), c)
      else if forced \<and> \<not> check_permission ''EVENT_FORCED_CLOSE'' u
      then (Inl (HttpError 403 ''Not authorized to force-close events (EVENT_FORCED_CLOSE required)''), c)
      else and_then (guarded e ''close'' i u c) (\<lambda>c1.
        case event_at c1 i of None \<Rightarrow> (Inl (HttpError 404 ''Event not found''), c1)
        | Some v \<Rightarrow>
            if \<not> has_item c1 i then (Inl (HttpError 404 ''Event not found''), c1)
            else and_then (escalate_critical e u v c1) (\<lambda>c2.
              and_then (close_event e i (ac_name u) forced comment c2)
                (record_success e ''close'' ''event'' i (''Event '' @ i) u))))"

definition comment_route :: "console_env \<Rightarrow> account \<Rightarrow> string \<Rightarrow> string \<Rightarrow> console \<Rightarrow> unit result \<times> console" where
  "comment_route e u i m c =
     (if \<not> may ''AI_EVENT_COMMENT'' ''EVENT_ACK'' u then (Inl (HttpError 403 ''Not authorized to comment on events''), c)
      else add_event_comment e i (ac_name u) m c)"

definition prune_route :: "console_env \<Rightarrow> account \<Rightarrow> console \<Rightarrow> nat result \<times> console" where
  "prune_route e u c =
     (if \<not> check_permission ''EVENT_CLOSE'' u then (Inl (HttpError 403 ''Not authorized to prune events''), c)
      else let (n, c') = prune_recovered_events e (ac_name u) c in (Inr n, c'))"

definition diagnose_route :: "console_env \<Rightarrow> account \<Rightarrow> string \<Rightarrow> console \<Rightarrow> unit result \<times> console" where
  "diagnose_route e u i c =
     (if \<not> may ''AI_RUN_DIAGNOSTIC'' ''RUN_DIAGNOSTICS'' u then (Inl (HttpError 403 ''Not authorized to run diagnostics''), c)
      else and_then (guarded e ''diagnose'' i u c) (\<lambda>c1.
        and_then (run_event_diagnostic e i (ac_name u) c1)
          (record_success e ''diagnose'' ''ci'' i (''CI '' @ i) u)))"

end
