(* ===== verification/Event_Closing.thy ===== *)
theory Event_Closing
  imports Event_Console Icmp_Measurements
begin

section \<open>What the console does to the life of events\<close>

text \<open>
  Runs of console requests and writer batches: the console keeps one open event per cause, except by
  acknowledging what is over; what closing requires, records and escalates; and how the form of the
  console is read.
\<close>

subsection \<open>Runs\<close>

datatype console_request =
    Ack account string "string option"
  | Close account string bool "string option"
  | Comment account string string
  | Prune account
  | Diagnose account string
  | Batch runtime graph_env "pydict list"

definition write_batch :: "runtime \<Rightarrow> graph_env \<Rightarrow> pydict list \<Rightarrow> console \<Rightarrow> console" where
  "write_batch rt gx envs c =
     (case batch_update_events rt gx envs (cn_graph c) of Inl _ \<Rightarrow> c | Inr (n, g) \<Rightarrow> c\<lparr>cn_graph := g\<rparr>)"

definition console_step :: "console_env \<Rightarrow> console_request \<Rightarrow> console \<Rightarrow> console" where
  "console_step e r c =
     (case r of Ack u i m \<Rightarrow> snd (ack_route e u i m c)
      | Close u i f m \<Rightarrow> snd (close_route e u i f m c)
      | Comment u i m \<Rightarrow> snd (comment_route e u i m c)
      | Prune u \<Rightarrow> snd (prune_route e u c)
      | Diagnose u i \<Rightarrow> snd (diagnose_route e u i c)
      | Batch rt gx envs \<Rightarrow> write_batch rt gx envs c)"

fun console_run :: "(console_env \<times> console_request) list \<Rightarrow> console \<Rightarrow> console" where
  "console_run [] c = c"
| "console_run ((e, r) # rs) c = console_run rs (console_step e r c)"

text \<open>
  A request is timely when it does not acknowledge an event that is over; a batch comes from the
  writer with fresh identifiers and rows that name no root cause of their own.
\<close>

definition timely :: "(nat \<Rightarrow> string) \<Rightarrow> console_request \<Rightarrow> console \<Rightarrow> bool" where
  "timely uuid r c =
     (case r of Ack u i m \<Rightarrow> list_all (\<lambda>v. ge_id v = i \<longrightarrow> is_open v) (g_events (cn_graph c))
      | Batch rt gx envs \<Rightarrow> env_ok gx \<and> gx_uuid gx = uuid \<and>
          (case build_event_rows rt envs of Inl _ \<Rightarrow> True | Inr rows \<Rightarrow> list_all plain_root rows)
      | _ \<Rightarrow> True)"

fun all_timely :: "(nat \<Rightarrow> string) \<Rightarrow> (console_env \<times> console_request) list \<Rightarrow> console \<Rightarrow> bool" where
  "all_timely uuid [] c = True"
| "all_timely uuid ((e, r) # rs) c = (timely uuid r c \<and> all_timely uuid rs (console_step e r c))"

subsection \<open>The events after a request\<close>

lemma set_note_graph [simp]: "cn_graph (set_note i f c) = cn_graph c"
  by (simp add: set_note_def)

lemma set_event_graph [simp]:
  "cn_graph (set_event i f c) = (cn_graph c)\<lparr>g_events := update_where (\<lambda>e. ge_id e = i) f (g_events (cn_graph c))\<rparr>"
  by (simp add: set_event_def)

lemma fold_set_note_graph [simp]: "cn_graph (fold (\<lambda>v. set_note (h v) f) xs c) = cn_graph c"
  by (induction xs arbitrary: c) simp_all

lemma log_operation_graph [simp]: "cn_graph (snd (log_operation e entry c)) = cn_graph c"
  by (simp add: log_operation_def split: prod.split)

lemma record_success_graph [simp]: "cn_graph (snd (record_success e op k i n u c)) = cn_graph c"
  by (simp add: record_success_def)

lemma guarded_graph [simp]: "cn_graph (snd (guarded e op i u c)) = cn_graph c"
  by (simp add: guarded_def split: prod.split)

lemma guarded_notes [simp]: "cn_notes (snd (guarded e op i u c)) = cn_notes c"
  by (simp add: guarded_def split: prod.split)

lemma notify_graph [simp]: "cn_graph (notify_critical_event_escalation e u v c) = cn_graph c"
  by (simp add: notify_critical_event_escalation_def)

lemma and_then_cases:
  "snd (and_then p f) = (if is_ok (fst p) then snd (f (snd p)) else snd p)"
  by (cases "fst p") (simp_all add: and_then_def)

lemma escalate_graph [simp]: "cn_graph (snd (escalate_critical e u v c)) = cn_graph c"
  by (simp add: escalate_critical_def and_then_cases)

lemma ack_event_graph:
  "cn_graph (snd (ack_event e i user m c)) =
    (if event_at c i = None then cn_graph c else cn_graph (set_event i acked c))"
  by (simp add: ack_event_def Let_def split: option.split)

lemma close_event_graph:
  "cn_graph (snd (close_event e i user f m c)) = cn_graph c \<or>
   cn_graph (snd (close_event e i user f m c)) = cn_graph (set_event i closed_event c)"
  by (simp add: close_event_def split: sum.split option.split)

lemma mild_closed: "mild closed_event"
  by (simp add: mild_def closed_event_def open_root_def is_open_def)

lemma guarded_events [simp]: "event_at (snd (guarded e op i u c)) j = event_at c j"
  by (simp add: event_at_def)

lemma ack_route_graph:
  "cn_graph (snd (ack_route e u i m c)) = cn_graph c \<or>
   cn_graph (snd (ack_route e u i m c)) = cn_graph (set_event i acked c)"
  by (simp add: ack_route_def and_then_cases ack_event_graph)

lemma close_route_graph:
  "cn_graph (snd (close_route e u i f m c)) = cn_graph c \<or>
   cn_graph (snd (close_route e u i f m c)) = cn_graph (set_event i closed_event c)"
proof -
  have "cn_graph (snd (close_event e i n f m d)) = cn_graph c \<or>
      cn_graph (snd (close_event e i n f m d)) = cn_graph (set_event i closed_event c)" if "cn_graph d = cn_graph c" for n d
    using close_event_graph [of e i n f m d] that by simp
  then show ?thesis
    by (simp add: close_route_def and_then_cases split: option.split)
qed

lemma others_graph:
  "cn_graph (snd (comment_route e u i m c)) = cn_graph c"
  "cn_graph (snd (diagnose_route e u i c)) = cn_graph c"
  by (simp_all add: comment_route_def add_event_comment_def diagnose_route_def run_event_diagnostic_def and_then_cases)

lemma prune_route_graph:
  "cn_graph (snd (prune_route e u c)) = cn_graph c \<or>
   cn_graph (snd (prune_route e u c)) = (cn_graph c)\<lparr>g_events := update_where prunable closed_event (g_events (cn_graph c))\<rparr>"
  by (simp add: prune_route_def prune_recovered_events_def Let_def)

lemma timely_ack:
  assumes "list_all (\<lambda>v. ge_id v = i \<longrightarrow> is_open v) vs"
  shows "update_where (\<lambda>v. ge_id v = i) acked vs = update_where (\<lambda>v. ge_id v = i) (\<lambda>v. if is_open v then acked v else v) vs"
  using assms by (auto simp: update_where_def list_all_iff)

lemma mild_timely_ack: "mild (\<lambda>v. if is_open v then acked v else v)"
  by (simp add: mild_def acked_def open_root_def is_open_def)

lemma step_keeps:
  assumes "graph_inv uuid (cn_graph c)" "timely uuid r c"
  shows "graph_inv uuid (cn_graph (console_step e r c))"
proof (cases r)
  case (Ack u i m)
  then have "cn_graph (set_event i acked c) = (cn_graph c)\<lparr>g_events :=
      update_where (\<lambda>v. ge_id v = i) (\<lambda>v. if is_open v then acked v else v) (g_events (cn_graph c))\<rparr>"
    using assms(2) timely_ack by (simp add: timely_def)
  then have "graph_inv uuid (cn_graph (set_event i acked c))"
    by (simp only: mild_update [OF mild_timely_ack assms(1)])
  with Ack assms(1) show ?thesis
    using ack_route_graph [of e u i m c] by (auto simp: console_step_def)
next
  case (Close u i f m)
  have "graph_inv uuid (cn_graph (set_event i closed_event c))"
    by (simp add: mild_update [OF mild_closed assms(1)])
  with Close assms(1) show ?thesis
    using close_route_graph [of e u i f m c] by (auto simp: console_step_def)
next
  case (Prune u)
  with assms(1) mild_update [OF mild_closed assms(1), of prunable] show ?thesis
    using prune_route_graph [of e u c] by (auto simp: console_step_def)
next
  case (Batch rt gx envs)
  show ?thesis
  proof (cases "batch_update_events rt gx envs (cn_graph c)")
    case (Inr p)
    obtain n g where p: "p = (n, g)" by (cases p)
    from Inr obtain rows where rows: "build_event_rows rt envs = Inr rows"
      by (auto simp: batch_update_events_def bindR_eq_Inr)
    have "graph_inv uuid g"
      using batch_keeps [of gx "cn_graph c" rt envs rows n g] assms Batch rows Inr p
      by (simp add: timely_def)
    with Batch Inr p show ?thesis by (simp add: console_step_def write_batch_def)
  qed (use Batch assms(1) in \<open>simp add: console_step_def write_batch_def\<close>)
qed (use assms(1) in \<open>simp_all add: console_step_def others_graph\<close>)



text \<open>A breach, its acknowledgement and its forced closing; then the same breach again.\<close>

definition demo_env :: console_env where
  "demo_env = \<lparr>xe_guard = default_guard_config, xe_tick = 0, xe_now = 7, xe_stamp = ''now'', xe_uuid = ''u'',
     xe_publish_fails = False, xe_log_fails = False, xe_diagnose = (\<lambda>_. ''ok'')\<rparr>"

definition demo_console :: console where
  "demo_console = \<lparr>cn_graph = Event_Graph.demo_graph, cn_notes = [],
     cn_guard = \<lparr>gs_cache = \<lparr>cl_entries = [], cl_last_sweep = 0\<rparr>, gs_log = []\<rparr>, cn_escalations = []\<rparr>"

definition demo_admin :: account where
  "demo_admin = \<lparr>ac_name = ''ana'', ac_role = Some ''ADMIN'', ac_permissions = []\<rparr>"

definition demo_requests :: "(console_env \<times> console_request) list" where
  "demo_requests = [(demo_env, Batch demo_rt demo_gx [demo_breach]), (demo_env, Ack demo_admin ''0'' None),
     (demo_env, Close demo_admin ''0'' True (Some ''Motivo: x'')), (demo_env, Batch demo_rt demo_gx [demo_breach])]"

lemma demo_start: "graph_inv show_nat (cn_graph demo_console)"
  by (simp add: graph_inv_def linked_def one_open_root_def Event_Graph.demo_graph_def demo_console_def)

lemma demo_gx_ok: "env_ok demo_gx \<and> gx_uuid demo_gx = show_nat"
  by (auto simp: env_ok_def demo_gx_def inj_def show_nat_inject neq_Nil_conv split: list.splits)

lemma demo_rows_plain:
  "(case build_event_rows demo_rt [demo_breach] of Inl _ \<Rightarrow> True | Inr rows \<Rightarrow> list_all plain_root rows)"
  by code_simp


subsection \<open>Acknowledging what is over\<close>

text \<open>
  An acknowledgement asks nothing of the state of the event: acknowledging a closed or recovered
  event succeeds and opens it again, next to the event that was raised since for the same cause.
\<close>

theorem late_ack_reopens:
  assumes "v \<in> set (g_events (cn_graph c))" "w \<in> set (g_events (cn_graph c))" "ge_id v \<noteq> ge_id w"
    "\<not> is_open v" "root_corr (ge_corr v)" "open_root w" "event_key v = event_key w"
    "\<not> is_ai_agent u" "check_permission ''EVENT_ACK'' u"
  shows "fst (ack_route e u (ge_id v) m c) = Inr () \<and> \<not> one_open_root (cn_graph (snd (ack_route e u (ge_id v) m c)))"
proof -
  let ?d = "snd (ack_route e u (ge_id v) m c)"
  obtain y where found: "event_at c (ge_id v) = Some y"
    using assms(1) by (cases "event_at c (ge_id v)") (auto simp: event_at_def find_None_iff)
  have route: "ack_route e u (ge_id v) m c = ack_event e (ge_id v) (ac_name u) m c"
    using assms(8,9) found
    by (simp add: ack_route_def may_def guarded_def and_then_def record_success_def ack_event_def Let_def)
  have "g_events (cn_graph ?d) = update_where (\<lambda>e. ge_id e = ge_id v) acked (g_events (cn_graph c))"
    using found by (simp add: route ack_event_graph)
  then have "acked v \<in> set (g_events (cn_graph ?d))" "w \<in> set (g_events (cn_graph ?d))"
    using assms(1-3) by (auto simp: set_update_where)
  moreover have key: "event_key (acked v) = event_key w"
    using assms(7) by (simp add: event_key_def acked_def)
  moreover have "open_root (acked v)"
    using assms(5-7) by (simp add: open_root_def is_open_def acked_def event_key_def)
  moreover have "acked v \<noteq> w"
  proof
    assume "acked v = w"
    then have "ge_id w = ge_id v" by (auto simp: acked_def)
    with assms(3) show False by simp
  qed
  ultimately have "\<not> one_open_root (cn_graph ?d)"
    using assms(6) unfolding one_open_root_def by blast
  with found show ?thesis by (simp add: route ack_event_def Let_def)
qed

theorem late_ack_reopens_witness:
  "\<not> one_open_root (cn_graph (snd (ack_route demo_env demo_admin ''0'' None (console_run demo_requests demo_console))))"
proof -
  let ?c = "console_run demo_requests demo_console"
  have "map (\<lambda>v. (ge_id v, is_open v, root_corr (ge_corr v), open_root v, event_key v)) (g_events (cn_graph ?c)) =
      [(''0'', False, True, False, (PStr ''n1'', ''cpu'', Some ''THRESHOLD_BREACH'')),
       (''1'', True, True, True, (PStr ''n1'', ''cpu'', Some ''THRESHOLD_BREACH''))]" by code_simp
  then obtain v w where vw: "g_events (cn_graph ?c) = [v, w]" "ge_id v = ''0''" "ge_id w = ''1''" "\<not> is_open v"
    "root_corr (ge_corr v)" "open_root w" "event_key v = event_key w" by (auto simp: map_eq_Cons_conv)
  have "\<not> is_ai_agent demo_admin" "check_permission ''EVENT_ACK'' demo_admin" by code_simp+
  then show ?thesis
    using late_ack_reopens [of v ?c w demo_admin demo_env None] vw by simp
qed

subsection \<open>What closing takes\<close>

lemma and_then_Inr: "and_then p f = (Inr x, d) \<longleftrightarrow> is_ok (fst p) \<and> f (snd p) = (Inr x, d)"
  by (cases "fst p") (auto simp: and_then_def)

lemma note_of_set [simp]: "note_of (set_note i f c) j = (if j = i then f (note_of c i) else note_of c j)"
  by (simp add: note_of_def set_note_def dict_get_update)

lemma note_of_event [simp]: "note_of (set_event i f c) j = note_of c j"
  by (simp add: note_of_def set_event_def)

lemma side_notes [simp]:
  "note_of (snd (guarded e op i u c)) j = note_of c j"
  "note_of (snd (escalate_critical e u v c)) j = note_of c j"
  "note_of (snd (record_success e op k i n u c)) j = note_of c j"
  by (simp_all add: note_of_def guarded_def escalate_critical_def and_then_cases log_operation_def
      notify_critical_event_escalation_def record_success_def split: prod.split)

lemma side_escalations [simp]:
  "cn_escalations (snd (guarded e op i u c)) = cn_escalations c"
  "cn_escalations (snd (record_success e op k i n u c)) = cn_escalations c"
  "cn_escalations (set_note i f c) = cn_escalations c" "cn_escalations (set_event i g c) = cn_escalations c"
  by (simp_all add: guarded_def log_operation_def record_success_def set_note_def set_event_def split: prod.split)

definition escalated_for :: "string \<Rightarrow> console \<Rightarrow> bool" where
  "escalated_for i c = list_ex (\<lambda>x. es_event x = i) (cn_escalations c)"

lemma escalate_escalates:
  "ge_severity v = ''CRITICAL'' \<Longrightarrow> \<not> xe_publish_fails e \<Longrightarrow>
     escalated_for (ge_id v) (snd (escalate_critical e u v c))"
  by (simp add: escalate_critical_def and_then_cases log_operation_def notify_critical_event_escalation_def
      escalated_for_def split: prod.split)

lemma event_at_id: "event_at c i = Some v \<Longrightarrow> ge_id v = i"
  by (auto simp: event_at_def find_Some_iff)

lemma close_event_ok:
  "close_event e i n f m d = (Inr (), d') \<longleftrightarrow>
     validate_close_request f m = Inr () \<and> (\<exists>v. event_at d i = Some v \<and> ge_status v \<noteq> ''CLOSED'') \<and>
     d' = set_note i (\<lambda>x. add_comment (stamped e (build_close_audit_message n f m)) (closing_note e n x)) (set_event i closed_event d)"
  by (auto simp: close_event_def split: sum.split option.split)

text \<open>
  C24: A closing that succeeds was asked for with the permission it needs, forced only by a person
  with the permission to force, with a comment that has what its kind requires; the event existed,
  had its item and was not closed. It is closed now by that user, with one audit comment, no other
  event and no other notes have changed, and if it was critical a person has been told unless
  publishing failed.
\<close>

theorem close_route_checks:
  assumes "close_route e u i forced m c = (Inr (), d)"
  shows "may ''AI_EVENT_CLOSE'' ''EVENT_CLOSE'' u \<and>
    \<not> (forced \<and> (is_ai_agent u \<or> \<not> check_permission ''EVENT_FORCED_CLOSE'' u)) \<and>
    validate_close_request forced m = Inr () \<and> has_item c i \<and>
    (\<exists>v. event_at c i = Some v \<and> ge_status v \<noteq> ''CLOSED'' \<and>
      (ge_severity v \<noteq> ''CRITICAL'' \<or> xe_publish_fails e \<or> escalated_for i d)) \<and>
    g_events (cn_graph d) = update_where (\<lambda>v. ge_id v = i) closed_event (g_events (cn_graph c)) \<and>
    en_closed_by (note_of d i) = Some (ac_name u) \<and>
    en_comments (note_of d i) = en_comments (note_of c i) @ [stamped e (build_close_audit_message (ac_name u) forced m)] \<and>
    list_all (\<lambda>v. ge_id v = i \<or> note_of d (ge_id v) = note_of c (ge_id v)) (g_events (cn_graph c))"
proof -
  let ?g = "snd (guarded e ''close'' i u c)"
  have perms: "may ''AI_EVENT_CLOSE'' ''EVENT_CLOSE'' u" "\<not> (forced \<and> is_ai_agent u)"
    "\<not> (forced \<and> \<not> check_permission ''EVENT_FORCED_CLOSE'' u)"
    using assms by (auto simp: close_route_def split: if_splits)
  then obtain v where v: "event_at c i = Some v" "has_item ?g i"
    and rest: "and_then (escalate_critical e u v ?g) (\<lambda>c2. and_then (close_event e i (ac_name u) forced m c2)
        (record_success e ''close'' ''event'' i (''Event '' @ i) u)) = (Inr (), d)"
    using assms by (auto simp: close_route_def and_then_Inr split: option.splits if_splits)
  let ?x = "snd (escalate_critical e u v ?g)"
  from rest obtain d1 where d1: "close_event e i (ac_name u) forced m ?x = (Inr (), d1)"
    "record_success e ''close'' ''event'' i (''Event '' @ i) u d1 = (Inr (), d)"
    by (cases "close_event e i (ac_name u) forced m ?x") (auto simp: and_then_Inr and_then_def split: sum.splits)
  have d: "d = snd (record_success e ''close'' ''event'' i (''Event '' @ i) u d1)" by (simp only: d1(2) snd_conv)
  have same: "cn_graph ?x = cn_graph c" "event_at ?x i = event_at c i" "has_item c i"
    using v(2) by (simp_all add: event_at_def has_item_def)
  from d1(1) have ok: "validate_close_request forced m = Inr ()" "ge_status v \<noteq> ''CLOSED''"
    "d1 = set_note i (\<lambda>x. add_comment (stamped e (build_close_audit_message (ac_name u) forced m)) (closing_note e (ac_name u) x))
       (set_event i closed_event ?x)"
    using v(1) same(2) by (auto simp: close_event_ok)
  have "cn_escalations d = cn_escalations ?x" by (simp add: d ok(3))
  then have "ge_severity v \<noteq> ''CRITICAL'' \<or> xe_publish_fails e \<or> escalated_for i d"
    using escalate_escalates [of v e u ?g] event_at_id [OF v(1)] by (auto simp: escalated_for_def)
  with perms ok(1,2) same v(1) show ?thesis
    by (auto simp: d ok(3) add_comment_def closing_note_def list_all_iff)
qed


text \<open>A critical event, closed by force.\<close>

definition demo_critical :: console where
  "demo_critical = demo_console\<lparr>cn_graph := Event_Graph.demo_graph\<lparr>
     g_events := [\<lparr>ge_id = ''e'', ge_ci = PStr ''n1'', ge_metric = ''cpu'', ge_status = ''OPEN'', ge_type = Some ''AVAILABILITY'',
       ge_family = None, ge_protocol = None, ge_avail = None, ge_severity = ''CRITICAL'', ge_message = None,
       ge_created = None, ge_seen = None, ge_ack = False, ge_recovered = None, ge_corr = PNone, ge_propagated = PNone,
       ge_root_event = PNone, ge_root_ci = PNone, ge_context = [], ge_collector = ''host''\<rparr>],
     g_has_event := [(PStr ''n1'', ''e'')]\<rparr>\<rparr>"

theorem close_route_checks_witness:
  "\<exists>d. close_route demo_env demo_admin ''e'' True (Some ''Motivo: x'') demo_critical = (Inr (), d) \<and> escalated_for ''e'' d \<and>
     en_comments (note_of d ''e'') = [''[AUDIT][FORCED_CLOSE] Cierre forzado por ana'' @ [CHR 0x0A] @ ''Motivo: x (now)'']"
proof -
  let ?r = "close_route demo_env demo_admin ''e'' True (Some ''Motivo: x'') demo_critical"
  have "fst ?r = Inr ()" by code_simp
  then obtain d where d: "?r = (Inr (), d)" by (cases ?r) simp
  have "event_at demo_critical ''e'' = Some (hd (g_events (cn_graph demo_critical)))"
    "ge_severity (hd (g_events (cn_graph demo_critical))) = ''CRITICAL''" "\<not> xe_publish_fails demo_env" by code_simp+
  with close_route_checks [OF d] have "escalated_for ''e'' d" by auto
  moreover have "en_comments (note_of demo_critical ''e'') @ [stamped demo_env (build_close_audit_message (ac_name demo_admin) True (Some ''Motivo: x''))] =
      [''[AUDIT][FORCED_CLOSE] Cierre forzado por ana'' @ [CHR 0x0A] @ ''Motivo: x (now)'']" by code_simp
  with close_route_checks [OF d]
  have "en_comments (note_of d ''e'') = [''[AUDIT][FORCED_CLOSE] Cierre forzado por ana'' @ [CHR 0x0A] @ ''Motivo: x (now)'']" by simp
  ultimately show ?thesis using d by blast
qed

subsection \<open>A refused closing of a critical event\<close>

lemma escalate_ok:
  "\<not> xe_log_fails e \<Longrightarrow> fst (escalate_critical e u v c) = Inr ()"
  by (simp add: escalate_critical_def and_then_def log_operation_def record_operation_def Let_def)

lemma escalate_logs:
  assumes "ge_severity v = ''CRITICAL''" "\<not> xe_log_fails e"
  shows "length (gs_log (cn_guard (snd (escalate_critical e u v c)))) = Suc (length (gs_log (cn_guard c)))"
  using assms
  by (simp add: escalate_critical_def and_then_def log_operation_def record_operation_def Let_def
      notify_critical_event_escalation_def operation_def)

text \<open>
  The escalation comes before the checks. A person's request to close a critical event with a
  comment that does not pass is refused with the error of the comment, and leaves the event as it
  was; but a human has been alerted, an operation by that user is in the log of the AI agents, and
  this happens again at every further attempt.
\<close>

theorem refused_close_escalates:
  assumes "may ''AI_EVENT_CLOSE'' ''EVENT_CLOSE'' u" "\<not> is_ai_agent u" "\<not> (forced \<and> \<not> check_permission ''EVENT_FORCED_CLOSE'' u)"
    "event_at c i = Some v" "has_item c i" "ge_severity v = ''CRITICAL''" "\<not> xe_publish_fails e" "\<not> xe_log_fails e"
    "validate_close_request forced m = Inl err"
  shows "\<exists>d. close_route e u i forced m c = (Inl err, d) \<and> cn_graph d = cn_graph c \<and> escalated_for i d \<and>
    length (gs_log (cn_guard d)) = Suc (length (gs_log (cn_guard c)))"
proof -
  let ?x = "snd (escalate_critical e u v c)"
  have "close_route e u i forced m c = (Inl err, ?x)"
    using assms(1-5,9) escalate_ok [OF assms(8)]
    by (auto simp: close_route_def guarded_def and_then_def close_event_def)
  moreover have "escalated_for i ?x"
    using escalate_escalates [OF assms(6,7)] event_at_id [OF assms(4)] by simp
  ultimately show ?thesis using escalate_logs [OF assms(6,8)] by simp
qed

theorem refused_close_escalates_witness:
  "\<exists>d. close_route demo_env demo_admin ''e'' False (Some ''listo'') demo_critical =
     (Inl (HttpError 400 (''Normal close requires '' @ [CHR 0x27] @ ''Causa ra'' @ [CHR 0xED, CHR ''z'', CHR 0x27] @ '' in comment_message'')), d) \<and>
     escalated_for ''e'' d"
proof -
  have "event_at demo_critical ''e'' = Some (hd (g_events (cn_graph demo_critical)))" "has_item demo_critical ''e''"
    "ge_severity (hd (g_events (cn_graph demo_critical))) = ''CRITICAL''" "\<not> xe_publish_fails demo_env" "\<not> xe_log_fails demo_env"
    "may ''AI_EVENT_CLOSE'' ''EVENT_CLOSE'' demo_admin" "\<not> is_ai_agent demo_admin"
    "\<not> (False \<and> \<not> check_permission ''EVENT_FORCED_CLOSE'' demo_admin)"
    "validate_close_request False (Some ''listo'') =
      Inl (HttpError 400 (''Normal close requires '' @ [CHR 0x27] @ ''Causa ra'' @ [CHR 0xED, CHR ''z'', CHR 0x27] @ '' in comment_message''))"
    by code_simp+
  then show ?thesis
    using refused_close_escalates [of demo_admin False demo_critical "''e''" "hd (g_events (cn_graph demo_critical))" demo_env "Some ''listo''"]
    by blast
qed

subsection \<open>Reading the form\<close>

definition plain_text :: "string \<Rightarrow> bool" where
  "plain_text s = list_all (\<lambda>c. \<not> line_end c) s"

lemma lines_plain: "plain_text s \<Longrightarrow> lines_from False w s = (if rev w @ s = [] then [] else [rev w @ s])"
  by (induction s arbitrary: w) (auto simp: plain_text_def)

lemma lines_two:
  "plain_text s \<Longrightarrow> lines_from False w (s @ CHR 0x0A # t) = (rev w @ s) # lines_from False [] t"
  by (induction s arbitrary: w) (auto simp: plain_text_def line_end_def)

definition solid :: "string \<Rightarrow> bool" where
  "solid s = (s \<noteq> [] \<and> \<not> is_space (hd s) \<and> \<not> is_space (last s))"

lemma strip_solid: "solid s \<Longrightarrow> strip s = s"
  by (simp add: solid_def strip_def lstrip_solid hd_rev)

lemma strip_blank_solid: "solid s \<Longrightarrow> strip (CHR '' '' # s) = s"
proof -
  assume "solid s"
  moreover have "is_space (CHR '' '')" by code_simp
  ultimately show ?thesis by (simp add: solid_def strip_def lstrip_def lstrip_solid [unfolded lstrip_def] hd_rev)
qed

text \<open>A line of the form: a label, a colon, a blank and a value.\<close>

definition form_line :: "string \<Rightarrow> string \<Rightarrow> string" where
  "form_line label v = label @ '': '' @ v"

lemma form_line_solid: "solid label \<Longrightarrow> solid v \<Longrightarrow> solid (form_line label v)"
  by (cases label) (auto simp: solid_def form_line_def)

lemma value_of_form: "CHR '':'' \<notin> set label \<Longrightarrow> solid v \<Longrightarrow> value_of (form_line label v) = v"
proof -
  assume "CHR '':'' \<notin> set label" "solid v"
  then have "dropWhile (\<lambda>c. c \<noteq> CHR '':'') (form_line label v) = CHR '':'' # CHR '' '' # v"
    by (subst form_line_def, subst dropWhile_append2) auto
  then show ?thesis using strip_blank_solid [OF \<open>solid v\<close>] by (simp add: value_of_def)
qed

lemma scan_cause:
  assumes "solid v"
  shows "scan_line (form_line ''Causa raiz'' v) s = s\<lparr>sn_cause := v, sn_collecting := False\<rparr>"
proof -
  have "solid ''Causa raiz''" by code_simp
  then have line: "strip (form_line ''Causa raiz'' v) = form_line ''Causa raiz'' v"
    using form_line_solid assms strip_solid by blast
  have "starts_with ''causa raiz:'' (lower (''Causa raiz:'' @ CHR '' '' # v))"
    by (simp add: starts_with_steps) code_simp
  then have "starts_with ''causa raiz:'' (lower (form_line ''Causa raiz'' v))" by (simp add: form_line_def)
  moreover have "value_of (form_line ''Causa raiz'' v) = v" by (rule value_of_form) (use assms in simp_all)
  ultimately show ?thesis by (simp add: scan_line_def line root_cause_labels_def Let_def)
qed

lemma scan_nota:
  assumes "solid v"
  shows "scan_line (form_line ''Nota'' v) s = s\<lparr>sn_note := [v], sn_collecting := True\<rparr>"
proof -
  have "solid ''Nota''" by code_simp
  then have line: "strip (form_line ''Nota'' v) = form_line ''Nota'' v"
    using form_line_solid assms strip_solid by blast
  have start: "lower (form_line ''Nota'' v) = ''nota:'' @ lower (CHR '' '' # v)"
    unfolding form_line_def by (simp, code_simp)
  have "starts_with ''nota:'' (lower (form_line ''Nota'' v))"
    "\<not> list_ex (\<lambda>p. starts_with p (lower (form_line ''Nota'' v))) root_cause_labels"
    unfolding start by (simp_all add: starts_with_steps root_cause_labels_def)
  moreover have "value_of (form_line ''Nota'' v) = v" by (rule value_of_form) (use assms in simp_all)
  ultimately show ?thesis by (simp add: scan_line_def line Let_def)
qed

definition close_form :: "string \<Rightarrow> string \<Rightarrow> string" where
  "close_form cause note = form_line ''Causa raiz'' cause @ [CHR 0x0A] @ form_line ''Nota'' note"

lemma close_form_kept:
  assumes "solid cause" "solid note"
  shows "strip_known_audit_prefixes (Some (close_form cause note)) = close_form cause note"
proof -
  have "solid (close_form cause note)"
    using assms(2) by (simp add: solid_def close_form_def form_line_def) code_simp
  then have "strip (close_form cause note) = close_form cause note" by (rule strip_solid)
  moreover have "strip_prefixes (close_form cause note) = close_form cause note"
    by (subst strip_prefixes.simps) (simp add: strips_prefix_def close_form_def form_line_def starts_with_steps)
  ultimately show ?thesis
    by (simp add: strip_known_audit_prefixes_def)
qed

lemma close_form_fields:
  assumes "plain_text cause" "plain_text note" "solid cause" "solid note"
  shows "extract_structured_close_fields (Some (close_form cause note)) = (cause, note)"
proof -
  have lines: "plain_text (form_line ''Causa raiz'' cause)" "plain_text (form_line ''Nota'' note)"
    using assms(1,2) by (auto simp: plain_text_def form_line_def line_end_def)
  have "splitlines (close_form cause note) = [form_line ''Causa raiz'' cause, form_line ''Nota'' note]"
    using lines_two [OF lines(1)] lines_plain [OF lines(2)] by (simp add: splitlines_def close_form_def) (simp add: form_line_def)
  then show ?thesis
    using close_form_kept [OF assms(3,4)] assms(3,4) strip_solid [OF assms(4)]
    by (simp add: extract_structured_close_fields_def scan_cause scan_nota) (simp add: solid_def)
qed



end
