(* ===== verification/Event_Prune.thy ===== *)
theory Event_Prune
  imports Event_Console
begin

section \<open>Pruning recovered events (services/event_service.py, services/event_prune_metrics.py)\<close>

text \<open>
  The batch pruner behind the progress stream: pages of recovered events read with a cursor, closed
  one by one, with a cache of what was tried and a bound on failures; the lock that keeps two
  prunings apart, the scheduled pruning with its metrics, and the stream endpoint.
\<close>

subsection \<open>Pages\<close>

text \<open>The cursor: creation time and identifier of the last row, either may be null.\<close>

type_synonym prune_cursor = "instant option \<times> string option"

definition null_after :: "string option \<Rightarrow> graph_event \<Rightarrow> bool" where
  "null_after i v = (ge_created v = None \<and> (case i of None \<Rightarrow> False | Some j \<Rightarrow> j < ge_id v))"

definition created_after :: "instant \<Rightarrow> graph_event \<Rightarrow> bool" where
  "created_after t v = (case ge_created v of None \<Rightarrow> False | Some u \<Rightarrow> t < u)"

lemma after_simps [simp]:
  "null_after i v \<longleftrightarrow> ge_created v = None \<and> (\<exists>j. i = Some j \<and> j < ge_id v)"
  "created_after t v \<longleftrightarrow> (\<exists>u. ge_created v = Some u \<and> t < u)"
  by (simp_all add: null_after_def created_after_def split: option.split)

definition after_cursor :: "prune_cursor \<Rightarrow> graph_event \<Rightarrow> bool" where
  "after_cursor k v =
     (case k of (Some t, i) \<Rightarrow> created_after t v \<or> null_after i v
      | (None, Some j) \<Rightarrow> null_after (Some j) v
      | (None, None) \<Rightarrow> True)"

text \<open>\<open>ORDER BY e.created_at ASC, e.id ASC\<close>: nulls last.\<close>

definition page_key :: "graph_event \<Rightarrow> bool \<times> instant \<times> string" where
  "page_key v = (ge_created v = None, case ge_created v of None \<Rightarrow> 0 | Some t \<Rightarrow> t, ge_id v)"

definition fetch_page :: "nat \<Rightarrow> prune_cursor \<Rightarrow> console \<Rightarrow> graph_event list" where
  "fetch_page limit k c =
     take limit (sort_key page_key (filter (\<lambda>v. prunable v \<and> after_cursor k v) (g_events (cn_graph c))))"

subsection \<open>Closing a page\<close>

text \<open>What happens to the reads and the closings of a batch, and the monotonic clock of the cache.\<close>

datatype fetch_outcome = Fetched | Failed | Syntax_error

record prune_env =
  pe_console :: console_env
  pe_user :: string
  pe_fetch :: "nat \<Rightarrow> fetch_outcome"
  pe_close_fails :: "nat \<Rightarrow> string \<Rightarrow> bool"
  pe_clock :: "nat \<Rightarrow> int"

type_synonym prune_cache = "(string \<times> int) list"

definition cache_has :: "int \<Rightarrow> prune_cache \<Rightarrow> string \<Rightarrow> bool" where
  "cache_has tick cache i = (case map_of cache i of None \<Rightarrow> False | Some e \<Rightarrow> e > tick)"

definition cache_ttl :: int where
  "cache_ttl = seconds 300"

definition close_one :: "prune_env \<Rightarrow> string \<Rightarrow> console \<Rightarrow> bool \<times> console" where
  "close_one e i c =
     (if list_ex (\<lambda>v. ge_id v = i \<and> prunable v) (g_events (cn_graph c))
      then (True, set_note i (closing_note (pe_console e) (pe_user e))
        (c\<lparr>cn_graph := (cn_graph c)\<lparr>g_events := update_where (\<lambda>v. ge_id v = i \<and> prunable v) closed_event (g_events (cn_graph c))\<rparr>\<rparr>))
      else (False, c))"

definition try_close :: "prune_env \<Rightarrow> nat \<Rightarrow> string \<Rightarrow> prune_cache \<times> nat \<times> console \<Rightarrow> prune_cache \<times> nat \<times> console" where
  "try_close e batch i s =
     (case s of (cache, n, c) \<Rightarrow>
        if cache_has (pe_clock e batch) cache i then s
        else
          let cache' = AList.update i (pe_clock e batch + cache_ttl) cache
          in if pe_close_fails e batch i then (cache', n, c)
             else let (done, c') = close_one e i c in (cache', if done then Suc n else n, c'))"

definition fresh_rows :: "prune_env \<Rightarrow> nat \<Rightarrow> prune_cache \<Rightarrow> graph_event list \<Rightarrow> graph_event list" where
  "fresh_rows e batch cache rows = filter (\<lambda>v. ge_id v \<noteq> '''' \<and> \<not> cache_has (pe_clock e batch) cache (ge_id v)) rows"

definition close_page ::
  "prune_env \<Rightarrow> nat \<Rightarrow> graph_event list \<Rightarrow> prune_cache \<Rightarrow> console \<Rightarrow> prune_cache \<times> nat \<times> console" where
  "close_page e batch rows cache c = fold (try_close e batch) (remdups (map ge_id rows)) (cache, 0, c)"

subsection \<open>The pruner\<close>

record progress =
  pg_total :: nat
  pg_processed :: nat
  pg_remaining :: nat
  pg_batch :: nat
  pg_error :: bool
  pg_terminal :: bool

definition report :: "nat \<Rightarrow> nat \<Rightarrow> nat \<Rightarrow> bool \<Rightarrow> bool \<Rightarrow> progress" where
  "report whole n batch err term =
     \<lparr>pg_total = whole, pg_processed = n, pg_remaining = whole - n, pg_batch = batch, pg_error = err, pg_terminal = term\<rparr>"

definition max_failures :: nat where
  "max_failures = 3"

definition next_cursor :: "graph_event list \<Rightarrow> prune_cursor \<Rightarrow> prune_cursor" where
  "next_cursor rows k = (if rows = [] then k else (ge_created (last rows), Some (ge_id (last rows))))"

text \<open>How a stream ends: all done, an exception that reaches the client, or the terminal report.\<close>

datatype stream_end = Finished | Raised | Terminal

text \<open>
  The rows a cursor can still reach. Behind a creation time every row without one counts, because
  the next cursor may have a smaller identifier.
\<close>

definition reach :: "prune_cursor \<Rightarrow> console \<Rightarrow> nat" where
  "reach k c =
     length (filter (\<lambda>v. prunable v \<and>
       (case k of (None, Some j) \<Rightarrow> null_after (Some j) v
        | (Some t, _) \<Rightarrow> created_after t v \<or> ge_created v = None
        | (None, None) \<Rightarrow> True)) (g_events (cn_graph c)))"


lemma close_one_events:
  "g_events (cn_graph (snd (close_one e i c))) = update_where (\<lambda>v. ge_id v = i \<and> prunable v) closed_event (g_events (cn_graph c))"
  by (auto simp: close_one_def set_note_def list_ex_iff intro!: update_where_none [symmetric])

text \<open>What closing does to the events of a state: a choice of prunable events gets closed.\<close>

definition closes :: "console \<Rightarrow> console \<Rightarrow> bool" where
  "closes c d = (\<exists>P. g_events (cn_graph d) = update_where (\<lambda>v. P v \<and> prunable v) closed_event (g_events (cn_graph c)))"

lemma closed_not_prunable [simp]: "\<not> prunable (closed_event v)"
  by (simp add: prunable_def closed_event_def)

lemma closed_same [simp]:
  "ge_id (closed_event v) = ge_id v" "ge_created (closed_event v) = ge_created v" "ge_ack (closed_event v) = ge_ack v" "ge_status (closed_event v) = ''CLOSED''"
  by (simp_all add: closed_event_def)

lemma closes_refl: "closes c c"
  unfolding closes_def by (rule exI [of _ "\<lambda>_. False"]) (simp add: update_where_def)

lemma closes_trans: "closes c d \<Longrightarrow> closes d f \<Longrightarrow> closes c f"
proof -
  assume "closes c d" "closes d f"
  then obtain P Q where "g_events (cn_graph d) = update_where (\<lambda>v. P v \<and> prunable v) closed_event (g_events (cn_graph c))"
    "g_events (cn_graph f) = update_where (\<lambda>v. Q v \<and> prunable v) closed_event (g_events (cn_graph d))"
    by (auto simp: closes_def)
  then have "g_events (cn_graph f) = update_where (\<lambda>v. (P v \<or> Q v) \<and> prunable v) closed_event (g_events (cn_graph c))"
    by (auto simp: update_where_def)
  then show "closes c f" unfolding closes_def by (rule exI [of _ "\<lambda>v. P v \<or> Q v"])
qed

lemma closes_one: "closes c (snd (close_one e i c))"
  unfolding closes_def close_one_events by (rule exI [of _ "\<lambda>v. ge_id v = i"]) simp

lemma try_close_closes: "closes c (snd (snd (try_close e b i (cache, n, c))))"
proof (cases "cache_has (pe_clock e b) cache i \<or> pe_close_fails e b i")
  case True
  then show ?thesis by (auto simp: try_close_def closes_refl Let_def)
next
  case False
  then have "snd (snd (try_close e b i (cache, n, c))) = snd (close_one e i c)"
    by (simp add: try_close_def Let_def split: prod.split)
  then show ?thesis by (simp add: closes_one)
qed

lemma close_page_closes: "closes c (snd (snd (close_page e b rows cache c)))"
proof -
  have "closes (snd (snd s)) (snd (snd (fold (try_close e b) is s)))" for "is" s
  proof (induction "is" arbitrary: s)
    case (Cons i js)
    then show ?case
      using try_close_closes [of "snd (snd s)" e b i "fst s" "fst (snd s)"] closes_trans by (cases s) fastforce
  qed (simp add: closes_refl)
  from this [of "(cache, 0, c)"] show ?thesis by (simp add: close_page_def)
qed

lemma closes_filter:
  assumes "closes c d"
  shows "length (filter (\<lambda>v. prunable v \<and> R (ge_created v) (ge_id v)) (g_events (cn_graph d)))
    \<le> length (filter (\<lambda>v. prunable v \<and> R (ge_created v) (ge_id v)) (g_events (cn_graph c)))"
proof -
  from assms obtain P where P: "g_events (cn_graph d) = update_where (\<lambda>v. P v \<and> prunable v) closed_event (g_events (cn_graph c))"
    by (auto simp: closes_def)
  have "length (filter (\<lambda>v. prunable v \<and> R (ge_created v) (ge_id v)) (update_where (\<lambda>v. P v \<and> prunable v) closed_event xs))
    \<le> length (filter (\<lambda>v. prunable v \<and> R (ge_created v) (ge_id v)) xs)" for xs
    by (induction xs) (auto simp: update_where_def)
  then show ?thesis by (simp only: P)
qed

definition reachable_row :: "prune_cursor \<Rightarrow> instant option \<Rightarrow> string \<Rightarrow> bool" where
  "reachable_row k u i =
     (case k of (None, Some j) \<Rightarrow> u = None \<and> j < i
      | (Some t, _) \<Rightarrow> u = None \<or> t < the u
      | (None, None) \<Rightarrow> True)"

lemma reach_rows: "reach k c = length (filter (\<lambda>v. prunable v \<and> reachable_row k (ge_created v) (ge_id v)) (g_events (cn_graph c)))"
  unfolding reach_def
  by (rule arg_cong [where f = length], rule filter_cong)
     (auto simp: reachable_row_def split: option.split prod.split)

lemma reach_closes: "closes c d \<Longrightarrow> reach k d \<le> reach k c"
  unfolding reach_rows by (rule closes_filter [where R = "reachable_row k"])

lemma reachable_step:
  assumes "after_cursor k l" "reachable_row (ge_created l, Some (ge_id l)) u i"
  shows "reachable_row k u i"
  using assms
  by (auto simp: reachable_row_def after_cursor_def split: option.splits prod.splits)

lemma not_after_itself: "\<not> reachable_row (ge_created l, Some (ge_id l)) (ge_created l) (ge_id l)"
  by (auto simp: reachable_row_def split: option.split)

lemma reachable_self: "after_cursor k l \<Longrightarrow> reachable_row k (ge_created l) (ge_id l)"
  by (auto simp: reachable_row_def after_cursor_def split: option.splits prod.splits)

lemma filter_not_longer:
  "(\<And>x. x \<in> set xs \<Longrightarrow> Q x \<Longrightarrow> P x) \<Longrightarrow> length (filter Q xs) \<le> length (filter P xs)"
  by (induction xs) (simp_all add: le_SucI)

lemma filter_shorter:
  assumes "\<And>x. x \<in> set xs \<Longrightarrow> Q x \<Longrightarrow> P x" "y \<in> set xs" "P y" "\<not> Q y"
  shows "length (filter Q xs) < length (filter P xs)"
proof -
  obtain as bs where xs: "xs = as @ y # bs" using assms(2) by (auto dest: split_list)
  have "length (filter Q as) \<le> length (filter P as)" "length (filter Q bs) \<le> length (filter P bs)"
    using assms(1) by (auto simp: xs intro!: filter_not_longer)
  with assms(3,4) show ?thesis by (simp add: xs)
qed

lemma page_row: "l \<in> set (fetch_page n k c) \<Longrightarrow> l \<in> set (g_events (cn_graph c)) \<and> prunable l \<and> after_cursor k l"
  by (auto simp: fetch_page_def dest: in_set_takeD)

lemma reach_next:
  assumes "set rows \<subseteq> set (fetch_page n k c)" "rows \<noteq> []" "closes c d"
  shows "reach (next_cursor rows k) d < reach k c"
proof -
  let ?l = "last rows"
  have l: "?l \<in> set (g_events (cn_graph c))" "prunable ?l" "after_cursor k ?l"
    using page_row [of ?l n k c] last_in_set [OF assms(2)] assms(1) by auto
  have "reach (next_cursor rows k) d \<le> reach (ge_created ?l, Some (ge_id ?l)) c"
    using assms(2) reach_closes [OF assms(3)] by (simp add: next_cursor_def)
  also have "\<dots> < reach k c"
    unfolding reach_rows
    by (rule filter_shorter [where y = ?l])
       (use l reachable_step [OF l(3)] reachable_self [OF l(3)] not_after_itself [of ?l] in auto)
  finally show ?thesis .
qed

text \<open>
  The loop, for pages of \<open>m + 1\<close> rows (a page size of zero, which only the environment variable can
  set, reads an empty page for ever). \<open>failures\<close> counts the failed reads in a row; the fourth one reaches the client. The set of
  identifiers of a page is closed in page order: closing different events commutes.
\<close>

function prune_loop ::
  "prune_env \<Rightarrow> nat \<Rightarrow> nat \<Rightarrow> nat \<Rightarrow> nat \<Rightarrow> nat \<Rightarrow> prune_cursor \<Rightarrow> prune_cache \<Rightarrow> console \<Rightarrow>
     progress list \<times> stream_end \<times> console" where
  "prune_loop e m whole batch processed failures k cache c =
     (if processed \<ge> whole then ([], Finished, c)
      else case pe_fetch e (Suc batch) of
        Syntax_error \<Rightarrow> ([report whole processed (Suc batch) True True], Terminal, c)
      | Failed \<Rightarrow>
          if failures \<ge> max_failures then ([], Raised, c)
          else let (ps, r) = prune_loop e m whole (Suc batch) processed (Suc failures) k cache c
               in (report whole processed (Suc batch) True False # ps, r)
      | Fetched \<Rightarrow>
          let rows = fresh_rows e (Suc batch) cache (fetch_page (Suc m) k c);
              s = close_page e (Suc batch) rows cache c;
              n = processed + fst (snd s);
              p = report whole n (Suc batch) False False
          in if length (remdups (map ge_id rows)) \<le> m then ([p], Finished, snd (snd s))
             else let (ps, r) = prune_loop e m whole (Suc batch) n 0 (next_cursor rows k) (fst s) (snd (snd s))
                  in (p # ps, r))"
  by pat_completeness auto

lemma fresh_subset: "set (fresh_rows e b cache rows) \<subseteq> set rows"
  by (auto simp: fresh_rows_def)

lemma prune_step_smaller:
  "\<not> length (remdups (map ge_id (fresh_rows e b cache (fetch_page n k c)))) \<le> m \<Longrightarrow>
     reach (next_cursor (fresh_rows e b cache (fetch_page n k c)) k)
       (snd (snd (close_page e b (fresh_rows e b cache (fetch_page n k c)) cache c))) < reach k c"
  by (rule reach_next [OF fresh_subset _ close_page_closes]) auto

termination prune_loop
  by (relation "measures [\<lambda>(e, m, whole, batch, processed, failures, k, cache, c). reach k c,
        \<lambda>(e, m, whole, batch, processed, failures, k, cache, c). Suc max_failures - failures]")
     (simp_all add: prune_step_smaller max_failures_def)

declare prune_loop.simps [simp del]


definition event_batch_pruner ::
  "prune_env \<Rightarrow> nat \<Rightarrow> prune_cursor \<Rightarrow> prune_cache \<Rightarrow> console \<Rightarrow> progress list \<times> stream_end \<times> console" where
  "event_batch_pruner e m k cache c =
     (if pe_fetch e 0 \<noteq> Fetched then ([], Raised, c)
      else let n = length (filter prunable (g_events (cn_graph c)))
           in if n = 0 then ([report 0 0 0 False False], Finished, c)
              else let (ps, r) = prune_loop e m n 0 0 0 k cache c in (report n 0 0 False False # ps, r))"

subsection \<open>The lock\<close>

text \<open>The row of \<open>prune_lock\<close>: its owner and when it expires. All reads of one call see one clock.\<close>

type_synonym prune_lock = "(string \<times> instant) option"

fun acquire_prune_lock :: "nat \<Rightarrow> instant \<Rightarrow> int \<Rightarrow> string \<Rightarrow> prune_lock \<Rightarrow> bool \<times> prune_lock" where
  "acquire_prune_lock 0 now ttl who l = (False, l)"
| "acquire_prune_lock (Suc attempts) now ttl who l =
     (case l of None \<Rightarrow> (True, Some (who, now + ttl))
      | Some (other, expires) \<Rightarrow>
          if other = who then (True, Some (who, now + ttl))
          else if expires < now then acquire_prune_lock attempts now ttl who None
          else (False, l))"

definition release_prune_lock :: "string \<Rightarrow> prune_lock \<Rightarrow> bool \<times> prune_lock" where
  "release_prune_lock who l =
     (case l of None \<Rightarrow> (False, l) | Some (other, expires) \<Rightarrow> if other = who then (True, None) else (False, l))"

definition lock_attempts :: nat where
  "lock_attempts = 3"

definition lock_ttl :: int where
  "lock_ttl = seconds 300"

subsection \<open>The schedule and the stream\<close>

record prune_metrics =
  pm_stale :: int
  pm_pruned :: int
  pm_last_run :: "instant option"
  pm_last_count :: int

definition record_recovered_stale :: "int \<Rightarrow> prune_metrics \<Rightarrow> prune_metrics" where
  "record_recovered_stale n m = (if n \<le> 0 then m else m\<lparr>pm_stale := pm_stale m + n\<rparr>)"

definition record_pruned :: "instant \<Rightarrow> int \<Rightarrow> prune_metrics \<Rightarrow> prune_metrics" where
  "record_pruned now n m =
     m\<lparr>pm_pruned := (if n \<ge> 1 then pm_pruned m + 1 else pm_pruned m), pm_last_count := max 0 n, pm_last_run := Some now\<rparr>"

record pruner =
  pn_console :: console
  pn_lock :: prune_lock
  pn_metrics :: prune_metrics

text \<open>The scheduled pruning; with \<open>fails\<close> the graph does not answer and the lock is released all the same.\<close>

definition run_prune_recovered_events_sync :: "console_env \<Rightarrow> bool \<Rightarrow> pruner \<Rightarrow> nat result \<times> pruner" where
  "run_prune_recovered_events_sync e fails s =
     (let (got, l) = acquire_prune_lock lock_attempts (xe_now e) lock_ttl ''scheduler'' (pn_lock s)
      in if \<not> got then (Inr 0, s\<lparr>pn_lock := l\<rparr>)
         else if fails then (Inl (DatabaseError ''graph''), s\<lparr>pn_lock := snd (release_prune_lock ''scheduler'' l)\<rparr>)
         else let (n, c) = prune_recovered_events e ''system-prune'' (pn_console s)
              in (Inr n, s\<lparr>pn_console := c, pn_lock := snd (release_prune_lock ''scheduler'' l),
                           pn_metrics := record_pruned (xe_now e) (int n) (pn_metrics s)\<rparr>))"

text \<open>
  The stream endpoint up to its first byte: permission, lock, then the page size. A refused page size
  leaves the lock. The end of a stream releases the lock of the user's name.
\<close>

definition stream_page_size :: "string option \<Rightarrow> nat option result" where
  "stream_page_size v =
     (case v of None \<Rightarrow> Inr None
      | Some s \<Rightarrow>
          if s = '''' then Inr None
          else case parse_int s of None \<Rightarrow> Inl (HttpError 400 ''batch_size must be a valid integer'')
          | Some n \<Rightarrow> if n \<le> 0 then Inl (HttpError 400 ''batch_size must be a positive integer'')
                      else if n > 10000 then Inl (HttpError 400 ''batch_size must not exceed 10000'')
                      else Inr (Some (nat n)))"

definition stream_open :: "instant \<Rightarrow> account \<Rightarrow> string option \<Rightarrow> pruner \<Rightarrow> nat option result \<times> pruner" where
  "stream_open now u v s =
     (if \<not> check_permission ''EVENT_CLOSE'' u then (Inl (HttpError 403 ''Not authorized to prune events''), s)
      else let (got, l) = acquire_prune_lock lock_attempts now lock_ttl (ac_name u) (pn_lock s)
           in if \<not> got then (Inl (HttpError 409 ''Another prune operation is in progress''), s\<lparr>pn_lock := l\<rparr>)
              else (stream_page_size v, s\<lparr>pn_lock := l\<rparr>))"

definition stream_close :: "account \<Rightarrow> pruner \<Rightarrow> pruner" where
  "stream_close u s = s\<lparr>pn_lock := snd (release_prune_lock (ac_name u) (pn_lock s))\<rparr>"

definition default_page_size :: nat where
  "default_page_size = 500"

text \<open>A whole stream without interruption, from the first request byte to the last report.\<close>

definition stream_prune :: "prune_env \<Rightarrow> account \<Rightarrow> string option \<Rightarrow> pruner \<Rightarrow> (progress list \<times> stream_end) result \<times> pruner" where
  "stream_prune e u v s =
     (case stream_open (xe_now (pe_console e)) u v s of
        (Inl x, s1) \<Rightarrow> (Inl x, s1)
      | (Inr n, s1) \<Rightarrow>
          let (ps, ending, c) = event_batch_pruner e ((case n of None \<Rightarrow> default_page_size | Some k \<Rightarrow> k) - 1) (None, None) [] (pn_console s1)
          in (Inr (ps, ending), stream_close u (s1\<lparr>pn_console := c\<rparr>)))"

end
