(* ===== verification/Event_Pruning.thy ===== *)
theory Event_Pruning
  imports Event_Prune
begin

section \<open>What pruning achieves\<close>

text \<open>
  The stream always ends, within a bound on its reports; without failures and with distinct creation
  times it closes what the one-shot pruning closes; rows that share the creation time of a page end
  survive; the lock keeps users apart, but not two streams of one user.
\<close>

subsection \<open>The stream ends\<close>

lemma loop_bounded:
  "failures \<le> 3 \<Longrightarrow> length (fst (prune_loop e m whole batch processed failures k cache c)) \<le> 4 * reach k c + 4 - failures"
proof (induction e m whole batch processed failures k cache c rule: prune_loop.induct)
  case (1 e m whole batch processed failures k cache c)
  let ?rows = "fresh_rows e (Suc batch) cache (fetch_page (Suc m) k c)"
  let ?s = "close_page e (Suc batch) ?rows cache c"
  show ?case
  proof (cases "pe_fetch e (Suc batch)")
    case Fetched
    show ?thesis
    proof (cases "processed \<ge> whole \<or> length (remdups (map ge_id ?rows)) \<le> m")
      case True
      with Fetched "1.prems" show ?thesis
        by (auto simp: prune_loop.simps [of e m whole batch processed failures k cache c] Let_def)
    next
      case False
      let ?r = "prune_loop e m whole (Suc batch) (processed + fst (snd ?s)) 0 (next_cursor ?rows k) (fst ?s) (snd (snd ?s))"
      have "length (fst ?r) \<le> 4 * reach (next_cursor ?rows k) (snd (snd ?s)) + 4"
        using "1.IH"(1) [OF _ Fetched refl refl refl refl] False by simp
      moreover have "reach (next_cursor ?rows k) (snd (snd ?s)) < reach k c"
        by (rule prune_step_smaller [of e "Suc batch" cache "Suc m" k c m]) (use False in simp)
      moreover have "length (fst (prune_loop e m whole batch processed failures k cache c)) = Suc (length (fst ?r))"
        using False Fetched by (simp add: prune_loop.simps [of e m whole batch processed failures k cache c] Let_def case_prod_unfold)
      ultimately show ?thesis using "1.prems" by linarith
    qed
  next
    case Failed
    show ?thesis
    proof (cases "processed \<ge> whole \<or> failures \<ge> max_failures")
      case True
      with Failed show ?thesis
        by (auto simp: prune_loop.simps [of e m whole batch processed failures k cache c])
    next
      case False
      then have "length (fst (prune_loop e m whole (Suc batch) processed (Suc failures) k cache c)) \<le> 4 * reach k c + 4 - Suc failures"
        using "1.IH"(2) [OF _ Failed] by (simp add: max_failures_def)
      with False Failed "1.prems" show ?thesis
        by (simp add: prune_loop.simps [of e m whole batch processed failures k cache c] Let_def case_prod_unfold max_failures_def)
    qed
  next
    case Syntax_error
    then have "length (fst (prune_loop e m whole batch processed failures k cache c)) \<le> 1"
      by (simp add: prune_loop.simps [of e m whole batch processed failures k cache c])
    with "1.prems" show ?thesis by linarith
  qed
qed

text \<open>
  C26: Whatever fails, whatever is in the cache and wherever the cursor starts, the stream ends: with
  a page size of at least one it sends at most five reports more than four per recovered event.
\<close>

theorem stream_bounded:
  "length (fst (event_batch_pruner e m k cache c)) \<le> 4 * length (filter prunable (g_events (cn_graph c))) + 5"
proof -
  have "reach k c \<le> length (filter prunable (g_events (cn_graph c)))"
    unfolding reach_rows by (rule filter_not_longer) simp
  then have "length (fst (prune_loop e m n 0 0 0 k cache c)) \<le> 4 * length (filter prunable (g_events (cn_graph c))) + 4" for n
    using loop_bounded [of 0 e m n 0 0 k cache c] by simp
  note bound = this [of "length (filter prunable (g_events (cn_graph c)))"]
  have "length (fst (event_batch_pruner e m k cache c)) \<le>
      Suc (length (fst (prune_loop e m (length (filter prunable (g_events (cn_graph c)))) 0 0 0 k cache c)))"
    by (simp add: event_batch_pruner_def Let_def split: prod.split)
  with bound show ?thesis by linarith
qed

subsection \<open>Rows left behind\<close>

lemma closes_ids: "closes c d \<Longrightarrow> map ge_id (g_events (cn_graph d)) = map ge_id (g_events (cn_graph c))"
  by (auto simp: closes_def update_where_def)

lemma try_close_others:
  "v \<in> set (g_events (cn_graph c)) \<Longrightarrow> ge_id v \<noteq> i \<Longrightarrow>
     v \<in> set (g_events (cn_graph (snd (snd (try_close e b i (cache, n, c))))))"
proof (cases "cache_has (pe_clock e b) cache i \<or> pe_close_fails e b i")
  case False
  assume v: "v \<in> set (g_events (cn_graph c))" "ge_id v \<noteq> i"
  from False have "snd (snd (try_close e b i (cache, n, c))) = snd (close_one e i c)"
    by (simp add: try_close_def Let_def split: prod.split)
  with v show ?thesis by (simp add: close_one_events set_update_where)
qed (auto simp: try_close_def Let_def)

lemma close_page_others:
  assumes "v \<in> set (g_events (cn_graph c))" "ge_id v \<notin> ge_id ` set rows"
  shows "v \<in> set (g_events (cn_graph (snd (snd (close_page e b rows cache c)))))"
proof -
  have "v \<in> set (g_events (cn_graph (snd (snd s)))) \<Longrightarrow> ge_id v \<notin> set is \<Longrightarrow>
      v \<in> set (g_events (cn_graph (snd (snd (fold (try_close e b) is s)))))" for "is" s
  proof (induction "is" arbitrary: s)
    case (Cons i js)
    then show ?case
      using try_close_others [of v "snd (snd s)" i e b "fst s" "fst (snd s)"] by (cases s) auto
  qed simp
  from this [of "(cache, 0, c)" "remdups (map ge_id rows)"] assms show ?thesis by (simp add: close_page_def)
qed

text \<open>An event with a creation time that the cursor has passed.\<close>

definition passed :: "prune_cursor \<Rightarrow> graph_event \<Rightarrow> bool" where
  "passed k v =
     (case ge_created v of None \<Rightarrow> False
      | Some u \<Rightarrow> (case k of (Some t, _) \<Rightarrow> u \<le> t | (None, Some _) \<Rightarrow> True | (None, None) \<Rightarrow> False))"

lemma passed_not_after: "passed k v \<Longrightarrow> \<not> after_cursor k v"
  by (auto simp: passed_def after_cursor_def split: option.splits prod.splits)

lemma passed_next: "passed k v \<Longrightarrow> after_cursor k l \<Longrightarrow> passed (ge_created l, Some (ge_id l)) v"
  by (auto simp: passed_def after_cursor_def split: option.splits prod.splits)

lemma passed_survives:
  assumes "passed k v" "v \<in> set (g_events (cn_graph c))" "distinct (map ge_id (g_events (cn_graph c)))"
  shows "v \<in> set (g_events (cn_graph (snd (snd (prune_loop e m whole batch processed failures k cache c)))))"
  using assms
proof (induction e m whole batch processed failures k cache c rule: prune_loop.induct)
  case (1 e m whole batch processed failures k cache c)
  let ?page = "fetch_page (Suc m) k c"
  let ?rows = "fresh_rows e (Suc batch) cache ?page"
  let ?s = "close_page e (Suc batch) ?rows cache c"
  note step = prune_loop.simps [of e m whole batch processed failures k cache c]
  show ?case
  proof (cases "pe_fetch e (Suc batch)")
    case Fetched
    have away: "ge_id v \<notin> ge_id ` set ?rows"
    proof
      assume "ge_id v \<in> ge_id ` set ?rows"
      then obtain l where l: "l \<in> set ?page" "ge_id l = ge_id v" using fresh_subset by fastforce
      then have row: "l \<in> set (g_events (cn_graph c))" "after_cursor k l" using page_row by blast+
      then have "l = v" using l(2) "1.prems"(2,3) by (blast intro: distinct_key_eq [of ge_id])
      with row(2) passed_not_after [OF "1.prems"(1)] show False by simp
    qed
    have kept: "v \<in> set (g_events (cn_graph (snd (snd ?s))))"
      by (rule close_page_others [OF "1.prems"(2) away])
    show ?thesis
    proof (cases "processed \<ge> whole \<or> length (remdups (map ge_id ?rows)) \<le> m")
      case True
      with Fetched kept "1.prems"(2) show ?thesis by (auto simp: step Let_def)
    next
      case False
      then have "?rows \<noteq> []" by auto
      then have "last ?rows \<in> set ?page" using fresh_subset last_in_set by blast
      then have "passed (next_cursor ?rows k) v"
        using page_row [of "last ?rows"] passed_next "1.prems"(1) \<open>?rows \<noteq> []\<close> by (simp add: next_cursor_def)
      moreover have "distinct (map ge_id (g_events (cn_graph (snd (snd ?s)))))"
        using closes_ids [OF close_page_closes] "1.prems"(3) by metis
      ultimately show ?thesis
        using "1.IH"(1) [OF _ Fetched refl refl refl refl] kept False Fetched
        by (simp add: step Let_def case_prod_unfold)
    qed
  next
    case Failed
    then show ?thesis
      using "1.IH"(2) [OF _ Failed] "1.prems" by (simp add: step Let_def case_prod_unfold)
  next
    case Syntax_error
    with "1.prems"(2) show ?thesis by (simp add: step)
  qed
qed


lemma batch_pruner_state:
  "pe_fetch e 0 = Fetched \<Longrightarrow> filter prunable (g_events (cn_graph c)) \<noteq> [] \<Longrightarrow>
     snd (snd (event_batch_pruner e m k cache c)) =
     snd (snd (prune_loop e m (length (filter prunable (g_events (cn_graph c)))) 0 0 0 k cache c))"
  by (simp add: event_batch_pruner_def Let_def case_prod_unfold)


subsection \<open>Without failures and ties\<close>

definition smooth :: "prune_env \<Rightarrow> bool" where
  "smooth e = ((\<forall>b. pe_fetch e b = Fetched) \<and> (\<forall>b i. \<not> pe_close_fails e b i))"

lemma fold_close:
  assumes "smooth e" "distinct is" "\<forall>i \<in> set is. map_of cache i = None \<and> (\<exists>v \<in> set (g_events (cn_graph c)). ge_id v = i \<and> prunable v)"
  shows "case fold (try_close e b) is (cache, n, c) of (cache', n', c') \<Rightarrow> n' = n + length is \<and>
    g_events (cn_graph c') = update_where (\<lambda>v. ge_id v \<in> set is \<and> prunable v) closed_event (g_events (cn_graph c)) \<and>
    (\<forall>j. map_of cache' j = None \<longleftrightarrow> map_of cache j = None \<and> j \<notin> set is)"
  using assms
proof (induction "is" arbitrary: cache n c)
  case (Cons i js)
  define d where "d = snd (close_one e i c)"
  have step: "try_close e b i (cache, n, c) = (AList.update i (pe_clock e b + cache_ttl) cache, Suc n, d)"
    using Cons.prems by (auto simp: try_close_def cache_has_def smooth_def d_def close_one_def list_ex_iff)
  have d: "g_events (cn_graph d) = update_where (\<lambda>v. ge_id v = i \<and> prunable v) closed_event (g_events (cn_graph c))"
    by (simp add: d_def close_one_events)
  have "\<forall>j \<in> set js. map_of (AList.update i (pe_clock e b + cache_ttl) cache) j = None \<and>
      (\<exists>v \<in> set (g_events (cn_graph d)). ge_id v = j \<and> prunable v)"
  proof
    fix j assume j: "j \<in> set js"
    with Cons.prems(2) have "j \<noteq> i" by auto
    moreover from j Cons.prems(3) obtain v where v: "v \<in> set (g_events (cn_graph c))" "ge_id v = j" "prunable v"
      "map_of cache j = None" by auto
    ultimately have "v \<in> set (g_events (cn_graph d))" by (auto simp: d set_update_where)
    with v \<open>j \<noteq> i\<close> show "map_of (AList.update i (pe_clock e b + cache_ttl) cache) j = None \<and>
      (\<exists>v \<in> set (g_events (cn_graph d)). ge_id v = j \<and> prunable v)" by (auto simp: map_of_update)
  qed
  from Cons.IH [OF Cons.prems(1) _ this, of "Suc n"] Cons.prems(2) show ?case
    by (auto simp: step d update_where_def map_of_update split: prod.splits)
qed (simp add: update_where_def)

lemma page_parts:
  fixes k c m
  defines "all_rows \<equiv> sort_key page_key (filter (\<lambda>v. prunable v \<and> after_cursor k v) (g_events (cn_graph c)))"
  shows "fetch_page (Suc m) k c = take (Suc m) all_rows"
    "set all_rows = {v \<in> set (g_events (cn_graph c)). prunable v \<and> after_cursor k v}"
    "x \<in> set (take (Suc m) all_rows) \<Longrightarrow> y \<in> set (drop (Suc m) all_rows) \<Longrightarrow> page_key x \<le> page_key y"
proof -
  show "fetch_page (Suc m) k c = take (Suc m) all_rows" by (simp add: fetch_page_def all_rows_def)
  show "set all_rows = {v \<in> set (g_events (cn_graph c)). prunable v \<and> after_cursor k v}" by (auto simp: all_rows_def)
  have "sorted (map page_key (take (Suc m) all_rows @ drop (Suc m) all_rows))" by (simp add: all_rows_def)
  then show "x \<in> set (take (Suc m) all_rows) \<Longrightarrow> y \<in> set (drop (Suc m) all_rows) \<Longrightarrow> page_key x \<le> page_key y"
    unfolding map_append sorted_append by auto
qed


definition untied :: "console \<Rightarrow> bool" where
  "untied c =
     (distinct (map ge_id (g_events (cn_graph c))) \<and>
      (\<forall>v \<in> set (g_events (cn_graph c)). prunable v \<longrightarrow> ge_id v \<noteq> '''' \<and> ge_created v \<noteq> None) \<and>
      (\<forall>v \<in> set (g_events (cn_graph c)). \<forall>w \<in> set (g_events (cn_graph c)).
         prunable v \<and> prunable w \<and> ge_created v = ge_created w \<longrightarrow> v = w))"

text \<open>What a page leaves to do.\<close>

lemma close_some:
  fixes xs :: "graph_event list" and S
  defines "ys \<equiv> update_where (\<lambda>v. ge_id v \<in> S \<and> prunable v) closed_event xs"
  shows "v \<in> set ys \<Longrightarrow> prunable v \<Longrightarrow> v \<in> set xs \<and> ge_id v \<notin> S"
    and "update_where prunable closed_event ys = update_where prunable closed_event xs"
    and "length (filter prunable ys) + length (filter (\<lambda>v. ge_id v \<in> S \<and> prunable v) xs) = length (filter prunable xs)"
proof -
  show "v \<in> set ys \<Longrightarrow> prunable v \<Longrightarrow> v \<in> set xs \<and> ge_id v \<notin> S" by (auto simp: ys_def set_update_where)
  show "update_where prunable closed_event ys = update_where prunable closed_event xs"
    by (simp add: ys_def update_where_def)
  show "length (filter prunable ys) + length (filter (\<lambda>v. ge_id v \<in> S \<and> prunable v) xs) = length (filter prunable xs)"
    unfolding ys_def by (induction xs) (auto simp: update_where_def)
qed

lemma page_distinct:
  assumes "distinct (map ge_id (g_events (cn_graph c)))"
  shows "distinct (map ge_id (fetch_page n k c))"
proof -
  have "distinct (map ge_id (sort_key page_key (filter P xs)))" if "distinct (map ge_id xs)" for P xs
    using that by (auto simp: distinct_map intro: inj_on_subset)
  with assms show ?thesis by (simp add: fetch_page_def flip: take_map)
qed

lemma page_count:
  assumes "distinct (map ge_id (g_events (cn_graph c)))"
  shows "length (filter (\<lambda>v. ge_id v \<in> ge_id ` set (fetch_page n k c) \<and> prunable v) (g_events (cn_graph c))) = length (fetch_page n k c)"
proof -
  let ?p = "fetch_page n k c" and ?f = "filter (\<lambda>v. ge_id v \<in> ge_id ` set (fetch_page n k c) \<and> prunable v) (g_events (cn_graph c))"
  have "set ?f = set ?p"
  proof
    show "set ?p \<subseteq> set ?f" using page_row by fastforce
    show "set ?f \<subseteq> set ?p"
    proof
      fix v assume "v \<in> set ?f"
      then obtain l where l: "l \<in> set ?p" "ge_id l = ge_id v" "v \<in> set (g_events (cn_graph c))" by fastforce
      have "l = v" by (rule distinct_key_eq [OF assms]) (use l page_row [OF l(1)] in simp_all)
      with l(1) show "v \<in> set ?p" by simp
    qed
  qed
  moreover have "distinct ?f" using assms by (simp add: distinct_map)
  moreover have "distinct ?p" using page_distinct [OF assms] by (simp add: distinct_map)
  ultimately show ?thesis using distinct_card [of ?f] distinct_card [of ?p] by simp
qed

lemma loop_smooth:
  assumes "smooth e" "untied c" "whole = processed + length (filter prunable (g_events (cn_graph c)))"
    "\<forall>v \<in> set (g_events (cn_graph c)). prunable v \<longrightarrow> after_cursor k v \<and> map_of cache (ge_id v) = None"
  shows "case prune_loop e m whole batch processed failures k cache c of (ps, ending, d) \<Rightarrow>
    ending = Finished \<and> g_events (cn_graph d) = update_where prunable closed_event (g_events (cn_graph c)) \<and>
    (if ps = [] then whole \<le> processed else pg_remaining (last ps) = 0)"
  using assms
proof (induction e m whole batch processed failures k cache c rule: prune_loop.induct)
  case (1 e m whole batch processed failures k cache c)
  let ?page = "fetch_page (Suc m) k c" and ?evs = "g_events (cn_graph c)"
  note step = prune_loop.simps [of e m whole batch processed failures k cache c]
  have ids: "distinct (map ge_id ?evs)" using "1.prems"(2) by (simp add: untied_def)
  have ok: "pe_fetch e (Suc batch) = Fetched" using "1.prems"(1) by (simp add: smooth_def)
  show ?case
  proof (cases "processed \<ge> whole")
    case True
    then have "filter prunable ?evs = []" using "1.prems"(3) by simp
    then have "update_where prunable closed_event ?evs = ?evs"
      by (intro update_where_none) (auto simp: filter_empty_conv)
    with True show ?thesis by (simp add: step)
  next
    case False
    have rows: "fresh_rows e (Suc batch) cache ?page = ?page"
      unfolding fresh_rows_def
    proof (rule filter_True, rule ballI)
      fix l assume "l \<in> set ?page"
      then have "l \<in> set ?evs" "prunable l" using page_row by blast+
      with "1.prems"(2,4) show "ge_id l \<noteq> '''' \<and> \<not> cache_has (pe_clock e (Suc batch)) cache (ge_id l)"
        by (simp add: untied_def cache_has_def)
    qed
    obtain cache' n' c' where s: "close_page e (Suc batch) ?page cache c = (cache', n', c')" by (metis prod_cases3)
    have "case fold (try_close e (Suc batch)) (map ge_id ?page) (cache, 0, c) of (cache', n', c') \<Rightarrow> n' = 0 + length (map ge_id ?page) \<and>
      g_events (cn_graph c') = update_where (\<lambda>v. ge_id v \<in> set (map ge_id ?page) \<and> prunable v) closed_event ?evs \<and>
      (\<forall>j. map_of cache' j = None \<longleftrightarrow> map_of cache j = None \<and> j \<notin> set (map ge_id ?page))"
    proof (rule fold_close [OF "1.prems"(1) page_distinct [OF ids]], intro ballI)
      fix i assume "i \<in> set (map ge_id ?page)"
      then obtain l where l: "l \<in> set ?page" "i = ge_id l" by auto
      then have "l \<in> set ?evs" "prunable l" using page_row by blast+
      with l(2) "1.prems"(4)
      show "map_of cache i = None \<and> (\<exists>v \<in> set ?evs. ge_id v = i \<and> prunable v)" by auto
    qed
    then have page: "n' = length ?page"
      "g_events (cn_graph c') = update_where (\<lambda>v. ge_id v \<in> ge_id ` set ?page \<and> prunable v) closed_event ?evs"
      "map_of cache' j = None \<longleftrightarrow> map_of cache j = None \<and> j \<notin> ge_id ` set ?page" for j
      using s page_distinct [OF ids] by (simp_all add: close_page_def distinct_remdups_id)
    have count: "length (filter prunable (g_events (cn_graph c'))) + n' = length (filter prunable ?evs)"
      using close_some(3) [where S = "ge_id ` set ?page" and xs = ?evs] page_count [OF ids] by (simp only: page(1,2))
    note parts = page_parts(1) [where m = m and k = k and c = c] page_parts(2) [where k = k and c = c]
      page_parts(3) [where m = m and k = k and c = c]
    show ?thesis
    proof (cases "length ?page \<le> m")
      case True
      let ?all = "sort_key page_key (filter (\<lambda>v. prunable v \<and> after_cursor k v) ?evs)"
      have "?page = ?all" using True by (simp add: parts(1))
      then have "set ?page = {v \<in> set ?evs. prunable v \<and> after_cursor k v}" using parts(2) by simp
      then have "v \<in> set ?evs \<Longrightarrow> prunable v \<Longrightarrow> v \<in> set ?page" for v using "1.prems"(4) by blast
      then have all_closed: "g_events (cn_graph c') = update_where prunable closed_event ?evs"
        unfolding page(2) update_where_def by (intro map_cong) auto
      then have "filter prunable (g_events (cn_graph c')) = []"
        by (auto simp: filter_empty_conv set_update_where)
      with count have all_done: "whole = processed + n'" using "1.prems"(3) by simp
      have "prune_loop e m whole batch processed failures k cache c =
          ([report whole (processed + n') (Suc batch) False False], Finished, c')"
        using True False ok rows s page_distinct [OF ids] by (simp add: step distinct_remdups_id Let_def)
      with all_done all_closed show ?thesis by (simp add: report_def)
    next
      case more: False
      have inv: "untied c'" "\<forall>v \<in> set (g_events (cn_graph c')). prunable v \<longrightarrow>
          after_cursor (next_cursor ?page k) v \<and> map_of cache' (ge_id v) = None"
      proof -
        have "closes c c'" using close_page_closes [of c e "Suc batch" ?page cache] by (simp add: s)
        then have "distinct (map ge_id (g_events (cn_graph c')))" using closes_ids ids by metis
        moreover have old: "v \<in> set ?evs \<and> ge_id v \<notin> ge_id ` set ?page" if "v \<in> set (g_events (cn_graph c'))" "prunable v" for v
          using close_some(1) that unfolding page(2) by blast
        ultimately show "untied c'" using "1.prems"(2) unfolding untied_def by blast
        show "\<forall>v \<in> set (g_events (cn_graph c')). prunable v \<longrightarrow>
          after_cursor (next_cursor ?page k) v \<and> map_of cache' (ge_id v) = None"
        proof (intro ballI impI)
          fix v assume v: "v \<in> set (g_events (cn_graph c'))" "prunable v"
          note o = old [OF v]
          have "?page \<noteq> []" using more by auto
          then have l: "last ?page \<in> set ?page" by simp
          have "v \<in> set (sort_key page_key (filter (\<lambda>v. prunable v \<and> after_cursor k v) ?evs))"
            using o v(2) "1.prems"(4) by simp
          moreover have "v \<notin> set ?page" using o by auto
          ultimately have "v \<in> set (drop (Suc m) (sort_key page_key (filter (\<lambda>v. prunable v \<and> after_cursor k v) ?evs)))"
            unfolding parts(1) by (metis append_take_drop_id Un_iff set_append)
          then have le: "page_key (last ?page) \<le> page_key v" using parts(3) l unfolding parts(1) by blast
          have "ge_created (last ?page) \<noteq> None" "ge_created v \<noteq> None" "ge_created (last ?page) \<noteq> ge_created v"
            using "1.prems"(2) page_row [OF l] o v(2) l unfolding untied_def by blast+
          with le have "\<exists>t u. ge_created (last ?page) = Some t \<and> ge_created v = Some u \<and> t < u"
            by (auto simp: page_key_def less_eq_prod_def)
          then have "after_cursor (next_cursor ?page k) v"
            using \<open>?page \<noteq> []\<close> by (auto simp: next_cursor_def after_cursor_def)
          moreover have "map_of cache' (ge_id v) = None" using page(3) o v(2) "1.prems"(4) by blast
          ultimately show "after_cursor (next_cursor ?page k) v \<and> map_of cache' (ge_id v) = None" ..
        qed
      qed
      have "whole = processed + n' + length (filter prunable (g_events (cn_graph c')))" using "1.prems"(3) count by simp
      then have rest: "case prune_loop e m whole (Suc batch) (processed + n') 0 (next_cursor ?page k) cache' c' of (ps, ending, d) \<Rightarrow>
          ending = Finished \<and> g_events (cn_graph d) = update_where prunable closed_event (g_events (cn_graph c')) \<and>
          (if ps = [] then whole \<le> processed + n' else pg_remaining (last ps) = 0)"
        by (intro "1.IH"(1) [OF False ok refl refl refl refl, unfolded rows s fst_conv snd_conv])
           (use "1.prems"(1) more inv page_distinct [OF ids] in \<open>simp_all add: distinct_remdups_id\<close>)
      obtain ps ending d where r: "prune_loop e m whole (Suc batch) (processed + n') 0 (next_cursor ?page k) cache' c' = (ps, ending, d)"
        by (metis prod_cases3)
      have "prune_loop e m whole batch processed failures k cache c =
          (report whole (processed + n') (Suc batch) False False # ps, ending, d)"
        using more False ok rows s r page_distinct [OF ids] by (simp add: step distinct_remdups_id Let_def)
      moreover have "update_where prunable closed_event (g_events (cn_graph c')) = update_where prunable closed_event ?evs"
        unfolding page(2) by (rule close_some(2))
      ultimately show ?thesis using rest r by (simp add: report_def split: if_splits)
    qed
  qed
qed


text \<open>
  C27: When nothing fails and no two recovered events share a creation time, or lack one, the stream
  closes exactly the events that the one-shot pruning closes, leaves every other event alone, ends
  normally and says at the end that nothing remains, for every page size.
\<close>

theorem stream_is_prune:
  assumes "smooth e" "untied c"
  shows "case event_batch_pruner e m (None, None) [] c of (ps, ending, d) \<Rightarrow>
    ending = Finished \<and> pg_remaining (last ps) = 0 \<and>
    g_events (cn_graph d) = g_events (cn_graph (snd (prune_recovered_events x user c)))"
proof -
  let ?n = "length (filter prunable (g_events (cn_graph c)))"
  have graph: "cn_graph (fold (\<lambda>v. set_note (h v) f) xs b) = cn_graph b" for h f xs and b :: console
    by (induction xs arbitrary: b) (simp_all add: set_note_def)
  have target: "g_events (cn_graph (snd (prune_recovered_events x user c))) = update_where prunable closed_event (g_events (cn_graph c))"
    by (simp add: prune_recovered_events_def graph Let_def)
  obtain ps ending d where loop: "prune_loop e m ?n 0 0 0 (None, None) [] c = (ps, ending, d)" by (metis prod_cases3)
  have "ending = Finished \<and> g_events (cn_graph d) = update_where prunable closed_event (g_events (cn_graph c)) \<and>
      (if ps = [] then ?n \<le> 0 else pg_remaining (last ps) = 0)"
    using loop_smooth [OF assms, of ?n 0 "(None, None)" "[]" m 0 0] loop
    by (cases "ps = []") (simp_all add: after_cursor_def)
  moreover have "update_where prunable closed_event (g_events (cn_graph c)) = g_events (cn_graph c)" if "?n = 0"
    using that by (intro update_where_none) (auto simp: filter_empty_conv)
  ultimately show ?thesis
    using assms(1) loop target
    by (cases "?n = 0"; cases "ps = []") (simp_all add: event_batch_pruner_def smooth_def report_def Let_def)
qed

text \<open>Three recovered events, one of them acknowledged; two are created at the same instant or not.\<close>

definition demo_event :: "string \<Rightarrow> instant \<Rightarrow> bool \<Rightarrow> graph_event" where
  "demo_event i t ack = \<lparr>ge_id = i, ge_ci = PStr ''n1'', ge_metric = ''cpu'', ge_status = ''RECOVERED'', ge_type = Some ''AVAILABILITY'',
     ge_family = None, ge_protocol = None, ge_avail = None, ge_severity = ''WARNING'', ge_message = None,
     ge_created = Some t, ge_seen = None, ge_ack = ack, ge_recovered = None, ge_corr = PNone, ge_propagated = PNone,
     ge_root_event = PNone, ge_root_ci = PNone, ge_context = [], ge_collector = ''host''\<rparr>"

definition demo_recovered :: "instant \<Rightarrow> instant \<Rightarrow> console" where
  "demo_recovered t u = \<lparr>cn_graph = Event_Graph.demo_graph\<lparr>g_events := [demo_event ''b'' t False, demo_event ''a'' u False, demo_event ''c'' 3 True]\<rparr>,
     cn_notes = [], cn_guard = \<lparr>gs_cache = \<lparr>cl_entries = [], cl_last_sweep = 0\<rparr>, gs_log = []\<rparr>, cn_escalations = []\<rparr>"

definition demo_prune :: prune_env where
  "demo_prune = \<lparr>pe_console = \<lparr>xe_guard = default_guard_config, xe_tick = 0, xe_now = 7, xe_stamp = ''now'', xe_uuid = ''u'',
       xe_publish_fails = False, xe_log_fails = False, xe_diagnose = (\<lambda>_. '''')\<rparr>,
     pe_user = ''ana'', pe_fetch = (\<lambda>_. Fetched), pe_close_fails = (\<lambda>_ _. False), pe_clock = (\<lambda>_. 0)\<rparr>"

theorem stream_is_prune_witness:
  "map ge_status (g_events (cn_graph (snd (snd (event_batch_pruner demo_prune 0 (None, None) [] (demo_recovered 1 2)))))) =
     [''CLOSED'', ''CLOSED'', ''RECOVERED'']"
proof -
  have "smooth demo_prune" by (simp add: smooth_def demo_prune_def)
  moreover have "untied (demo_recovered 1 2)"
    by (simp add: untied_def demo_recovered_def demo_event_def prunable_def)
  ultimately have "g_events (cn_graph (snd (snd (event_batch_pruner demo_prune 0 (None, None) [] (demo_recovered 1 2))))) =
      g_events (cn_graph (snd (prune_recovered_events (pe_console demo_prune) ''ana'' (demo_recovered 1 2))))"
    using stream_is_prune [where e = demo_prune and c = "demo_recovered 1 2" and m = 0 and x = "pe_console demo_prune" and user = "''ana''"]
    by (simp add: case_prod_unfold)
  moreover have "map ge_status (g_events (cn_graph (snd (prune_recovered_events (pe_console demo_prune) ''ana'' (demo_recovered 1 2))))) =
      [''CLOSED'', ''CLOSED'', ''RECOVERED'']" by code_simp
  ultimately show ?thesis by simp
qed



subsection \<open>The lock\<close>

text \<open>What happens to the lock: acquisitions and releases in the order of their instants.\<close>

datatype lock_use = Acquire string | Release string

definition prune_lock_step :: "instant \<Rightarrow> lock_use \<Rightarrow> prune_lock \<Rightarrow> bool \<times> prune_lock" where
  "prune_lock_step now u l =
     (case u of Acquire w \<Rightarrow> acquire_prune_lock lock_attempts now lock_ttl w l | Release w \<Rightarrow> release_prune_lock w l)"

fun prune_lock_run :: "(instant \<times> lock_use) list \<Rightarrow> prune_lock \<Rightarrow> prune_lock" where
  "prune_lock_run [] l = l"
| "prune_lock_run ((now, u) # us) l = prune_lock_run us (snd (prune_lock_step now u l))"

definition uses_name :: "string \<Rightarrow> lock_use \<Rightarrow> bool" where
  "uses_name w u = (case u of Acquire v \<Rightarrow> v = w | Release v \<Rightarrow> v = w)"

lemma foreign_step:
  "l = Some (w, expires) \<Longrightarrow> now \<le> expires \<Longrightarrow> \<not> uses_name w u \<Longrightarrow> prune_lock_step now u l = (False, l)"
  by (cases u) (auto simp: prune_lock_step_def uses_name_def release_prune_lock_def lock_attempts_def eval_nat_numeral)

text \<open>
  While a lock has not expired, nobody else gets it or takes it away: whatever acquisitions and
  releases under other names are tried until the expiry, the row is unchanged and the next
  acquisition under another name is refused.
\<close>

theorem prune_lock_excludes:
  assumes "list_all (\<lambda>(now, u). now \<le> expires \<and> \<not> uses_name w u) us" "now \<le> expires" "v \<noteq> w"
  shows "prune_lock_run us (Some (w, expires)) = Some (w, expires) \<and>
    \<not> fst (acquire_prune_lock lock_attempts now lock_ttl v (prune_lock_run us (Some (w, expires))))"
proof -
  have "prune_lock_run us (Some (w, expires)) = Some (w, expires)"
    using assms(1) by (induction us) (auto simp: foreign_step)
  then show ?thesis
    using foreign_step [OF refl assms(2), of w "Acquire v"] assms(3) by (simp add: uses_name_def prune_lock_step_def)
qed

theorem prune_lock_excludes_witness:
  "\<not> fst (acquire_prune_lock lock_attempts 7 lock_ttl ''eva'' (prune_lock_run [(5, Acquire ''eva''), (6, Release ''eva'')] (Some (''ana'', 9))))"
  by (rule prune_lock_excludes [THEN conjunct2]) (simp_all add: uses_name_def)

text \<open>
  The lock knows only names. A user with a stream open is let into a second one, and the end of
  either releases the lock for both: another user's stream is then accepted while one of the two is
  still running.
\<close>

theorem prune_lock_shared_by_name:
  assumes "check_permission ''EVENT_CLOSE'' u" "check_permission ''EVENT_CLOSE'' v"
    "stream_open t u None s = (Inr None, s1)" "stream_open t2 u None s1 = (r2, s2)"
    "stream_open t3 v None (stream_close u s2) = (r3, s3)"
  shows "r2 = Inr None \<and> r3 = Inr None"
proof -
  have open_if: "stream_open t w None s = (Inr None, s\<lparr>pn_lock := Some (ac_name w, t + lock_ttl)\<rparr>)"
    if "check_permission ''EVENT_CLOSE'' w" "pn_lock s = None \<or> (\<exists>e. pn_lock s = Some (ac_name w, e))" for t w and s :: pruner
    using that by (auto simp: stream_open_def stream_page_size_def lock_attempts_def eval_nat_numeral)
  have "pn_lock s1 = Some (ac_name u, t + lock_ttl)"
    using assms(1,3) by (auto simp: stream_open_def stream_page_size_def lock_attempts_def eval_nat_numeral
        split: option.splits prod.splits if_splits)
  then have two: "r2 = Inr None" "s2 = s1\<lparr>pn_lock := Some (ac_name u, t2 + lock_ttl)\<rparr>"
    using open_if [OF assms(1), of s1 t2] assms(4) by auto
  then have "pn_lock (stream_close u s2) = None" by (simp add: stream_close_def release_prune_lock_def)
  then show ?thesis using open_if [OF assms(2), of "stream_close u s2" t3] assms(5) two(1) by simp
qed

definition demo_idle :: pruner where
  "demo_idle = \<lparr>pn_console = demo_recovered 1 2, pn_lock = None,
     pn_metrics = \<lparr>pm_stale = 0, pm_pruned = 0, pm_last_run = None, pm_last_count = 0\<rparr>\<rparr>"

definition demo_user :: "string \<Rightarrow> account" where
  "demo_user n = \<lparr>ac_name = n, ac_role = Some ''OPERATOR'', ac_permissions = [''EVENT_CLOSE'']\<rparr>"

theorem prune_lock_shared_by_name_witness:
  "fst (stream_open 30 (demo_user ''eva'') None (stream_close (demo_user ''ana'')
     (snd (stream_open 20 (demo_user ''ana'') None (snd (stream_open 10 (demo_user ''ana'') None demo_idle)))))) = Inr None"
proof -
  have "check_permission ''EVENT_CLOSE'' (demo_user n)" for n by (simp add: check_permission_def demo_user_def)
  moreover have "fst (stream_open 10 (demo_user ''ana'') None demo_idle) = Inr None" by code_simp
  ultimately show ?thesis using prune_lock_shared_by_name by (metis prod.collapse)
qed

text \<open>
  A refused page size locks everybody out: the answer is 400, and for the five minutes after it
  every other user's stream and the scheduled pruning find the lock taken.
\<close>

theorem refused_stream_keeps_lock:
  assumes "check_permission ''EVENT_CLOSE'' u" "check_permission ''EVENT_CLOSE'' v" "ac_name v \<noteq> ac_name u"
    "ac_name u \<noteq> ''scheduler''" "pn_lock s = None" "stream_page_size size_text = Inl err"
    "stream_open t u size_text s = (r, s1)" "xe_now e \<le> t + lock_ttl"
  shows "r = Inl err \<and> fst (stream_open (xe_now e) v None s1) = Inl (HttpError 409 ''Another prune operation is in progress'') \<and>
    run_prune_recovered_events_sync e fails s1 = (Inr 0, s1)"
proof -
  have s1: "r = Inl err" "pn_lock s1 = Some (ac_name u, t + lock_ttl)"
    using assms(1,5-7) by (auto simp: stream_open_def lock_attempts_def eval_nat_numeral)
  have refused: "acquire_prune_lock lock_attempts (xe_now e) lock_ttl w (pn_lock s1) = (False, pn_lock s1)" if "w \<noteq> ac_name u" for w
    using foreign_step [OF s1(2) assms(8), of "Acquire w"] that by (simp add: uses_name_def prune_lock_step_def)
  then show ?thesis
    using s1(1) assms(2-4) by (simp add: stream_open_def run_prune_recovered_events_sync_def)
qed

theorem refused_stream_keeps_lock_witness:
  "run_prune_recovered_events_sync (pe_console demo_prune) False (snd (stream_open 5 (demo_user ''ana'') (Some ''0'') demo_idle)) =
     (Inr 0, snd (stream_open 5 (demo_user ''ana'') (Some ''0'') demo_idle))"
proof -
  have "check_permission ''EVENT_CLOSE'' (demo_user n)" "ac_name (demo_user n) = n" for n
    by (simp_all add: check_permission_def demo_user_def)
  moreover have "stream_page_size (Some ''0'') = Inl (HttpError 400 ''batch_size must be a positive integer'')" by code_simp
  moreover have "pn_lock demo_idle = None" "xe_now (pe_console demo_prune) \<le> 5 + lock_ttl"
    by (simp_all add: demo_idle_def demo_prune_def lock_ttl_def seconds_def)
  ultimately show ?thesis
    using refused_stream_keeps_lock [of "demo_user ''ana''" "demo_user ''eva''" demo_idle "Some ''0''"
        "HttpError 400 ''batch_size must be a positive integer''" 5 "fst (stream_open 5 (demo_user ''ana'') (Some ''0'') demo_idle)"
        "snd (stream_open 5 (demo_user ''ana'') (Some ''0'') demo_idle)" "pe_console demo_prune" False]
    by simp
qed

end
