(* ===== verification/Base64.thy ===== *)
theory Base64
  imports Py_Values
begin

section \<open>URL-safe base64 without padding\<close>

text \<open>
  The codec of the standard library as the code uses it: \<open>urlsafe_b64encode\<close> with the padding
  stripped, and \<open>urlsafe_b64decode\<close> with the padding put back. Bytes are numbers below 256. The
  decoder is the lenient one of \<open>binascii.a2b_base64\<close>: characters outside the alphabet are
  skipped, both alphabets are read, a complete padding ends the input.
\<close>

definition alphabet :: string where
  "alphabet = ''ABCDEFGHIJKLMNOPQRSTUVWXYZabcdefghijklmnopqrstuvwxyz0123456789-_''"

definition digit_of :: "nat \<Rightarrow> char" where
  "digit_of v = alphabet ! v"

fun position :: "char \<Rightarrow> string \<Rightarrow> nat option" where
  "position c [] = None"
| "position c (d # s) = (if c = d then Some 0 else map_option Suc (position c s))"

definition sextet :: "char \<Rightarrow> nat option" where
  "sextet c = (if c = CHR ''+'' then Some 62 else if c = CHR ''/'' then Some 63 else position c alphabet)"

fun to_sextets :: "nat list \<Rightarrow> nat list" where
  "to_sextets [] = []"
| "to_sextets [a] = [a div 4, a mod 4 * 16]"
| "to_sextets [a, b] = [a div 4, a mod 4 * 16 + b div 16, b mod 16 * 4]"
| "to_sextets (a # b # c # r) =
     [a div 4, a mod 4 * 16 + b div 16, b mod 16 * 4 + c div 64, c mod 64] @ to_sextets r"

text \<open>\<open>base64.urlsafe_b64encode(raw).rstrip(b"=")\<close>\<close>

definition b64_encode :: "nat list \<Rightarrow> string" where
  "b64_encode raw = map digit_of (to_sextets raw)"

text \<open>
  The decoder reads sextets in groups of four: \<open>q\<close> is the place in the group, \<open>left\<close> the bits
  not yet put out, \<open>pads\<close> the padding characters since the last sextet.
\<close>

fun a2b :: "nat \<Rightarrow> nat \<Rightarrow> nat \<Rightarrow> string \<Rightarrow> nat list option" where
  "a2b q left pads [] = (if q = 0 then Some [] else None)"
| "a2b q left pads (c # s) =
     (if c = CHR ''=''
      then if q \<ge> 2 \<and> q + Suc pads \<ge> 4 then Some [] else a2b q left (if q \<ge> 2 then Suc pads else pads) s
      else case sextet c of
        None \<Rightarrow> a2b q left pads s
      | Some v \<Rightarrow>
          (if q = 0 then a2b 1 v 0 s
           else if q = 1 then map_option (Cons (left * 4 + v div 16)) (a2b 2 (v mod 16) 0 s)
           else if q = 2 then map_option (Cons (left * 16 + v div 4)) (a2b 3 (v mod 4) 0 s)
           else map_option (Cons (left * 64 + v)) (a2b 0 0 0 s)))"

definition padding :: "string \<Rightarrow> string" where
  "padding s = replicate ((4 - length s mod 4) mod 4) (CHR ''='')"

definition b64_decode :: "string \<Rightarrow> nat list option" where
  "b64_decode s = a2b 0 0 0 (s @ padding s)"

text \<open>Texts are ASCII, so a character is one byte.\<close>

definition bytes_of :: "string \<Rightarrow> nat list" where
  "bytes_of s = map of_char s"

definition text_of_bytes :: "nat list \<Rightarrow> string" where
  "text_of_bytes bs = map char_of bs"

subsection \<open>The round trip\<close>

lemma sextets_distinct:
  "list_all (\<lambda>v. sextet (digit_of v) = Some v \<and> digit_of v \<noteq> CHR ''='') [0..<64]"
  by code_simp

lemma sextet_digit: "v < 64 \<Longrightarrow> sextet (digit_of v) = Some v" "v < 64 \<Longrightarrow> digit_of v \<noteq> CHR ''=''"
  using sextets_distinct by (auto simp: list_all_iff)

lemma a2b_digit:
  assumes "v < 64"
  shows "a2b q left pads (digit_of v # s) =
    (if q = 0 then a2b 1 v 0 s
     else if q = 1 then map_option (Cons (left * 4 + v div 16)) (a2b 2 (v mod 16) 0 s)
     else if q = 2 then map_option (Cons (left * 16 + v div 4)) (a2b 3 (v mod 4) 0 s)
     else map_option (Cons (left * 64 + v)) (a2b 0 0 0 s))"
  using sextet_digit [OF assms] by simp

lemma padding_short: "padding [x, y] = ''==''" "padding [x, y, z] = ''=''"
proof -
  have two: "(4 - length [x, y] mod 4) mod 4 = Suc (Suc 0)" and three: "(4 - length [x, y, z] mod 4) mod 4 = Suc 0" by simp_all
  show "padding [x, y] = ''==''" unfolding padding_def two by simp
  show "padding [x, y, z] = ''=''" unfolding padding_def three by simp
qed

lemma padding_Cons4: "padding (a # b # c # d # s) = padding s"
proof -
  have "(length s + 4) mod 4 = length s mod 4" by presburger
  then show ?thesis by (simp add: padding_def add.commute)
qed

lemma to_sextets_small: "list_all (\<lambda>b. b < 256) raw \<Longrightarrow> list_all (\<lambda>v. v < 64) (to_sextets raw)"
  by (induction raw rule: to_sextets.induct) auto

lemma packed:
  assumes "b < (256::nat)"
  shows "(x * 16 + b div 16) div 16 = x" "(x * 16 + b div 16) mod 16 = b div 16"
    and "(x * 4 + b div 64) div 4 = x" "(x * 4 + b div 64) mod 4 = b div 64"
proof -
  from assms have "b div 16 < 16" "b div 64 < 4" by simp_all
  then show "(x * 16 + b div 16) div 16 = x" "(x * 16 + b div 16) mod 16 = b div 16"
    "(x * 4 + b div 64) div 4 = x" "(x * 4 + b div 64) mod 4 = b div 64" by simp_all
qed

lemma shifted: "b mod 16 * 4 div 4 = b mod (16::nat)"
  by (rule nonzero_mult_div_cancel_right) simp

lemma b64_round:
  assumes "list_all (\<lambda>b. b < 256) raw"
  shows "b64_decode (b64_encode raw) = Some raw"
  using assms
proof (induction raw rule: to_sextets.induct)
  case 1
  then show ?case by (simp add: b64_decode_def b64_encode_def padding_def)
next
  case (2 a)
  then have small: "a div 4 < 64" "a mod 4 * 16 < 64" by auto
  have split: "a div 4 * 4 + a mod 4 * 16 div 16 = a" by simp
  have pad: "padding [digit_of (a div 4), digit_of (a mod 4 * 16)] = ''==''" by (rule padding_short)
  show ?case
    using split by (simp add: b64_decode_def b64_encode_def pad a2b_digit small del: a2b.simps(2)) simp
next
  case (3 a b)
  then have b: "b < 256" by simp
  from 3 have small: "a div 4 < 64" "a mod 4 * 16 + b div 16 < 64" "b mod 16 * 4 < 64" by auto
  have pad: "padding [digit_of (a div 4), digit_of (a mod 4 * 16 + b div 16), digit_of (b mod 16 * 4)] = ''=''"
    by (rule padding_short)
  have bits: "a div 4 * 4 + (a mod 4 * 16 + b div 16) div 16 = a" "(a mod 4 * 16 + b div 16) mod 16 * 16 + b mod 16 * 4 div 4 = b"
    by (simp_all only: packed [OF b] div_mult_mod_eq shifted)
  show ?case
    using b by (simp add: b64_decode_def b64_encode_def pad a2b_digit small bits del: a2b.simps(2))
      (simp add: shifted)
next
  case (4 a b c r)
  then have b: "b < 256" and c: "c < 256" by simp_all
  from 4 have small: "a div 4 < 64" "a mod 4 * 16 + b div 16 < 64" "b mod 16 * 4 + c div 64 < 64" "c mod 64 < 64" by auto
  have bits: "a div 4 * 4 + (a mod 4 * 16 + b div 16) div 16 = a"
    "(a mod 4 * 16 + b div 16) mod 16 * 16 + (b mod 16 * 4 + c div 64) div 4 = b"
    "(b mod 16 * 4 + c div 64) mod 4 * 64 + c mod 64 = c"
    by (simp_all only: packed [OF b] packed [OF c] div_mult_mod_eq)
  have IH: "a2b 0 0 0 (map digit_of (to_sextets r) @ padding (map digit_of (to_sextets r))) = Some r"
    using 4 by (simp add: b64_decode_def b64_encode_def)
  have "b div 16 < 16" "c div 64 < 4" using b c by simp_all
  then show ?case
    by (simp add: b64_decode_def b64_encode_def padding_Cons4 a2b_digit small bits IH del: a2b.simps(2))
qed

lemma bytes_small: "list_all (\<lambda>b. b < 256) (bytes_of s)"
  by (auto simp: bytes_of_def list_all_iff)

lemma text_of_bytes_of [simp]: "text_of_bytes (bytes_of s) = s"
  by (simp add: text_of_bytes_def bytes_of_def o_def)

lemma b64_text_round: "map_option text_of_bytes (b64_decode (b64_encode (bytes_of s))) = Some s"
  by (simp add: b64_round bytes_small)

end
