(* ===== verification/Graph_Contracts.thy ===== *)
theory Graph_Contracts
  imports Base64
begin

section \<open>Contracts of the level-of-detail graph (contracts/)\<close>

text \<open>
  Cluster identifiers, opaque pagination cursors, revision tokens and the disclosure policy of
  aggregates. JSON and SHA-256 are arguments: \<open>cd_dumps\<close> writes a compact object as bytes,
  \<open>cd_loads\<close> reads bytes (\<open>None\<close> where decoding or parsing raises), \<open>cd_canonical\<close> writes an object
  with sorted keys, \<open>cd_sha\<close> is the hexadecimal digest.
\<close>

record codec =
  cd_dumps :: "pydict \<Rightarrow> nat list"
  cd_loads :: "nat list \<Rightarrow> pyval option"
  cd_canonical :: "pydict \<Rightarrow> string"
  cd_sha :: "string \<Rightarrow> string"

text \<open>The errors of the endpoints; the texts of cursor errors never leave the server.\<close>

datatype graph_error =
    Invalid_cluster_id string string
  | Axis_conflict string string
  | Invalid_cursor
  | Stale_cursor pyval string
  | Permission_changed

subsection \<open>Cluster identifiers (cluster_id.py)\<close>

definition location_axis :: string where
  "location_axis = ''location''"

definition unassigned_key :: string where
  "unassigned_key = ''__unassigned__''"

definition key_char :: "char \<Rightarrow> bool" where
  "key_char c = (is_digit c \<or> is_lower c \<or> is_upper c \<or> c \<in> set ''._-'')"

definition valid_key :: "string \<Rightarrow> bool" where
  "valid_key k = (k \<noteq> [] \<and> length k \<le> 128 \<and> list_all key_char k)"

record cluster_id =
  ci_axis :: string
  ci_key :: string
  ci_normalized :: string
  ci_display :: string

definition wire :: "cluster_id \<Rightarrow> string" where
  "wire c = ci_axis c @ '':'' @ ci_key c"

text \<open>\<open>str.partition(":")\<close> of a text with a colon\<close>

definition before_colon :: "string \<Rightarrow> string" where
  "before_colon s = takeWhile (\<lambda>c. c \<noteq> CHR '':'') s"

definition after_colon :: "string \<Rightarrow> string" where
  "after_colon s = drop 1 (dropWhile (\<lambda>c. c \<noteq> CHR '':'') s)"

text \<open>
  The match of \<open>^location:([A-Za-z0-9._-]{1,128})$\<close>: the dollar sign also matches before a line feed
  that ends the text.
\<close>

definition match_key :: "string \<Rightarrow> string option" where
  "match_key raw =
     (let k = after_colon raw; k' = (if k \<noteq> [] \<and> last k = CHR 0x0A then butlast k else k)
      in if before_colon raw = location_axis \<and> valid_key k' then Some k' else None)"

definition parse_cluster_id :: "string option \<Rightarrow> graph_error + cluster_id" where
  "parse_cluster_id r =
     (case r of None \<Rightarrow> Inl (Invalid_cluster_id ''None'' ''cluster_id must be a string'')
      | Some raw \<Rightarrow>
          if raw = '''' then Inl (Invalid_cluster_id raw ''cluster_id is empty'')
          else if CHR '':'' \<notin> set raw
          then Inl (Invalid_cluster_id raw (''cluster_id must be in '' @ [CHR 0x27] @ ''<axis>:<key>'' @ [CHR 0x27] @ '' format''))
          else if CHR ''/'' \<in> set raw
          then Inl (Invalid_cluster_id raw (''cluster_id must not contain '' @ [CHR 0x27, CHR ''/'', CHR 0x27]))
          else case match_key raw of
            None \<Rightarrow>
              Inl (Invalid_cluster_id raw
                (if before_colon raw \<noteq> location_axis then ''axis must be '' @ [CHR 0x27] @ location_axis @ [CHR 0x27]
                 else if length (after_colon raw) > 128 then ''key length exceeds 128''
                 else ''key contains disallowed characters''))
          | Some k \<Rightarrow>
              Inr \<lparr>ci_axis = location_axis, ci_key = k, ci_normalized = lower k,
                   ci_display = (if k = unassigned_key then ''Unassigned'' else k)\<rparr>)"

definition cluster_ids_equal :: "cluster_id \<Rightarrow> cluster_id \<Rightarrow> bool" where
  "cluster_ids_equal a b = (ci_axis a = ci_axis b \<and> ci_normalized a = ci_normalized b)"

definition assert_axis_matches :: "cluster_id \<Rightarrow> string option \<Rightarrow> graph_error + unit" where
  "assert_axis_matches c q =
     (case q of None \<Rightarrow> Inr () | Some a \<Rightarrow> if a = ci_axis c then Inr () else Inl (Axis_conflict (ci_axis c) a))"

lemma split_colon: "CHR '':'' \<notin> set a \<Longrightarrow> before_colon (a @ CHR '':'' # k) = a \<and> after_colon (a @ CHR '':'' # k) = k"
  by (induction a) (auto simp: before_colon_def after_colon_def)

lemma split_location:
  "before_colon (location_axis @ CHR '':'' # k) = location_axis" "after_colon (location_axis @ CHR '':'' # k) = k"
  using split_colon [of location_axis k] by (simp_all add: location_axis_def)

lemma valid_key_chars: "valid_key k \<Longrightarrow> CHR ''/'' \<notin> set k \<and> last k \<noteq> CHR 0x0A"
proof -
  assume k: "valid_key k"
  have "\<not> key_char (CHR ''/'')" "\<not> key_char (CHR 0x0A)" by code_simp+
  with k show ?thesis by (auto simp: valid_key_def list_all_iff dest: last_in_set)
qed

text \<open>A parsed identifier and its wire form determine each other.\<close>

lemma parse_wire:
  assumes "valid_key k"
  shows "parse_cluster_id (Some (location_axis @ '':'' @ k)) =
    Inr \<lparr>ci_axis = location_axis, ci_key = k, ci_normalized = lower k,
         ci_display = (if k = unassigned_key then ''Unassigned'' else k)\<rparr>"
proof -
  have "match_key (location_axis @ '':'' @ k) = Some k"
    using assms valid_key_chars [OF assms] by (simp add: match_key_def split_location)
  moreover have "CHR ''/'' \<notin> set (location_axis @ '':'' @ k)"
    using valid_key_chars [OF assms] by (simp add: location_axis_def)
  ultimately show ?thesis by (simp add: parse_cluster_id_def)
qed

lemma parse_valid: "parse_cluster_id r = Inr c \<Longrightarrow> valid_key (ci_key c) \<and> ci_axis c = location_axis"
  by (auto simp: parse_cluster_id_def match_key_def Let_def split: option.splits if_splits)

lemma parse_invalid_key:
  assumes "\<not> valid_key k" "k = [] \<or> last k \<noteq> CHR 0x0A"
  shows "\<not> is_ok (parse_cluster_id (Some (location_axis @ '':'' @ k)))"
proof -
  have "match_key (location_axis @ '':'' @ k) = None"
    using assms by (auto simp: match_key_def split_location Let_def)
  then show ?thesis by (simp add: parse_cluster_id_def)
qed


subsection \<open>Disclosure of aggregates (aggregate_policy.py)\<close>

definition default_minimum_count :: int where
  "default_minimum_count = 5"

definition breakdown_permission :: string where
  "breakdown_permission = ''graph:aggregate_breakdown:read''"

datatype geo_precision = Geo_none | Geo_region | Geo_city

definition derive_safe_geo_precision :: "int \<Rightarrow> int \<Rightarrow> py_exc + geo_precision" where
  "derive_safe_geo_precision visible minimum =
     (if visible < 0 then Inl (ValueError ''visible_count'')
      else if minimum < 1 then Inl (ValueError ''minimum_count'')
      else if visible < minimum then Inr Geo_none
      else if visible < minimum * 4 then Inr Geo_region
      else Inr Geo_city)"

subsection \<open>Revisions (revision.py)\<close>

definition make_revision :: "string \<Rightarrow> py_exc + string" where
  "make_revision v = (if v = '''' then Inl (ValueError ''Revision value must be a non-empty string'') else Inr v)"

subsection \<open>Cursors (cursor.py)\<close>

definition hash_prefix :: "codec \<Rightarrow> string \<Rightarrow> string" where
  "hash_prefix cd payload = take 16 (cd_sha cd payload)"

definition derive_filters_hash :: "codec \<Rightarrow> pydict \<Rightarrow> string" where
  "derive_filters_hash cd filters = hash_prefix cd (cd_canonical cd filters)"

definition derive_principal_hash :: "codec \<Rightarrow> string list \<Rightarrow> string" where
  "derive_principal_hash cd perms = hash_prefix cd (join ''|'' (sort perms))"

definition cursor_payload :: "codec \<Rightarrow> string \<Rightarrow> pydict \<Rightarrow> string \<Rightarrow> string \<Rightarrow> string \<Rightarrow> pydict" where
  "cursor_payload cd cluster filters revision who nonce =
     [(''v'', PInt 1), (''cluster_id'', PStr cluster), (''filters_hash'', PStr (derive_filters_hash cd filters)),
      (''revision'', PStr revision), (''principal_hash'', PStr who), (''nonce'', PStr nonce)]"

definition encode_cursor :: "codec \<Rightarrow> string \<Rightarrow> pydict \<Rightarrow> string \<Rightarrow> string \<Rightarrow> string \<Rightarrow> string" where
  "encode_cursor cd cluster filters revision who nonce =
     b64_encode (cd_dumps cd (cursor_payload cd cluster filters revision who nonce))"

record decoded_cursor =
  dc_cluster :: pyval
  dc_filters_hash :: pyval
  dc_revision :: pyval
  dc_principal :: pyval
  dc_nonce :: pyval

text \<open>\<open>payload.get("v") != 1\<close>: true and 1.0 are equal to one in Python.\<close>

definition is_version_1 :: "pyval \<Rightarrow> bool" where
  "is_version_1 v = (v = PInt 1 \<or> v = PBool True \<or> v = PFloat (Fin 1))"

definition decode_cursor :: "codec \<Rightarrow> string option \<Rightarrow> string option \<Rightarrow> string \<Rightarrow> graph_error + decoded_cursor" where
  "decode_cursor cd current who encoded =
     (if encoded = '''' then Inl Invalid_cursor
      else case b64_decode encoded of None \<Rightarrow> Inl Invalid_cursor
      | Some raw \<Rightarrow>
        (case cd_loads cd raw of
           Some (PDict d) \<Rightarrow>
             if \<not> is_version_1 (get d ''v'') then Inl Invalid_cursor
             else if list_ex (\<lambda>k. \<not> has_key d k) [''cluster_id'', ''filters_hash'', ''revision'', ''principal_hash'']
             then Inl Invalid_cursor
             else if current \<noteq> None \<and> PStr (the current) \<noteq> get d ''revision''
             then Inl (Stale_cursor (get d ''revision'') (the current))
             else if who \<noteq> None \<and> PStr (the who) \<noteq> get d ''principal_hash''
             then Inl Permission_changed
             else Inr \<lparr>dc_cluster = get d ''cluster_id'', dc_filters_hash = get d ''filters_hash'',
                       dc_revision = get d ''revision'', dc_principal = get d ''principal_hash'',
                       dc_nonce = dict_get d ''nonce'' (PStr '''')\<rparr>
         | _ \<Rightarrow> Inl Invalid_cursor))"

text \<open>Writing and reading an object; the bytes of a JSON object are never empty.\<close>

definition json_ok :: "codec \<Rightarrow> pydict \<Rightarrow> bool" where
  "json_ok cd d = (cd_dumps cd d \<noteq> [] \<and> list_all (\<lambda>b. b < 256) (cd_dumps cd d) \<and> cd_loads cd (cd_dumps cd d) = Some (PDict d))"

lemma encode_not_empty: "raw \<noteq> [] \<Longrightarrow> b64_encode raw \<noteq> []"
  by (cases raw rule: to_sextets.cases) (simp_all add: b64_encode_def)

lemma decode_encode:
  assumes "json_ok cd (cursor_payload cd cluster filters revision who nonce)"
  shows "decode_cursor cd current req (encode_cursor cd cluster filters revision who nonce) =
    (if current \<noteq> None \<and> current \<noteq> Some revision then Inl (Stale_cursor (PStr revision) (the current))
     else if req \<noteq> None \<and> req \<noteq> Some who then Inl Permission_changed
     else Inr \<lparr>dc_cluster = PStr cluster, dc_filters_hash = PStr (derive_filters_hash cd filters),
               dc_revision = PStr revision, dc_principal = PStr who, dc_nonce = PStr nonce\<rparr>)"
proof -
  let ?p = "cursor_payload cd cluster filters revision who nonce"
  have "b64_encode (cd_dumps cd ?p) \<noteq> []" "b64_decode (b64_encode (cd_dumps cd ?p)) = Some (cd_dumps cd ?p)"
    "cd_loads cd (cd_dumps cd ?p) = Some (PDict ?p)"
    using assms encode_not_empty b64_round by (auto simp: json_ok_def)
  then show ?thesis
    by (cases current; cases req)
       (auto simp: decode_cursor_def encode_cursor_def cursor_payload_def is_version_1_def dict_get_def)
qed

text \<open>
  A cursor is bound to what it was made for. It reads back with its cluster, its filter hash
  and its nonce when the revision and the permissions are the same; another revision makes it stale
  and is reported with the current one, changed permissions are reported as such, and the check of
  the revision comes first.
\<close>

theorem cursor_bound:
  assumes "json_ok cd (cursor_payload cd cluster filters revision (derive_principal_hash cd perms) nonce)"
  shows "decode_cursor cd (Some now) (Some (derive_principal_hash cd perms'))
      (encode_cursor cd cluster filters revision (derive_principal_hash cd perms) nonce) =
    (if now \<noteq> revision then Inl (Stale_cursor (PStr revision) now)
     else if derive_principal_hash cd perms' \<noteq> derive_principal_hash cd perms then Inl Permission_changed
     else Inr \<lparr>dc_cluster = PStr cluster, dc_filters_hash = PStr (derive_filters_hash cd filters),
               dc_revision = PStr revision, dc_principal = PStr (derive_principal_hash cd perms), dc_nonce = PStr nonce\<rparr>)"
  by (simp add: decode_encode [OF assms])


text \<open>A codec for the example: JSON that knows one object, and a digest that is its text.\<close>

definition demo_codec :: "pydict \<Rightarrow> codec" where
  "demo_codec d = \<lparr>cd_dumps = (\<lambda>_. [123, 125]), cd_loads = (\<lambda>raw. if raw = [123, 125] then Some (PDict d) else None),
     cd_canonical = (\<lambda>_. ''{}''), cd_sha = id\<rparr>"

theorem cursor_bound_witness:
  "let cd = demo_codec (cursor_payload (demo_codec []) ''location:HQ'' [] ''rev-1''
              (derive_principal_hash (demo_codec []) [''A'', ''B'']) ''n'')
   in decode_cursor cd (Some ''rev-2'') (Some (derive_principal_hash cd [''A'']))
        (encode_cursor cd ''location:HQ'' [] ''rev-1'' (derive_principal_hash cd [''A'', ''B'']) ''n'') =
      Inl (Stale_cursor (PStr ''rev-1'') ''rev-2'')"
  unfolding Let_def by (subst cursor_bound) code_simp+

end
