(* ===== verification/Graph_Lod.thy ===== *)
theory Graph_Lod
  imports Graph_Contracts
begin

section \<open>Level-of-detail graph (services/graph_lod_service.py, repositories/graph_lod_repo.py)\<close>

text \<open>
  The overview of locations and the detail of one location. The graph holds the configuration items
  with their events and the relationships between items; the Cypher queries are written out on it,
  a missing property being \<open>None\<close>. Coordinates and averages are exact rationals.
\<close>

subsection \<open>The graph and the principal\<close>

record ci_node =
  gn_id :: string
  gn_name :: "string option"
  gn_labels :: "string list"
  gn_layer :: "string option"
  gn_location :: "string option"
  gn_lat :: "rat option"
  gn_long :: "rat option"
  gn_events :: "(string \<times> string option) list"

record lod_graph =
  gr_items :: "ci_node list"
  gr_links :: "(string \<times> string \<times> string) list"

record lod_principal =
  lp_admin :: bool
  lp_allowed :: "string list"
  lp_permissions :: "string list"
  lp_regions :: "string list"

text \<open>
  The user of a request as \<open>get_current_user\<close> builds it: the model has no \<open>is_admin\<close> attribute, so
  \<open>getattr(principal, "is_admin", False)\<close> is false for every role, and the breakdown regions of the
  account are not copied.
\<close>

record account_row =
  ar_role :: string
  ar_permissions :: "string list"
  ar_allowed :: "string list"
  ar_regions :: "string list"

definition current_principal :: "account_row \<Rightarrow> lod_principal" where
  "current_principal a =
     \<lparr>lp_admin = False, lp_allowed = ar_allowed a, lp_permissions = ar_permissions a, lp_regions = []\<rparr>"

subsection \<open>The overview query\<close>

record raw_cluster =
  rc_id :: string
  rc_label :: string
  rc_nodes :: int
  rc_critical :: int
  rc_warning :: int
  rc_events :: int
  rc_lat :: rat
  rc_long :: rat

definition visible_item :: "bool \<Rightarrow> string list \<Rightarrow> ci_node \<Rightarrow> bool" where
  "visible_item admin allowed n = (admin \<or> (case gn_location n of None \<Rightarrow> False | Some l \<Rightarrow> l \<in> set allowed))"

text \<open>\<open>OPTIONAL MATCH (n)-[:HAS_EVENT]->(e:Event) WHERE e.status IN ['OPEN', 'ACK']\<close>: one row per event, or one without\<close>

definition event_rows :: "ci_node \<Rightarrow> (ci_node \<times> (string \<times> string option) option) list" where
  "event_rows n =
     (let es = filter (\<lambda>(st, sev). st = ''OPEN'' \<or> st = ''ACK'') (gn_events n)
      in if es = [] then [(n, None)] else map (\<lambda>e. (n, Some e)) es)"

definition average :: "rat option list \<Rightarrow> rat" where
  "average vs = (let xs = List.map_filter id vs in if xs = [] then 0 else sum_list xs / of_nat (length xs))"

definition text_or :: "string option \<Rightarrow> string \<Rightarrow> string" where
  "text_or v dflt = (case v of None \<Rightarrow> dflt | Some s \<Rightarrow> s)"

definition has_severity :: "string \<Rightarrow> (string \<times> string option) option \<Rightarrow> bool" where
  "has_severity sev e = (case e of Some (_, Some s) \<Rightarrow> s = sev | _ \<Rightarrow> False)"

definition aggregate_location :: "ci_node list \<Rightarrow> string option \<Rightarrow> raw_cluster" where
  "aggregate_location ns l =
     (let members = filter (\<lambda>n. gn_location n = l) ns; rows = concat (map event_rows members)
      in \<lparr>rc_id = ''location:'' @ text_or l unassigned_key, rc_label = text_or l ''Unassigned'',
          rc_nodes = int (length members),
          rc_critical = int (length (filter (has_severity ''CRITICAL'' \<circ> snd) rows)),
          rc_warning = int (length (filter (has_severity ''WARNING'' \<circ> snd) rows)),
          rc_events = int (length (filter (\<lambda>(n, e). e \<noteq> None) rows)),
          rc_lat = average (map (gn_lat \<circ> fst) rows), rc_long = average (map (gn_long \<circ> fst) rows)\<rparr>)"

definition aggregate_overview_clusters :: "lod_graph \<Rightarrow> string list option \<Rightarrow> bool \<Rightarrow> raw_cluster list" where
  "aggregate_overview_clusters g allowed admin =
     (let scope = (case allowed of None \<Rightarrow> [] | Some ls \<Rightarrow> ls)
      in if \<not> admin \<and> scope = [] then []
         else let ns = filter (visible_item admin scope) (gr_items g)
              in sort_key rc_id (map (aggregate_location ns) (remdups (map gn_location ns))))"

subsection \<open>The overview\<close>

record overview_cluster =
  oc_id :: string
  oc_label :: string
  oc_nodes :: int
  oc_redacted :: bool
  oc_reason :: "string option"
  oc_critical :: int
  oc_warning :: int
  oc_events :: int
  oc_lat :: rat
  oc_long :: rat

record overview =
  ov_precision :: geo_precision
  ov_clusters :: "overview_cluster list"

definition resolve_visible_set :: "lod_principal \<Rightarrow> string list option \<times> bool" where
  "resolve_visible_set p =
     (if lp_admin p then (None, True) else (if lp_allowed p = [] then None else Some (lp_allowed p), False))"

definition has_breakdown_permission :: "lod_principal \<Rightarrow> bool" where
  "has_breakdown_permission p = (breakdown_permission \<in> set (lp_permissions p))"

definition region_in_breakdown_scope :: "lod_principal \<Rightarrow> string \<Rightarrow> bool" where
  "region_in_breakdown_scope p region = (lp_regions p = [] \<or> region \<in> set (lp_regions p))"

definition shape_cluster :: "raw_cluster \<Rightarrow> int \<Rightarrow> overview_cluster" where
  "shape_cluster r minimum =
     (let low = rc_nodes r < minimum
      in \<lparr>oc_id = rc_id r, oc_label = (if rc_label r = '''' then rc_id r else rc_label r), oc_nodes = rc_nodes r,
          oc_redacted = low, oc_reason = (if low then Some ''low_cardinality'' else None),
          oc_critical = (if low then 0 else rc_critical r), oc_warning = (if low then 0 else rc_warning r),
          oc_events = (if low then 0 else rc_events r), oc_lat = rc_lat r, oc_long = rc_long r\<rparr>)"

definition round_cluster_centroid :: "geo_precision \<Rightarrow> overview_cluster \<Rightarrow> overview_cluster" where
  "round_cluster_centroid q c =
     (if oc_redacted c \<or> q = Geo_none then c\<lparr>oc_lat := 0, oc_long := 0\<rparr>
      else if q = Geo_region then c\<lparr>oc_lat := round_to 2 (oc_lat c), oc_long := round_to 2 (oc_long c)\<rparr>
      else c\<lparr>oc_lat := round_to 4 (oc_lat c), oc_long := round_to 4 (oc_long c)\<rparr>)"

text \<open>The counts are lengths of lists and the minimum is five, so the ladder raises nothing.\<close>

definition tier :: "int \<Rightarrow> geo_precision" where
  "tier visible = (case derive_safe_geo_precision visible default_minimum_count of Inl _ \<Rightarrow> Geo_none | Inr q \<Rightarrow> q)"

definition overview_precision :: "lod_principal \<Rightarrow> overview_cluster list \<Rightarrow> geo_precision" where
  "overview_precision p cs =
     (let base = tier (fold max (map oc_nodes cs) 0)
      in if base \<noteq> Geo_city then base
         else if \<not> has_breakdown_permission p then Geo_region
         else if list_ex (\<lambda>c. oc_nodes c \<ge> default_minimum_count * 4 \<and> region_in_breakdown_scope p (oc_label c)) cs
         then Geo_city else Geo_region)"

definition get_overview :: "lod_graph \<Rightarrow> lod_principal \<Rightarrow> overview" where
  "get_overview g p =
     (let (allowed, admin) = resolve_visible_set p;
          cs = map (\<lambda>r. shape_cluster r default_minimum_count) (aggregate_overview_clusters g allowed admin);
          q = overview_precision p cs
      in \<lparr>ov_precision = q, ov_clusters = map (round_cluster_centroid q) cs\<rparr>)"

subsection \<open>The detail query\<close>

text \<open>A link row; the identifiers and the type are null in the row of an optional match that found nothing.\<close>

type_synonym link_row = "string option \<times> string option \<times> string option"

record raw_detail =
  rd_label :: string
  rd_count :: int
  rd_nodes :: "ci_node list"
  rd_links :: "link_row list"
  rd_link_count :: int
  rd_more :: bool

definition at_key :: "string \<Rightarrow> ci_node \<Rightarrow> bool" where
  "at_key key n = (gn_location n = Some key \<or> gn_location n = Some unassigned_key)"

definition link_rows :: "lod_graph \<Rightarrow> string \<Rightarrow> ci_node list \<Rightarrow> link_row list" where
  "link_rows g key ns =
     (let found = concat (map (\<lambda>n. map (\<lambda>(s, t, m). (Some s, Some m, Some t))
            (filter (\<lambda>(s, t, m). s = gn_id n \<and> list_ex (\<lambda>x. gn_id x = m \<and> at_key key x) (gr_items g)) (gr_links g))) ns)
      in if found = [] then [(None, None, None)] else remdups found)"

text \<open>
  \<open>collect\<close> without a grouping key gives one row even when nothing matches, and a map of nulls is not
  null: the row always exists, and without links it has one link of nulls.
\<close>

definition aggregate_detail_subgraph ::
  "lod_graph \<Rightarrow> string \<Rightarrow> string list option \<Rightarrow> bool \<Rightarrow> nat \<Rightarrow> raw_detail option" where
  "aggregate_detail_subgraph g cluster allowed admin limit =
     (let scope = (case allowed of None \<Rightarrow> [] | Some ls \<Rightarrow> ls);
          key = (if CHR '':'' \<in> set cluster then after_colon cluster else cluster)
      in if \<not> admin \<and> scope = [] then None
         else
           let ns = filter (\<lambda>n. at_key key n \<and> visible_item admin scope n) (gr_items g);
               links = link_rows g key ns
           in Some \<lparr>rd_label = (if key = unassigned_key then ''Unassigned'' else key), rd_count = int (length ns),
                    rd_nodes = take limit ns, rd_links = take limit links, rd_link_count = int (length links),
                    rd_more = length ns > limit\<rparr>)"

subsection \<open>The detail\<close>

record detail_node =
  dn_id :: string
  dn_label :: string
  dn_kind :: string
  dn_type :: string
  dn_geo :: "(rat \<times> rat) option"

record detail_view =
  dv_cluster :: "(string \<times> string \<times> int \<times> int) option"
  dv_revision :: string
  dv_nodes :: "detail_node list"
  dv_links :: "(string \<times> string \<times> string) list"
  dv_sensitive :: bool
  dv_empty :: string
  dv_more :: bool
  dv_next :: "string option"

text \<open>\<open>str(x)\<close> of a text or null\<close>

definition str_opt :: "string option \<Rightarrow> string" where
  "str_opt v = text_or v ''None''"

definition shape_detail_link :: "link_row \<Rightarrow> string \<times> string \<times> string" where
  "shape_detail_link r = (case r of (s, m, t) \<Rightarrow> (str_opt s, str_opt m, str_opt t))"

definition non_blank :: "string \<Rightarrow> string \<Rightarrow> string" where
  "non_blank s dflt = (if s = '''' then dflt else s)"

text \<open>
  The projection of the query, then the node of the response. The fields that the projection policy
  strips are not among those of the query.
\<close>

definition shape_detail_node :: "ci_node \<Rightarrow> detail_node" where
  "shape_detail_node n =
     \<lparr>dn_id = gn_id n, dn_label = non_blank (text_or (gn_name n) (gn_id n)) (gn_id n),
      dn_kind = non_blank (case gn_labels n of [] \<Rightarrow> ''CI'' | l # _ \<Rightarrow> l) ''CI'',
      dn_type = non_blank (text_or (gn_layer n) ''CI'') ''CI'',
      dn_geo = Some (case gn_lat n of None \<Rightarrow> 0 | Some x \<Rightarrow> x, case gn_long n of None \<Rightarrow> 0 | Some x \<Rightarrow> x)\<rparr>"

definition round_detail_node_geo :: "geo_precision \<Rightarrow> detail_node \<Rightarrow> detail_node" where
  "round_detail_node_geo q n =
     (case dn_geo n of None \<Rightarrow> n
      | Some (lat, lng) \<Rightarrow>
          if lat = 0 \<and> lng = 0 then n\<lparr>dn_geo := None\<rparr>
          else if q = Geo_none then n\<lparr>dn_geo := None\<rparr>
          else if q = Geo_region then n\<lparr>dn_geo := Some (round_to 2 lat, round_to 2 lng)\<rparr>
          else n\<lparr>dn_geo := Some (round_to 4 lat, round_to 4 lng)\<rparr>)"

definition precision_for_principal :: "lod_principal \<Rightarrow> int \<Rightarrow> geo_precision" where
  "precision_for_principal p visible =
     (if tier visible \<noteq> Geo_city then tier visible
      else if \<not> has_breakdown_permission p then Geo_region else Geo_city)"

text \<open>
  The revision token: the first four characters of the text of the clock, as a big-endian number.
  \<open>fraction\<close> is the text after the seconds.
\<close>

definition resolve_revision :: "int \<Rightarrow> string \<Rightarrow> string" where
  "resolve_revision secs fraction =
     ''revision-'' @ show_int (int (fold (\<lambda>b n. n * 256 + b) (bytes_of (take 4 (show_int secs @ fraction))) 0))"

text \<open>\<open>cursor\<close> is None or a text; an empty one counts as none.\<close>

definition get_detail ::
  "codec \<Rightarrow> int \<Rightarrow> string \<Rightarrow> string \<Rightarrow> lod_graph \<Rightarrow> string option \<Rightarrow> lod_principal \<Rightarrow> pydict \<Rightarrow>
     string option \<Rightarrow> nat \<Rightarrow> bool \<Rightarrow> string option \<Rightarrow> graph_error + detail_view" where
  "get_detail cd secs fraction nonce g raw p filters cursor limit sensitive axis =
     bindR (parse_cluster_id raw) (\<lambda>c. bindR (assert_axis_matches c axis) (\<lambda>_.
     let cluster = wire c; rev = resolve_revision secs fraction;
         who = derive_principal_hash cd (remdups (lp_permissions p))
     in bindR (if cursor = None \<or> cursor = Some '''' then Inr ()
               else bindR (decode_cursor cd (Some rev) (Some who) (the cursor)) (\<lambda>d.
                 if dc_cluster d \<noteq> PStr cluster then Inl Invalid_cursor else Inr ())) (\<lambda>_.
     let (allowed, admin) = resolve_visible_set p;
         shown = (has_breakdown_permission p \<and> sensitive)
     in Inr (case aggregate_detail_subgraph g cluster allowed admin limit of
          None \<Rightarrow> \<lparr>dv_cluster = None, dv_revision = rev, dv_nodes = [], dv_links = [], dv_sensitive = shown,
                   dv_empty = ''hidden_absent'', dv_more = False, dv_next = None\<rparr>
        | Some r \<Rightarrow>
            let q = precision_for_principal p (rd_count r)
            in \<lparr>dv_cluster = Some (cluster, non_blank (rd_label r) (after_colon cluster), rd_count r, rd_link_count r),
                dv_revision = rev, dv_nodes = map (round_detail_node_geo q \<circ> shape_detail_node) (rd_nodes r),
                dv_links = map shape_detail_link (rd_links r), dv_sensitive = shown, dv_empty = ''none'',
                dv_more = rd_more r,
                dv_next = (if rd_more r then Some (encode_cursor cd cluster filters rev who nonce) else None)\<rparr>))))"

text \<open>The route: the page size is checked first, errors become their status.\<close>

definition error_status :: "graph_error \<Rightarrow> nat" where
  "error_status e = (case e of Stale_cursor _ _ \<Rightarrow> 409 | _ \<Rightarrow> 400)"

definition graph_detail_route ::
  "codec \<Rightarrow> int \<Rightarrow> string \<Rightarrow> string \<Rightarrow> lod_graph \<Rightarrow> account_row \<Rightarrow> string \<Rightarrow> string option \<Rightarrow> int \<Rightarrow> string option \<Rightarrow>
     string option \<Rightarrow> nat \<times> detail_view option" where
  "graph_detail_route cd secs fraction nonce g a raw cursor limit axis sensitive =
     (if limit < 1 \<or> limit > 1000 then (422, None)
      else case get_detail cd secs fraction nonce g (Some raw) (current_principal a) [] cursor (nat limit)
                  (sensitive = Some ''include'') axis of
        Inl e \<Rightarrow> (error_status e, None) | Inr v \<Rightarrow> (200, Some v))"

end
