(* ===== verification/Graph_Disclosure.thy ===== *)
theory Graph_Disclosure
  imports Graph_Lod
begin

section \<open>What the level-of-detail endpoints disclose\<close>

text \<open>
  Two graphs that a user may not tell apart; the disclosure limits of the overview; what the
  detail of a cluster shows of it; what pagination and revisions really do.
\<close>

subsection \<open>Hidden parts stay hidden\<close>

definition visible_part :: "string list \<Rightarrow> lod_graph \<Rightarrow> ci_node list" where
  "visible_part allowed g = filter (visible_item False allowed) (gr_items g)"

definition visible_links :: "string list \<Rightarrow> lod_graph \<Rightarrow> (string \<times> string \<times> string) list" where
  "visible_links allowed g =
     filter (\<lambda>(s, t, m). list_ex (\<lambda>x. gn_id x = s) (visible_part allowed g) \<and>
                        list_ex (\<lambda>x. gn_id x = m) (visible_part allowed g)) (gr_links g)"

text \<open>No item is located at the reserved key itself, and identifiers are unique.\<close>

definition regular_graph :: "lod_graph \<Rightarrow> bool" where
  "regular_graph g =
     (list_all (\<lambda>n. gn_location n \<noteq> Some unassigned_key) (gr_items g) \<and> distinct (map gn_id (gr_items g)))"

definition alike_for :: "string list \<Rightarrow> lod_graph \<Rightarrow> lod_graph \<Rightarrow> bool" where
  "alike_for allowed g h = (visible_part allowed g = visible_part allowed h \<and> visible_links allowed g = visible_links allowed h)"

lemma regular_at_key: "regular_graph g \<Longrightarrow> n \<in> set (gr_items g) \<Longrightarrow> at_key key n \<longleftrightarrow> gn_location n = Some key"
  by (auto simp: regular_graph_def at_key_def list_all_iff)

lemma detail_items:
  assumes "regular_graph g"
  shows "filter (\<lambda>n. at_key key n \<and> visible_item False allowed n) (gr_items g) =
    (if key \<in> set allowed then filter (\<lambda>n. gn_location n = Some key) (visible_part allowed g) else [])"
proof -
  have "filter (\<lambda>n. at_key key n \<and> visible_item False allowed n) (gr_items g) =
      filter (\<lambda>n. gn_location n = Some key \<and> visible_item False allowed n) (gr_items g)"
    using regular_at_key [OF assms] by (intro filter_cong) auto
  then show ?thesis
    by (auto simp: visible_part_def visible_item_def filter_empty_conv intro!: filter_cong)
qed

text \<open>The links of visible items at an allowed key are links between visible items.\<close>

lemma link_rows_visible:
  assumes "regular_graph g" "key \<in> set allowed" "set ns \<subseteq> set (visible_part allowed g)"
  shows "link_rows g key ns =
    (let found = concat (map (\<lambda>n. map (\<lambda>(s, t, m). (Some s, Some m, Some t))
            (filter (\<lambda>(s, t, m). s = gn_id n \<and> list_ex (\<lambda>x. gn_id x = m \<and> gn_location x = Some key) (visible_part allowed g))
              (visible_links allowed g))) ns)
     in if found = [] then [(None, None, None)] else remdups found)"
proof -
  have target: "list_ex (\<lambda>x. gn_id x = m \<and> at_key key x) (gr_items g) \<longleftrightarrow>
      list_ex (\<lambda>x. gn_id x = m \<and> gn_location x = Some key) (visible_part allowed g)" for m
    using regular_at_key [OF assms(1)] assms(2)
    by (auto simp: list_ex_iff visible_part_def visible_item_def)
  have "filter (\<lambda>(s, t, m). s = gn_id n \<and> list_ex (\<lambda>x. gn_id x = m \<and> at_key key x) (gr_items g)) (gr_links g) =
      filter (\<lambda>(s, t, m). s = gn_id n \<and> list_ex (\<lambda>x. gn_id x = m \<and> gn_location x = Some key) (visible_part allowed g))
        (visible_links allowed g)" if "n \<in> set ns" for n
    using that assms(3) unfolding visible_links_def filter_filter target
    by (intro filter_cong) (auto simp: list_ex_iff)
  then have eq: "map (\<lambda>n. map (\<lambda>(s, t, m). (Some s, Some m, Some t))
        (filter (\<lambda>(s, t, m). s = gn_id n \<and> list_ex (\<lambda>x. gn_id x = m \<and> at_key key x) (gr_items g)) (gr_links g))) ns =
      map (\<lambda>n. map (\<lambda>(s, t, m). (Some s, Some m, Some t))
        (filter (\<lambda>(s, t, m). s = gn_id n \<and> list_ex (\<lambda>x. gn_id x = m \<and> gn_location x = Some key) (visible_part allowed g))
          (visible_links allowed g))) ns"
    by (intro map_cong) simp_all
  show ?thesis unfolding link_rows_def by (subst eq) (rule refl)
qed

lemma link_rows_none: "link_rows g key [] = [(None, None, None)]"
  by (simp add: link_rows_def)

lemma detail_alike:
  assumes "regular_graph g" "regular_graph h" "alike_for allowed g h"
  shows "aggregate_detail_subgraph g cluster (Some allowed) False limit =
    aggregate_detail_subgraph h cluster (Some allowed) False limit"
proof -
  let ?key = "if CHR '':'' \<in> set cluster then after_colon cluster else cluster"
  let ?ns = "\<lambda>g. filter (\<lambda>n. at_key ?key n \<and> visible_item False allowed n) (gr_items g)"
  have ns: "?ns g = ?ns h"
    using assms(3) by (simp only: detail_items [OF assms(1)] detail_items [OF assms(2)] alike_for_def)
  have "link_rows g ?key (?ns g) = link_rows h ?key (?ns h)"
  proof (cases "?key \<in> set allowed")
    case True
    have "set (?ns f) \<subseteq> set (visible_part allowed f)" for f by (auto simp: visible_part_def)
    then show ?thesis
      using assms(3) ns by (simp only: link_rows_visible [OF assms(1) True] link_rows_visible [OF assms(2) True] alike_for_def)
  next
    case False
    then show ?thesis by (simp only: detail_items [OF assms(1)] detail_items [OF assms(2)] if_False link_rows_none)
  qed
  with ns show ?thesis by (simp add: aggregate_detail_subgraph_def Let_def)
qed

lemma overview_alike:
  "alike_for allowed g h \<Longrightarrow>
     aggregate_overview_clusters g (Some allowed) False = aggregate_overview_clusters h (Some allowed) False"
  by (simp add: aggregate_overview_clusters_def alike_for_def visible_part_def)



text \<open>Two graphs that differ only away from the location HQ.\<close>

definition demo_node :: "string \<Rightarrow> string \<Rightarrow> ci_node" where
  "demo_node i l = \<lparr>gn_id = i, gn_name = None, gn_labels = [''CI''], gn_layer = None, gn_location = Some l,
     gn_lat = Some (5 / 2), gn_long = Some 1, gn_events = [(''OPEN'', Some ''CRITICAL'')]\<rparr>"

definition demo_graph :: "string list \<Rightarrow> lod_graph" where
  "demo_graph hidden = \<lparr>gr_items = map (\<lambda>i. demo_node i ''Lab'') hidden @ [demo_node ''a'' ''HQ''],
     gr_links = map (\<lambda>i. (''a'', ''LINK'', i)) hidden\<rparr>"

definition demo_principal :: lod_principal where
  "demo_principal = \<lparr>lp_admin = False, lp_allowed = [''HQ''], lp_permissions = [], lp_regions = []\<rparr>"


subsection \<open>What the overview discloses\<close>

lemma tier_value: "0 \<le> v \<Longrightarrow> tier v = (if v < 5 then Geo_none else if v < 20 then Geo_region else Geo_city)"
  by (simp add: tier_def derive_safe_geo_precision_def default_minimum_count_def)

definition on_grid :: "nat \<Rightarrow> rat \<Rightarrow> bool" where
  "on_grid d x = (x * 10 ^ d = of_int \<lfloor>x * 10 ^ d\<rfloor>)"

lemma on_grid_round [simp]: "on_grid d (round_to d x)"
  by (simp add: on_grid_def round_to_def)

lemma on_grid_0 [simp]: "on_grid d 0"
  by (simp add: on_grid_def)

lemma fold_max_less: "fold max xs (0::int) < b \<longleftrightarrow> 0 < b \<and> list_all (\<lambda>x. x < b) xs"
proof -
  have "fold max xs a < b \<longleftrightarrow> a < b \<and> list_all (\<lambda>x. x < b) xs" for a
    by (induction xs arbitrary: a) auto
  then show ?thesis .
qed

lemma fold_max_nonneg: "0 \<le> fold max xs (0::int)"
proof -
  have "a \<le> fold max xs a" for a :: int
    by (induction xs arbitrary: a) (auto intro: order_trans [OF max.cobounded2])
  then show ?thesis .
qed

lemma overview_precision_cases:
  "overview_precision p cs = Geo_none \<longleftrightarrow> list_all (\<lambda>c. oc_nodes c < 5) cs"
  "overview_precision p cs = Geo_city \<Longrightarrow>
     has_breakdown_permission p \<and> list_ex (\<lambda>c. oc_nodes c \<ge> 20 \<and> region_in_breakdown_scope p (oc_label c)) cs"
  using tier_value [OF fold_max_nonneg, of "map oc_nodes cs"]
  by (auto simp: overview_precision_def fold_max_less list.pred_map comp_def default_minimum_count_def
      split: if_splits)

lemma round_cluster_same [simp]:
  "oc_nodes (round_cluster_centroid q c) = oc_nodes c" "oc_label (round_cluster_centroid q c) = oc_label c"
  "oc_redacted (round_cluster_centroid q c) = oc_redacted c" "oc_reason (round_cluster_centroid q c) = oc_reason c"
  "oc_critical (round_cluster_centroid q c) = oc_critical c" "oc_warning (round_cluster_centroid q c) = oc_warning c"
  "oc_events (round_cluster_centroid q c) = oc_events c" "oc_id (round_cluster_centroid q c) = oc_id c"
  by (simp_all add: round_cluster_centroid_def)

lemma shape_redacts:
  "oc_redacted (shape_cluster r 5) \<longleftrightarrow> oc_nodes (shape_cluster r 5) < 5"
  "oc_redacted (shape_cluster r 5) \<Longrightarrow>
     oc_critical (shape_cluster r 5) = 0 \<and> oc_warning (shape_cluster r 5) = 0 \<and> oc_events (shape_cluster r 5) = 0"
  by (simp_all add: shape_cluster_def Let_def)

lemma centroid_grid:
  "oc_redacted c \<or> q = Geo_none \<Longrightarrow> oc_lat (round_cluster_centroid q c) = 0 \<and> oc_long (round_cluster_centroid q c) = 0"
  "on_grid (if q = Geo_city then 4 else 2) (oc_lat (round_cluster_centroid q c)) \<and>
   on_grid (if q = Geo_city then 4 else 2) (oc_long (round_cluster_centroid q c))"
  by (cases q; simp add: round_cluster_centroid_def)+

definition disclosed_safely :: "geo_precision \<Rightarrow> overview_cluster \<Rightarrow> bool" where
  "disclosed_safely q c =
     ((oc_redacted c \<longleftrightarrow> oc_nodes c < 5) \<and>
      (oc_redacted c \<longrightarrow> oc_critical c = 0 \<and> oc_warning c = 0 \<and> oc_events c = 0 \<and> oc_lat c = 0 \<and> oc_long c = 0) \<and>
      (q = Geo_none \<longrightarrow> oc_lat c = 0 \<and> oc_long c = 0) \<and>
      on_grid (if q = Geo_city then 4 else 2) (oc_lat c) \<and> on_grid (if q = Geo_city then 4 else 2) (oc_long c))"

lemma overview_members:
  "c \<in> set (ov_clusters (get_overview g p)) \<Longrightarrow>
     \<exists>r. c = round_cluster_centroid (ov_precision (get_overview g p)) (shape_cluster r 5)"
  by (auto simp: get_overview_def Let_def default_minimum_count_def split: prod.splits)


lemma overview_unrounded:
  "\<exists>cs. ov_precision (get_overview g p) = overview_precision p cs \<and>
     ov_clusters (get_overview g p) = map (round_cluster_centroid (overview_precision p cs)) cs"
  by (auto simp: get_overview_def Let_def split: prod.splits)

text \<open>
  C21: What the overview gives away. A cluster is redacted exactly when it has fewer than five items,
  and then shows neither severities nor a position; no position is shown at all when every cluster
  is that small; positions are multiples of a hundredth of a degree, and of a ten-thousandth only
  for a user with the breakdown permission who sees a cluster of twenty items in scope.
\<close>

theorem overview_discloses_safely:
  "list_all (disclosed_safely (ov_precision (get_overview g p))) (ov_clusters (get_overview g p)) \<and>
   (ov_precision (get_overview g p) = Geo_none) = list_all (\<lambda>c. oc_nodes c < 5) (ov_clusters (get_overview g p)) \<and>
   \<not> (ov_precision (get_overview g p) = Geo_city \<and>
      \<not> (has_breakdown_permission p \<and>
         list_ex (\<lambda>c. oc_nodes c \<ge> 20 \<and> region_in_breakdown_scope p (oc_label c)) (ov_clusters (get_overview g p))))"
proof -
  obtain cs where cs: "ov_precision (get_overview g p) = overview_precision p cs"
    "ov_clusters (get_overview g p) = map (round_cluster_centroid (overview_precision p cs)) cs"
    using overview_unrounded by blast
  have "disclosed_safely q (round_cluster_centroid q (shape_cluster r 5))" for q r
    using shape_redacts [of r] centroid_grid [where q = q and c = "shape_cluster r 5"]
    by (auto simp: disclosed_safely_def)
  then have "list_all (disclosed_safely (ov_precision (get_overview g p))) (ov_clusters (get_overview g p))"
    unfolding list_all_iff using overview_members by metis
  then show ?thesis
    using overview_precision_cases [of p cs] cs(1)
    by (auto simp: cs(2) list.pred_map list_ex_iff comp_def)
qed


subsection \<open>The detail of a cluster of the overview\<close>

lemma aggregate_location_at:
  "rc_id (aggregate_location ns l) = ''location:'' @ text_or l unassigned_key"
  "rc_nodes (aggregate_location ns l) = int (length (filter (\<lambda>n. gn_location n = l) ns))"
  by (simp_all add: aggregate_location_def Let_def)

lemma overview_cluster_of:
  assumes "c \<in> set (ov_clusters (get_overview g p))" "\<not> lp_admin p"
  obtains l where "l \<in> set (lp_allowed p)" "oc_id c = ''location:'' @ l"
    "oc_nodes c = int (length (filter (\<lambda>n. gn_location n = Some l) (visible_part (lp_allowed p) g)))"
proof -
  from assms obtain r where r: "oc_id c = rc_id r" "oc_nodes c = rc_nodes r"
    "r \<in> set (aggregate_overview_clusters g (if lp_allowed p = [] then None else Some (lp_allowed p)) False)"
    by (auto simp: get_overview_def resolve_visible_set_def Let_def shape_cluster_def)
  then have "lp_allowed p \<noteq> []"
    by (auto simp: aggregate_overview_clusters_def)
  with r(3) obtain n where n: "n \<in> set (visible_part (lp_allowed p) g)"
    "r = aggregate_location (visible_part (lp_allowed p) g) (gn_location n)"
    by (auto simp: aggregate_overview_clusters_def visible_part_def Let_def)
  then obtain l where l: "gn_location n = Some l" "l \<in> set (lp_allowed p)"
    by (auto simp: visible_part_def visible_item_def split: option.splits)
  show thesis
    using that [OF l(2)] r(1,2) by (simp add: n(2) l(1) aggregate_location_at text_or_def)
qed

definition detail_count :: "graph_error + detail_view \<Rightarrow> int option" where
  "detail_count r = (case r of Inl _ \<Rightarrow> None | Inr v \<Rightarrow> map_option (\<lambda>(_, _, k, _). k) (dv_cluster v))"

lemma detail_count_of:
  assumes "regular_graph g" "\<not> lp_admin p" "lp_allowed p \<noteq> []" "valid_key key"
  shows "detail_count (get_detail cd secs fraction nonce g (Some (''location:'' @ key)) p filters None limit sensitive None) =
    Some (if key \<in> set (lp_allowed p)
          then int (length (filter (\<lambda>n. gn_location n = Some key) (visible_part (lp_allowed p) g))) else 0)"
proof -
  have raw: "''location:'' @ key = location_axis @ '':'' @ key" by (simp add: location_axis_def)
  have "after_colon (location_axis @ '':'' @ key) = key" "CHR '':'' \<in> set (location_axis @ '':'' @ key)"
    by (simp_all add: split_location)
  then show ?thesis
    unfolding raw using assms(2,3) detail_items [OF assms(1), of key "lp_allowed p"]
    by (simp add: get_detail_def parse_wire [OF assms(4), simplified] assert_axis_matches_def wire_def resolve_visible_set_def
        aggregate_detail_subgraph_def detail_count_def Let_def)
qed



subsection \<open>A cluster out of scope\<close>

text \<open>
  What is out of scope answers as an empty cluster, and with a link: for a user with some
  location, a well-formed identifier of a location out of scope answers with a cluster of no items
  and one link between two nodes called None, never with the absent cluster. Only a user without any
  location gets the absent cluster.
\<close>

theorem out_of_scope_view:
  assumes "regular_graph g" "\<not> lp_admin p" "valid_key key" "key \<notin> set (lp_allowed p)" "0 < limit"
  shows "\<exists>v. get_detail cd secs fraction nonce g (Some (''location:'' @ key)) p filters None limit sensitive None = Inr v \<and>
    dv_nodes v = [] \<and> \<not> dv_more v \<and>
    (if lp_allowed p = [] then dv_cluster v = None \<and> dv_links v = [] \<and> dv_empty v = ''hidden_absent''
     else dv_cluster v = Some (''location:'' @ key, if key = unassigned_key then ''Unassigned'' else key, 0, 1) \<and>
       dv_links v = [(''None'', ''None'', ''None'')] \<and> dv_empty v = ''none'')"
proof -
  have raw: "''location:'' @ key = location_axis @ '':'' @ key" by (simp add: location_axis_def)
  have key: "after_colon (location_axis @ '':'' @ key) = key" "CHR '':'' \<in> set (location_axis @ '':'' @ key)" "key \<noteq> []"
    using assms(3) by (simp_all add: split_location valid_key_def)
  have "filter (\<lambda>n. at_key key n \<and> visible_item False (lp_allowed p) n) (gr_items g) = []"
    using detail_items [OF assms(1), of key "lp_allowed p"] assms(4) by simp
  then show ?thesis
    unfolding raw using assms(2,5) key
    by (cases "lp_allowed p = []")
       (simp_all add: get_detail_def parse_wire [OF assms(3), simplified] assert_axis_matches_def wire_def resolve_visible_set_def
        aggregate_detail_subgraph_def link_rows_none non_blank_def shape_detail_link_def str_opt_def text_or_def
        Let_def take_Cons' split_location(2) [simplified])
qed

theorem out_of_scope_view_witness:
  "\<exists>v. get_detail (demo_codec []) 1700000000 ''.5'' ''n'' (demo_graph [''x'']) (Some (''location:'' @ ''Lab'')) demo_principal
     [] None 10 False None = Inr v \<and> dv_nodes v = [] \<and> \<not> dv_more v \<and> dv_links v = [(''None'', ''None'', ''None'')]"
proof -
  have "regular_graph (demo_graph [''x''])" "\<not> lp_admin demo_principal" "valid_key ''Lab''"
    "''Lab'' \<notin> set (lp_allowed demo_principal)" "(0::nat) < 10" "lp_allowed demo_principal \<noteq> []" by code_simp+
  then show ?thesis
    using out_of_scope_view [of "demo_graph [''x'']" demo_principal "''Lab''" 10 "demo_codec []" 1700000000 "''.5''" "''n''" "[]" False]
    by auto
qed

subsection \<open>Pages and revisions\<close>

lemma show_nat_snoc: "10 \<le> n \<Longrightarrow> show_nat n = show_nat (n div 10) @ [digit_char (n mod 10)]"
  by (subst show_nat.simps) simp

lemma ten_below: "10 ^ Suc k \<le> n \<Longrightarrow> 10 ^ k \<le> n div 10" "10 * 10 ^ k \<le> n \<Longrightarrow> (10::nat) \<le> n"
proof -
  show "10 ^ Suc k \<le> n \<Longrightarrow> 10 ^ k \<le> n div 10" by (simp add: less_eq_div_iff_mult_less_eq mult.commute)
  show "10 * 10 ^ k \<le> n \<Longrightarrow> (10::nat) \<le> n" using one_le_power [of "10::nat" k] by linarith
qed

lemma show_nat_prefix: "10 ^ k \<le> n \<Longrightarrow> \<exists>ds. show_nat n = show_nat (n div 10 ^ k) @ ds"
proof (induction k arbitrary: n)
  case (Suc k)
  then have "10 ^ k \<le> n div 10" "10 \<le> n" by (simp_all add: ten_below)
  with Suc.IH [of "n div 10"] show ?case
    by (auto simp: show_nat_snoc [of n] div_mult2_eq)
qed simp

lemma show_nat_long: "10 ^ k \<le> n \<Longrightarrow> k < length (show_nat n)"
proof (induction k arbitrary: n)
  case (Suc k)
  then have "10 ^ k \<le> n div 10" "10 \<le> n" by (simp_all add: ten_below)
  with Suc.IH [of "n div 10"] show ?case by (simp add: show_nat_snoc [of n])
qed simp

text \<open>Since 2001 the clock has ten digits; the first four change every million seconds.\<close>

lemma revision_coarse:
  assumes "10 ^ 9 \<le> s" "s div 10 ^ 6 = t div 10 ^ 6"
  shows "resolve_revision s f = resolve_revision t h"
proof -
  have head: "take 4 (show_int u @ z) = take 4 (show_nat (nat (u div 10 ^ 6)))" if u: "1000 \<le> u div 10 ^ 6" for u z
  proof -
    have n: "nat u div 10 ^ 6 = nat (u div 10 ^ 6)" "0 \<le> u"
      using u by (simp_all add: nat_div_distrib)
    moreover have "1000000 \<le> u" using u by (simp; linarith)
    ultimately have "10 ^ 6 \<le> nat u" "10 ^ 3 \<le> nat u div 10 ^ 6" using u by simp_all
    then obtain ds where "show_nat (nat u) = show_nat (nat (u div 10 ^ 6)) @ ds" "3 < length (show_nat (nat (u div 10 ^ 6)))"
      using show_nat_prefix [of 6 "nat u"] show_nat_long [of 3 "nat u div 10 ^ 6"] n(1) by auto
    with n(2) show ?thesis by (simp add: show_int_def)
  qed
  have "1000 \<le> s div 10 ^ 6" using assms(1) by (simp; linarith)
  with assms(2) show ?thesis unfolding resolve_revision_def by (simp only: head)
qed

abbreviation principal_digest :: "codec \<Rightarrow> lod_principal \<Rightarrow> string" where
  "principal_digest cd p \<equiv> derive_principal_hash cd (remdups (lp_permissions p))"

lemma next_cursor_accepted:
  assumes "get_detail cd s f nonce g (Some raw) p filters None limit sensitive axis = Inr v" "dv_next v = Some c"
    "parse_cluster_id (Some raw) = Inr k"
    "json_ok cd (cursor_payload cd (wire k) filters (resolve_revision s f) (principal_digest cd p) nonce)"
    "resolve_revision t h = resolve_revision s f"
  shows "\<exists>w. get_detail cd t h nonce' g (Some raw) p filters (Some c) limit sensitive axis = Inr w \<and>
    w\<lparr>dv_next := dv_next v\<rparr> = v"
proof -
  have k: "assert_axis_matches k axis = Inr ()"
    using assms(1) by (auto simp: get_detail_def bindR_eq_Inr assms(3))
  have c: "c = encode_cursor cd (wire k) filters (resolve_revision s f) (principal_digest cd p) nonce"
    using assms(1,2) by (auto simp: get_detail_def assms(3) k Let_def split: prod.splits option.splits if_splits)
  moreover have "c \<noteq> []"
    using encode_not_empty assms(4) by (simp add: c encode_cursor_def json_ok_def)
  ultimately show ?thesis
    using assms(1)
    by (auto simp: get_detail_def assms(3,5) k decode_encode [OF assms(4)] Let_def split: prod.splits option.splits)
qed

text \<open>
  The next page is the first page again. When an answer says that there is more, its cursor, sent
  back within the same million seconds by the same user for the same graph, is accepted, and the
  answer has the same items, links and totals; only the cursor it offers in turn differs, by its
  nonce. However often it is followed, no item past the first page is ever shown.
\<close>

theorem next_page_is_first:
  assumes "get_detail cd s f nonce g (Some raw) p filters None limit sensitive axis = Inr v" "dv_next v = Some c"
    "parse_cluster_id (Some raw) = Inr k"
    "json_ok cd (cursor_payload cd (wire k) filters (resolve_revision s f) (principal_digest cd p) nonce)"
    "10 ^ 9 \<le> s" "s div 10 ^ 6 = t div 10 ^ 6"
  shows "\<exists>w. get_detail cd t h nonce' g (Some raw) p filters (Some c) limit sensitive axis = Inr w \<and>
    w\<lparr>dv_next := dv_next v\<rparr> = v"
  by (rule next_cursor_accepted [OF assms(1-4) revision_coarse [OF assms(5,6), symmetric]])

text \<open>Two items at HQ, pages of one item, and a request ten minutes later.\<close>

definition demo_two :: lod_graph where
  "demo_two = \<lparr>gr_items = [demo_node ''a'' ''HQ'', demo_node ''b'' ''HQ''], gr_links = []\<rparr>"

theorem next_page_is_first_witness:
  "\<exists>cd c v w. get_detail cd 1700000000 ''.5'' ''n'' demo_two (Some ''location:HQ'') demo_principal [] None 1 False None = Inr v \<and>
     dv_next v = Some c \<and> dv_more v \<and>
     get_detail cd 1700000600 ''.25'' ''m'' demo_two (Some ''location:HQ'') demo_principal [] (Some c) 1 False None = Inr w \<and>
     dv_nodes w = dv_nodes v"
proof -
  let ?pay = "cursor_payload (demo_codec []) ''location:HQ'' [] (resolve_revision 1700000000 ''.5'') '''' ''n''"
  let ?cd = "demo_codec ?pay"
  obtain k where k: "parse_cluster_id (Some ''location:HQ'') = Inr k" "wire k = ''location:HQ''"
    "assert_axis_matches k None = Inr ()"
  proof -
    have "valid_key ''HQ''" by code_simp
    from parse_wire [OF this] have "parse_cluster_id (Some ''location:HQ'') = Inr \<lparr>ci_axis = location_axis, ci_key = ''HQ'',
        ci_normalized = lower ''HQ'', ci_display = (if ''HQ'' = unassigned_key then ''Unassigned'' else ''HQ'')\<rparr>"
      unfolding location_axis_def by simp
    then show thesis
      by (rule that) (simp_all add: location_axis_def wire_def assert_axis_matches_def)
  qed
  have digest: "principal_digest ?cd demo_principal = ''''" 
    by (simp add: demo_principal_def derive_principal_hash_def hash_prefix_def demo_codec_def)
  have pay: "cursor_payload ?cd ''location:HQ'' [] (resolve_revision 1700000000 ''.5'') '''' ''n'' = ?pay"
    by (simp add: cursor_payload_def derive_filters_hash_def hash_prefix_def demo_codec_def)
  have json: "json_ok ?cd (cursor_payload ?cd (wire k) [] (resolve_revision 1700000000 ''.5'') (principal_digest ?cd demo_principal) ''n'')"
    unfolding k(2) digest pay by (simp add: json_ok_def demo_codec_def)
  have page: "aggregate_detail_subgraph demo_two ''location:HQ'' (Some [''HQ'']) False 1 =
      Some \<lparr>rd_label = ''HQ'', rd_count = 2, rd_nodes = [demo_node ''a'' ''HQ''], rd_links = [(None, None, None)],
            rd_link_count = 1, rd_more = True\<rparr>" by code_simp
  obtain v c where v: "get_detail ?cd 1700000000 ''.5'' ''n'' demo_two (Some ''location:HQ'') demo_principal [] None 1 False None = Inr v"
    "dv_next v = Some c" "dv_more v"
    using page by (simp add: get_detail_def k resolve_visible_set_def demo_principal_def Let_def)
  have "(10::int) ^ 9 \<le> 1700000000" "1700000000 div 10 ^ 6 = (1700000600::int) div 10 ^ 6" by simp_all
  from next_page_is_first [OF v(1,2) k(1) json this, of "''.25''" "''m''"]
  obtain w where w: "get_detail ?cd 1700000600 ''.25'' ''m'' demo_two (Some ''location:HQ'') demo_principal [] (Some c) 1 False None = Inr w"
    "w\<lparr>dv_next := dv_next v\<rparr> = v" by blast
  from w(2) have "dv_nodes w = dv_nodes v" by (cases w; cases v) simp
  with v w show ?thesis by blast
qed

end
