(* ===== verification/Rate_Limit.thy ===== *)
theory Rate_Limit
  imports Py_Values
begin

section \<open>Login rate limiting (middleware/rate_limit.py)\<close>

text \<open>
  The persistent counter of failed authentication attempts and the lock it places on an
  identity. Every function of the module opens a database session of its own; here it takes the
  committed table and returns its result with the table it commits. The clock is an argument.
  The table has at most one row per pair of type and key (\<open>uq_rate_limit_identity\<close>).

  An HTTP error carries its status, its detail and its headers.
\<close>

datatype http_exc = HttpExc nat string "(string \<times> string) list"

record attempt_row =
  rl_key :: string
  rl_type :: string
  rl_count :: int
  rl_locked :: "instant option"
  rl_failed :: "instant option"
  rl_updated :: instant

record attempt_info =
  ai_count :: int
  ai_locked :: "instant option"

definition max_attempts :: int where
  "max_attempts = 3"

definition lockout_duration :: int where
  "lockout_duration = seconds (15 * 60)"

definition attempt_retention :: int where
  "attempt_retention = seconds (24 * 60 * 60)"

definition refresh_token_rate_limit_key :: "runtime \<Rightarrow> string \<Rightarrow> string" where
  "refresh_token_rate_limit_key rt tok = ''refresh:'' @ rt_sha rt tok"

definition stored_identity_key :: "string \<Rightarrow> string \<Rightarrow> string" where
  "stored_identity_key key typ =
     (if typ = ''refresh_token''
      then (if starts_with ''refresh:'' key then key else ''refresh:'' @ key)
      else if typ = ''username'' then ''user:'' @ key
      else typ @ '':'' @ key)"

definition attempt_expired :: "instant \<Rightarrow> attempt_row \<Rightarrow> bool" where
  "attempt_expired now r =
     (case rl_locked r of Some u \<Rightarrow> u \<le> now
      | None \<Rightarrow> rl_updated r < now - attempt_retention)"

definition prune_expired_attempts :: "instant \<Rightarrow> attempt_row list \<Rightarrow> attempt_row list" where
  "prune_expired_attempts now rows = delete_where (attempt_expired now) rows"

definition is_identity :: "string \<Rightarrow> string \<Rightarrow> attempt_row \<Rightarrow> bool" where
  "is_identity key typ r = (rl_key r = key \<and> rl_type r = typ)"

definition get_locked_attempt :: "attempt_row list \<Rightarrow> string \<Rightarrow> string \<Rightarrow> attempt_row option" where
  "get_locked_attempt rows key typ = find (is_identity key typ) rows"

text \<open>
  \<open>create_locked_attempt rows refused key typ now\<close>: the insert goes through
  (\<open>refused = None\<close>), or the unique constraint refuses it because another worker committed the
  same identity first: then the transaction rolls back and the row is read again from
  \<open>refused = Some base\<close>, the committed table of that moment.
\<close>

definition create_locked_attempt ::
  "attempt_row list \<Rightarrow> attempt_row list option \<Rightarrow> string \<Rightarrow> string \<Rightarrow> instant \<Rightarrow>
     (attempt_row \<times> attempt_row list) result" where
  "create_locked_attempt rows refused key typ now =
     (case refused of
        None \<Rightarrow>
          (let a = \<lparr>rl_key = key, rl_type = typ, rl_count = 0, rl_locked = None, rl_failed = None,
                    rl_updated = now\<rparr>
           in Inr (a, rows @ [a]))
      | Some base \<Rightarrow>
          (case get_locked_attempt base key typ of
             None \<Rightarrow> Inl (IntegrityError ''uq_rate_limit_identity'')
           | Some a \<Rightarrow> Inr (a, base)))"

definition get_attempt_info ::
  "instant \<Rightarrow> attempt_row list \<Rightarrow> string \<Rightarrow> string \<Rightarrow> attempt_info \<times> attempt_row list" where
  "get_attempt_info now rows key typ =
     (let rows' = prune_expired_attempts now rows
      in case get_locked_attempt rows' (stored_identity_key key typ) typ of
           None \<Rightarrow> (\<lparr>ai_count = 0, ai_locked = None\<rparr>, rows')
         | Some a \<Rightarrow> (\<lparr>ai_count = rl_count a, ai_locked = rl_locked a\<rparr>, rows'))"

text \<open>
  The part of \<open>increment_attempts\<close> that follows the choice of the row: a live lock is returned
  as it is, a lapsed one is cleared first, and the fourth failure locks.
\<close>

definition count_failure :: "instant \<Rightarrow> string \<Rightarrow> attempt_row \<Rightarrow> attempt_row" where
  "count_failure now typ a =
     (let b = (case rl_locked a of
                 Some u \<Rightarrow> if u \<le> now then a\<lparr>rl_count := 0, rl_locked := None\<rparr> else a
               | None \<Rightarrow> a);
          n = rl_count b + 1
      in b\<lparr>rl_count := n, rl_type := typ, rl_failed := Some now, rl_updated := now,
           rl_locked := (if n > max_attempts then Some (now + lockout_duration) else None)\<rparr>)"

definition live_lock :: "instant \<Rightarrow> attempt_row \<Rightarrow> bool" where
  "live_lock now a = (case rl_locked a of Some u \<Rightarrow> u > now | None \<Rightarrow> False)"

definition increment_attempts ::
  "instant \<Rightarrow> attempt_row list option \<Rightarrow> attempt_row list \<Rightarrow> string \<Rightarrow> string \<Rightarrow>
     (attempt_info \<times> attempt_row list) result" where
  "increment_attempts now refused rows key typ =
     (let rows' = prune_expired_attempts now rows;
          k = stored_identity_key key typ
      in bindR (case get_locked_attempt rows' k typ of
                  Some a \<Rightarrow> Inr (a, rows')
                | None \<Rightarrow> create_locked_attempt rows' refused k typ now)
         (\<lambda>(a, work).
            if live_lock now a
            then Inr (\<lparr>ai_count = rl_count a, ai_locked = rl_locked a\<rparr>, work)
            else (let b = count_failure now typ a
                  in Inr (\<lparr>ai_count = rl_count b, ai_locked = rl_locked b\<rparr>,
                          update_where (is_identity k typ) (count_failure now typ) work))))"

definition clear_attempts :: "attempt_row list \<Rightarrow> string \<Rightarrow> string \<Rightarrow> attempt_row list" where
  "clear_attempts rows key typ = delete_where (is_identity (stored_identity_key key typ) typ) rows"

definition is_locked ::
  "instant \<Rightarrow> attempt_row list \<Rightarrow> string \<Rightarrow> string \<Rightarrow> (bool \<times> int option) \<times> attempt_row list" where
  "is_locked now rows key typ =
     (let rows' = prune_expired_attempts now rows;
          k = stored_identity_key key typ
      in case get_locked_attempt rows' k typ of
           None \<Rightarrow> ((False, None), rows')
         | Some a \<Rightarrow>
             (case rl_locked a of
                None \<Rightarrow> ((False, None), rows')
              | Some u \<Rightarrow>
                  if u \<le> now then ((False, None), delete_where (is_identity k typ) rows')
                  else ((True, Some (whole_seconds (u - now))), rows')))"

definition too_many :: "int \<Rightarrow> http_exc" where
  "too_many n = HttpExc 429 ''Too many failed login attempts. Account temporarily locked.''
                  [(''Retry-After'', show_int n)]"

definition raise_rate_limit_locked :: "instant \<Rightarrow> instant \<Rightarrow> http_exc" where
  "raise_rate_limit_locked now until = too_many (max 1 (whole_seconds (until - now)))"

definition check_rate_limit ::
  "instant \<Rightarrow> attempt_row list \<Rightarrow> string \<Rightarrow> string \<Rightarrow> (http_exc + unit) \<times> attempt_row list" where
  "check_rate_limit now rows key typ =
     (let ((locked, retry_after), rows') = is_locked now rows key typ
      in if locked
         then (Inl (too_many (max 1 (case retry_after of Some n \<Rightarrow> if n = 0 then 1 else n | None \<Rightarrow> 1))),
               rows')
         else (Inr (), rows'))"

subsection \<open>The operations, and what an identity sees of them\<close>

text \<open>
  Other workers and other identities share the table. A run is a sequence of operations at the
  instants of the clock; \<open>lookup\<close> is what one identity's row amounts to at an instant: an
  expired row is no row, since every reader prunes first.
\<close>

datatype limit_op =
    Failure string string
  | Success string string
  | Check string string
  | Inspect string string

definition limit_step :: "instant \<Rightarrow> limit_op \<Rightarrow> attempt_row list \<Rightarrow> attempt_row list" where
  "limit_step now op rows =
     (case op of
        Failure k t \<Rightarrow> (case increment_attempts now None rows k t of
                          Inr (_, rows') \<Rightarrow> rows' | Inl _ \<Rightarrow> rows)
      | Success k t \<Rightarrow> clear_attempts rows k t
      | Check k t \<Rightarrow> snd (check_rate_limit now rows k t)
      | Inspect k t \<Rightarrow> snd (get_attempt_info now rows k t))"

fun limit_run :: "(instant \<times> limit_op) list \<Rightarrow> attempt_row list \<Rightarrow> attempt_row list" where
  "limit_run [] rows = rows"
| "limit_run ((now, op) # ops) rows = limit_run ops (limit_step now op rows)"

text \<open>
  The abstract machine of one identity: nothing recorded, some failures with the instant of the
  last one, or locked until an instant.
\<close>

datatype lock_state = Clean | Failing int instant | Locked int instant

definition view :: "instant \<Rightarrow> attempt_row list \<Rightarrow> string \<Rightarrow> string \<Rightarrow> lock_state" where
  "view now rows k t =
     (case get_locked_attempt (prune_expired_attempts now rows) k t of
        None \<Rightarrow> Clean
      | Some a \<Rightarrow> (case rl_locked a of None \<Rightarrow> Failing (rl_count a) (rl_updated a)
                                    | Some u \<Rightarrow> Locked (rl_count a) u))"

fun lapse :: "instant \<Rightarrow> lock_state \<Rightarrow> lock_state" where
  "lapse now Clean = Clean"
| "lapse now (Failing n since) = (if since < now - attempt_retention then Clean else Failing n since)"
| "lapse now (Locked n until) = (if until \<le> now then Clean else Locked n until)"

definition another_failure :: "instant \<Rightarrow> int \<Rightarrow> lock_state" where
  "another_failure now n = (if n > max_attempts then Locked n (now + lockout_duration) else Failing n now)"

fun fail_state :: "instant \<Rightarrow> lock_state \<Rightarrow> lock_state" where
  "fail_state now Clean = another_failure now 1"
| "fail_state now (Failing n since) = another_failure now (n + 1)"
| "fail_state now (Locked n until) = Locked n until"

definition spec_step :: "string \<Rightarrow> string \<Rightarrow> instant \<Rightarrow> limit_op \<Rightarrow> lock_state \<Rightarrow> lock_state" where
  "spec_step k t now op s =
     (case op of
        Failure key typ \<Rightarrow>
          if stored_identity_key key typ = k \<and> typ = t then fail_state now (lapse now s) else s
      | Success key typ \<Rightarrow> if stored_identity_key key typ = k \<and> typ = t then Clean else s
      | _ \<Rightarrow> s)"

fun spec_run :: "string \<Rightarrow> string \<Rightarrow> (instant \<times> limit_op) list \<Rightarrow> lock_state \<Rightarrow> lock_state" where
  "spec_run k t [] s = s"
| "spec_run k t ((now, op) # ops) s = spec_run k t ops (spec_step k t now op s)"


subsection \<open>Rows and what they stand for\<close>

definition row_state :: "attempt_row option \<Rightarrow> lock_state" where
  "row_state r = (case r of None \<Rightarrow> Clean
     | Some a \<Rightarrow> (case rl_locked a of None \<Rightarrow> Failing (rl_count a) (rl_updated a)
                                  | Some u \<Rightarrow> Locked (rl_count a) u))"

abbreviation identities :: "attempt_row list \<Rightarrow> (string \<times> string) list" where
  "identities rows \<equiv> map (\<lambda>r. (rl_key r, rl_type r)) rows"

abbreviation seen :: "attempt_row list \<Rightarrow> string \<Rightarrow> string \<Rightarrow> lock_state" where
  "seen rows k t \<equiv> row_state (get_locked_attempt rows k t)"

lemma get_none: "(k, t) \<notin> set (identities rows) \<Longrightarrow> get_locked_attempt rows k t = None"
  by (auto simp: get_locked_attempt_def is_identity_def find_None_iff)

lemma get_some: "get_locked_attempt rows k t = Some a \<Longrightarrow> a \<in> set rows \<and> rl_key a = k \<and> rl_type a = t"
  by (auto simp: get_locked_attempt_def is_identity_def find_Some_iff)

lemma get_filter:
  "distinct (identities rows) \<Longrightarrow>
     get_locked_attempt (filter Q rows) k t =
       (case get_locked_attempt rows k t of None \<Rightarrow> None | Some a \<Rightarrow> if Q a then Some a else None)"
proof (induction rows)
  case Nil
  then show ?case by (simp add: get_locked_attempt_def)
next
  case (Cons r rows)
  show ?case
  proof (cases "is_identity k t r")
    case True
    with Cons.prems have "(k, t) \<notin> set (identities (filter Q rows))"
      by (auto simp: is_identity_def)
    then have "get_locked_attempt (filter Q rows) k t = None" by (rule get_none)
    with True show ?thesis by (simp add: get_locked_attempt_def)
  next
    case False
    then show ?thesis using Cons by (simp add: get_locked_attempt_def)
  qed
qed

lemma get_update:
  "(\<And>r. is_identity k t r \<Longrightarrow> is_identity k t (f r)) \<Longrightarrow>
     get_locked_attempt (update_where (is_identity k t) f rows) k' t' =
       map_option (\<lambda>a. if (k', t') = (k, t) then f a else a) (get_locked_attempt rows k' t')"
  by (induction rows) (auto simp: get_locked_attempt_def update_where_def is_identity_def)

lemma get_append:
  "get_locked_attempt (rows @ [a]) k t =
     (case get_locked_attempt rows k t of Some b \<Rightarrow> Some b
      | None \<Rightarrow> if is_identity k t a then Some a else None)"
  by (induction rows) (auto simp: get_locked_attempt_def)

lemma expired_lapse: "row_state (Some a) = s \<Longrightarrow>
    lapse now s = (if attempt_expired now a then Clean else s)"
  by (cases "rl_locked a") (auto simp: row_state_def attempt_expired_def)

lemma seen_pruned:
  "distinct (identities rows) \<Longrightarrow> seen (prune_expired_attempts now rows) k t = lapse now (seen rows k t)"
  unfolding prune_expired_attempts_def delete_where_def
  by (simp add: get_filter expired_lapse [OF refl] split: option.split) (simp add: row_state_def)

lemma view_seen: "distinct (identities rows) \<Longrightarrow> view now rows k t = lapse now (seen rows k t)"
  by (simp add: seen_pruned [symmetric]) (simp add: view_def row_state_def)

lemma distinct_pruned: "distinct (identities rows) \<Longrightarrow> distinct (identities (prune_expired_attempts now rows))"
  by (simp add: prune_expired_attempts_def delete_where_def distinct_map_filter)

lemma lapse_lapse: "a \<le> b \<Longrightarrow> lapse b (lapse a s) = lapse b s"
  by (cases s) auto

lemma lapse_fail: "lapse now (fail_state now (lapse now s)) = fail_state now (lapse now s)"
  by (cases s) (auto simp: another_failure_def attempt_retention_def lockout_duration_def seconds_def)


lemma count_failure_identity: "is_identity k t r \<Longrightarrow> is_identity k t (count_failure now t r)"
  by (auto simp: is_identity_def count_failure_def Let_def split: option.split)

lemma count_failure_state:
  "\<not> attempt_expired now a \<Longrightarrow> \<not> live_lock now a \<Longrightarrow>
     row_state (Some (count_failure now t a)) = fail_state now (row_state (Some a))"
  by (auto simp: count_failure_def live_lock_def attempt_expired_def row_state_def
        another_failure_def Let_def split: option.splits)

lemma live_lock_state: "live_lock now a \<Longrightarrow> fail_state now (row_state (Some a)) = row_state (Some a)"
  by (auto simp: live_lock_def row_state_def split: option.splits)

lemma distinct_failure:
  assumes "distinct (identities rows)"
  shows "distinct (identities (update_where (is_identity k t) (count_failure now t) rows))"
proof -
  have "identities (update_where (is_identity k t) (count_failure now t) rows) = identities rows"
    by (rule update_where_keys_on)
       (auto simp: is_identity_def count_failure_def Let_def split: option.split)
  with assms show ?thesis by simp
qed

text \<open>The row the failure is counted on, and the table it is counted in.\<close>

definition counted_row ::
  "instant \<Rightarrow> attempt_row list \<Rightarrow> string \<Rightarrow> string \<Rightarrow> attempt_row \<times> attempt_row list" where
  "counted_row now rows k typ =
     (let rows' = prune_expired_attempts now rows;
          fresh = \<lparr>rl_key = k, rl_type = typ, rl_count = 0, rl_locked = None, rl_failed = None,
                   rl_updated = now\<rparr>
      in case get_locked_attempt rows' k typ of
           Some a \<Rightarrow> (a, rows') | None \<Rightarrow> (fresh, rows' @ [fresh]))"

lemma increment_counted:
  "increment_attempts now None rows key typ =
     (let k = stored_identity_key key typ; (a, work) = counted_row now rows k typ
      in if live_lock now a then Inr (\<lparr>ai_count = rl_count a, ai_locked = rl_locked a\<rparr>, work)
         else Inr (\<lparr>ai_count = rl_count (count_failure now typ a),
                    ai_locked = rl_locked (count_failure now typ a)\<rparr>,
                   update_where (is_identity k typ) (count_failure now typ) work))"
  by (simp add: increment_attempts_def counted_row_def create_locked_attempt_def Let_def
      split: option.split)

lemma counted_row_facts:
  assumes d: "distinct (identities rows)" and c: "counted_row now rows k typ = (a, work)"
  shows "distinct (identities work)" "get_locked_attempt work k typ = Some a" "\<not> attempt_expired now a"
    "fail_state now (row_state (Some a)) = fail_state now (lapse now (seen rows k typ))"
    "(k', t') \<noteq> (k, typ) \<Longrightarrow> seen work k' t' = lapse now (seen rows k' t')"
proof -
  let ?P = "prune_expired_attempts now rows"
  have dP: "distinct (identities ?P)" using d by (rule distinct_pruned)
  have seenP: "seen ?P j u = lapse now (seen rows j u)" for j u using d by (rule seen_pruned)
  have "distinct (identities work) \<and> get_locked_attempt work k typ = Some a \<and> \<not> attempt_expired now a \<and>
    fail_state now (row_state (Some a)) = fail_state now (lapse now (seen rows k typ)) \<and>
    ((k', t') \<noteq> (k, typ) \<longrightarrow> seen work k' t' = lapse now (seen rows k' t'))"
  proof (cases "get_locked_attempt ?P k typ")
    case None
    have absent: "(k, typ) \<notin> set (identities ?P)"
      using None by (auto simp: get_locked_attempt_def is_identity_def find_None_iff)
    show ?thesis using None c dP absent seenP [symmetric]
      by (auto simp: counted_row_def Let_def get_append is_identity_def row_state_def
          attempt_expired_def attempt_retention_def seconds_def another_failure_def split: option.split)
  next
    case (Some b)
    then have "b \<in> set ?P" using get_some by blast
    then have "\<not> attempt_expired now b" by (simp add: prune_expired_attempts_def delete_where_def)
    then show ?thesis using Some c dP seenP [symmetric] by (auto simp: counted_row_def Let_def)
  qed
  then show "distinct (identities work)" "get_locked_attempt work k typ = Some a" "\<not> attempt_expired now a"
    "fail_state now (row_state (Some a)) = fail_state now (lapse now (seen rows k typ))"
    "(k', t') \<noteq> (k, typ) \<Longrightarrow> seen work k' t' = lapse now (seen rows k' t')"
    by blast+
qed

definition info_of :: "lock_state \<Rightarrow> attempt_info" where
  "info_of s = (case s of Clean \<Rightarrow> \<lparr>ai_count = 0, ai_locked = None\<rparr>
     | Failing n since \<Rightarrow> \<lparr>ai_count = n, ai_locked = None\<rparr>
     | Locked n until \<Rightarrow> \<lparr>ai_count = n, ai_locked = Some until\<rparr>)"

lemma info_row: "info_of (row_state (Some a)) = \<lparr>ai_count = rl_count a, ai_locked = rl_locked a\<rparr>"
  by (simp add: info_of_def row_state_def split: option.split)

text \<open>What a recorded failure leaves and answers.\<close>

lemma increment_seen:
  assumes d: "distinct (identities rows)"
  obtains rows' where
    "increment_attempts now None rows key typ =
       Inr (info_of (fail_state now (lapse now (seen rows (stored_identity_key key typ) typ))), rows')"
    "distinct (identities rows')"
    "\<And>k t. seen rows' k t =
      (if stored_identity_key key typ = k \<and> typ = t then fail_state now (lapse now (seen rows k t))
       else lapse now (seen rows k t))"
proof -
  let ?k = "stored_identity_key key typ"
  obtain a work where c: "counted_row now rows ?k typ = (a, work)" by force
  note facts = counted_row_facts [OF d c]
  show thesis
  proof (cases "live_lock now a")
    case True
    show thesis
    proof (rule that)
      show "increment_attempts now None rows key typ =
          Inr (info_of (fail_state now (lapse now (seen rows ?k typ))), work)"
        using True by (simp add: increment_counted c facts(4) [symmetric] live_lock_state info_row)
      show "distinct (identities work)" by (rule facts(1))
      show "seen work k t = (if ?k = k \<and> typ = t then fail_state now (lapse now (seen rows k t))
           else lapse now (seen rows k t))" for k t
        using True facts(2,4) facts(5) [of k t] by (auto simp: live_lock_state)
    qed
  next
    case False
    note counted = count_failure_state [OF facts(3) False]
    show thesis
    proof (rule that)
      show "increment_attempts now None rows key typ =
          Inr (info_of (fail_state now (lapse now (seen rows ?k typ))),
               update_where (is_identity ?k typ) (count_failure now typ) work)"
        using False
        by (simp add: increment_counted c counted [of "typ", symmetric] facts(4) [symmetric] info_row)
      show "distinct (identities (update_where (is_identity ?k typ) (count_failure now typ) work))"
        using facts(1) by (rule distinct_failure)
      show "seen (update_where (is_identity ?k typ) (count_failure now typ) work) k t =
          (if ?k = k \<and> typ = t then fail_state now (lapse now (seen rows k t))
           else lapse now (seen rows k t))" for k t
        using facts(2,4) facts(5) [of k t] counted [of "typ"]
        by (auto simp: get_update count_failure_identity option.map_ident)
    qed
  qed
qed


lemma live_after_prune:
  "get_locked_attempt (prune_expired_attempts now rows) k t = Some a \<Longrightarrow> \<not> attempt_expired now a"
  using get_some by (fastforce simp: prune_expired_attempts_def delete_where_def)

lemma is_locked_state:
  assumes d: "distinct (identities rows)"
  shows "is_locked now rows key typ =
    ((case lapse now (seen rows (stored_identity_key key typ) typ) of
        Locked n until \<Rightarrow> (True, Some (whole_seconds (until - now))) | _ \<Rightarrow> (False, None)),
     prune_expired_attempts now rows)"
proof (cases "get_locked_attempt (prune_expired_attempts now rows) (stored_identity_key key typ) typ")
  case None
  then show ?thesis
    by (simp add: seen_pruned [OF d, symmetric]) (simp add: is_locked_def row_state_def)
next
  case (Some a)
  have "\<not> attempt_expired now a" by (rule live_after_prune [OF Some])
  with Some show ?thesis
    by (simp add: seen_pruned [OF d, symmetric])
      (auto simp: is_locked_def row_state_def attempt_expired_def split: option.splits)
qed

lemma check_rate_limit_state:
  assumes d: "distinct (identities rows)"
  shows "check_rate_limit now rows key typ =
    ((case lapse now (seen rows (stored_identity_key key typ) typ) of
        Locked n until \<Rightarrow> Inl (too_many (max 1 (whole_seconds (until - now)))) | _ \<Rightarrow> Inr ()),
     prune_expired_attempts now rows)"
  by (auto simp: check_rate_limit_def is_locked_state [OF d] split: lock_state.split)

lemma attempt_info_state:
  assumes d: "distinct (identities rows)"
  shows "get_attempt_info now rows key typ =
    (info_of (lapse now (seen rows (stored_identity_key key typ) typ)), prune_expired_attempts now rows)"
  by (simp add: seen_pruned [OF d, symmetric])
    (simp add: get_attempt_info_def info_row row_state_def info_of_def split: option.split)

lemma clear_seen:
  assumes d: "distinct (identities rows)"
  shows "seen (clear_attempts rows key typ) k t =
     (if stored_identity_key key typ = k \<and> typ = t then Clean else seen rows k t)"
  using get_some [of rows k t]
  by (auto simp: clear_attempts_def delete_where_def get_filter [OF d] is_identity_def row_state_def
      split: option.split)

lemma distinct_clear:
  "distinct (identities rows) \<Longrightarrow> distinct (identities (clear_attempts rows key typ))"
  by (simp add: clear_attempts_def delete_where_def distinct_map_filter)

lemmas limit_states = is_locked_state check_rate_limit_state attempt_info_state

lemma limit_step_seen:
  assumes d: "distinct (identities rows)" and later: "t0 \<le> now"
    and same: "lapse t0 (seen rows k t) = lapse t0 s"
  shows "distinct (identities (limit_step now op rows)) \<and>
    lapse now (seen (limit_step now op rows) k t) = lapse now (spec_step k t now op s)"
proof -
  have now_same: "lapse now (seen rows k t) = lapse now s"
    using same lapse_lapse [OF later] by metis
  show ?thesis
  proof (cases op)
    case (Failure key ty)
    from increment_seen [OF d, of now key ty] obtain rows' where
      inc: "increment_attempts now None rows key ty =
        Inr (info_of (fail_state now (lapse now (seen rows (stored_identity_key key ty) ty))), rows')"
      and d': "distinct (identities rows')"
      and seen': "seen rows' k t =
        (if stored_identity_key key ty = k \<and> ty = t then fail_state now (lapse now (seen rows k t))
         else lapse now (seen rows k t))" by blast
    then show ?thesis
      by (auto simp: limit_step_def spec_step_def Failure now_same lapse_lapse)
  next
    case (Success key ty)
    then show ?thesis
      by (auto simp: limit_step_def spec_step_def clear_seen [OF d] distinct_clear d now_same)
  next
    case (Check key ty)
    then show ?thesis
      by (simp add: limit_step_def spec_step_def limit_states d distinct_pruned seen_pruned lapse_lapse now_same)
  next
    case (Inspect key ty)
    then show ?thesis
      by (simp add: limit_step_def spec_step_def limit_states d distinct_pruned seen_pruned lapse_lapse now_same)
  qed
qed

lemma limit_run_seen:
  assumes "distinct (identities rows)" "sorted (t0 # map fst ops @ [end_time])"
    "lapse t0 (seen rows k t) = lapse t0 s"
  shows "distinct (identities (limit_run ops rows)) \<and>
    lapse end_time (seen (limit_run ops rows) k t) = lapse end_time (spec_run k t ops s)"
  using assms
proof (induction ops arbitrary: rows t0 s)
  case Nil
  then show ?case by (simp, metis lapse_lapse)
next
  case (Cons x ops)
  obtain now op where x: "x = (now, op)" by force
  with Cons.prems have "t0 \<le> now" by simp
  from limit_step_seen [OF Cons.prems(1) this Cons.prems(3), of op]
  have step: "distinct (identities (limit_step now op rows))"
    "lapse now (seen (limit_step now op rows) k t) = lapse now (spec_step k t now op s)" by auto
  from Cons.prems x have "sorted (now # map fst ops @ [end_time])" by simp
  from Cons.IH [OF step(1) this step(2)] show ?case by (simp add: x)
qed

subsection \<open>Each identity has a lock of its own\<close>

text \<open>
  C15: The shared table implements, for every identity, a private machine that counts failures
  and locks. However the failures, successes and checks of other users and other identity types
  are interleaved, what an identity sees at any later instant is what its own operations give:
  nobody locks, unlocks or resets another identity, the opportunistic pruning removes nothing an
  identity still depends on, and the fourth failure in a row (no day without one) locks for
  fifteen minutes, a lock that failures during it do not extend.
\<close>

theorem limiter_refines:
  assumes "distinct (identities rows)" and "sorted (start # map fst ops @ [end_time])"
  shows "view end_time (limit_run ops rows) k t =
    lapse end_time (spec_run k t ops (view start rows k t))"
proof -
  have "lapse start (seen rows k t) = lapse start (view start rows k t)"
    by (simp add: view_seen [OF assms(1)] lapse_lapse)
  from limit_run_seen [OF assms this] show ?thesis by (simp add: view_seen)
qed

theorem limiter_refines_witness:
  "view (seconds 30) (limit_run
      [(seconds 1, Failure ''ana'' ''username''), (seconds 2, Failure ''bo'' ''username''),
       (seconds 3, Failure ''ana'' ''username''), (seconds 4, Success ''bo'' ''username''),
       (seconds 5, Failure ''ana'' ''username''), (seconds 6, Failure ''ana'' ''username''),
       (seconds 7, Failure ''ana'' ''username'')] []) ''user:ana'' ''username'' =
     Locked 4 (seconds 906)"
  by (subst limiter_refines [where start = 0]) (simp, simp add: seconds_def, code_simp)

end
