(* ===== verification/Session_Policy.thy ===== *)
theory Session_Policy
  imports Py_Values
begin

section \<open>Session policies (services/session_policy.py)\<close>

text \<open>
  Which session policy a user gets. The environment (\<open>os.getenv\<close>) is a function from names to
  texts; every policy is read from it anew at each call, as the code does.
\<close>

type_synonym environ = "string \<Rightarrow> string option"

record session_policy =
  sp_profile :: string
  sp_access_token_minutes :: int
  sp_refresh_token_days :: int
  sp_idle_timeout_minutes :: "int option"
  sp_stale_rotation_grace_seconds :: int
  sp_stale_rotation_max_recoveries :: int
  sp_persistent :: bool

definition parse_bool_env :: "string option \<Rightarrow> bool \<Rightarrow> bool" where
  "parse_bool_env v dflt = (case v of None \<Rightarrow> dflt
     | Some s \<Rightarrow> lower (strip s) \<in> {''1'', ''true'', ''yes'', ''on'', ''enabled'', ''enable''})"

definition parse_csv_tokens :: "string option \<Rightarrow> string list" where
  "parse_csv_tokens v = (case v of None \<Rightarrow> []
     | Some s \<Rightarrow>
         if s = [] then []
         else map lower (filter (\<lambda>t. t \<noteq> []) (map strip (split_on (CHR '','') s))))"

definition parse_int_env :: "string option \<Rightarrow> int \<Rightarrow> int" where
  "parse_int_env v dflt = (case v of None \<Rightarrow> dflt
     | Some s \<Rightarrow> (case parse_int (strip s) of None \<Rightarrow> dflt | Some n \<Rightarrow> if n > 0 then n else dflt))"

definition get_stale_recovery_grace_seconds :: "environ \<Rightarrow> int" where
  "get_stale_recovery_grace_seconds env = parse_int_env (env ''SESSION_STALE_ROTATION_GRACE_SECONDS'') 30"

definition get_stale_recovery_max_recoveries :: "environ \<Rightarrow> int" where
  "get_stale_recovery_max_recoveries env = parse_int_env (env ''SESSION_STALE_ROTATION_MAX_RECOVERIES'') 3"

definition get_standard_session_policy :: "environ \<Rightarrow> session_policy" where
  "get_standard_session_policy env =
     \<lparr>sp_profile = ''standard'',
      sp_access_token_minutes = parse_int_env (env ''SESSION_STANDARD_ACCESS_MINUTES'') 15,
      sp_refresh_token_days = parse_int_env (env ''SESSION_STANDARD_REFRESH_DAYS'') 7,
      sp_idle_timeout_minutes = Some (parse_int_env (env ''SESSION_STANDARD_IDLE_TIMEOUT_MINUTES'') 15),
      sp_stale_rotation_grace_seconds = get_stale_recovery_grace_seconds env,
      sp_stale_rotation_max_recoveries = get_stale_recovery_max_recoveries env,
      sp_persistent = False\<rparr>"

definition get_operational_session_policy :: "environ \<Rightarrow> session_policy" where
  "get_operational_session_policy env =
     \<lparr>sp_profile = ''operational'',
      sp_access_token_minutes = parse_int_env (env ''SESSION_OPERATIONAL_ACCESS_MINUTES'') 15,
      sp_refresh_token_days = parse_int_env (env ''SESSION_OPERATIONAL_REFRESH_DAYS'') 30,
      sp_idle_timeout_minutes = None,
      sp_stale_rotation_grace_seconds = get_stale_recovery_grace_seconds env,
      sp_stale_rotation_max_recoveries = get_stale_recovery_max_recoveries env,
      sp_persistent = True\<rparr>"

text \<open>A role arrives as nothing, as an enum member with its value, or as text.\<close>

datatype role_arg = No_role | Enum_role string | Text_role string

definition normalize_user_role :: "role_arg \<Rightarrow> string" where
  "normalize_user_role r =
     (case r of No_role \<Rightarrow> ''''
      | Enum_role v \<Rightarrow> upper (last (split_on (CHR ''.'') (strip v)))
      | Text_role v \<Rightarrow> upper (last (split_on (CHR ''.'') (strip v))))"

definition normalize_username :: "string option \<Rightarrow> string" where
  "normalize_username u = (case u of None \<Rightarrow> '''' | Some s \<Rightarrow> lower (strip s))"

definition get_session_policy_by_profile :: "environ \<Rightarrow> string option \<Rightarrow> session_policy" where
  "get_session_policy_by_profile env profile =
     (if lower (strip (case profile of None \<Rightarrow> '''' | Some p \<Rightarrow> p)) = ''operational''
      then get_operational_session_policy env else get_standard_session_policy env)"

definition get_session_activity_write_throttle_seconds :: "environ \<Rightarrow> int" where
  "get_session_activity_write_throttle_seconds env =
     parse_int_env (env ''SESSION_ACTIVITY_WRITE_THROTTLE_SECONDS'') 60"

definition resolve_session_policy :: "environ \<Rightarrow> string option \<Rightarrow> role_arg \<Rightarrow> session_policy" where
  "resolve_session_policy env name role =
     (if \<not> parse_bool_env (env ''SESSION_OPERATIONAL_ENABLED'') False
      then get_standard_session_policy env
      else
        let roles = parse_csv_tokens (env ''SESSION_OPERATIONAL_ROLES'');
            users = parse_csv_tokens (env ''SESSION_OPERATIONAL_USERS'');
            username = normalize_username name;
            r = normalize_user_role role
        in if username \<noteq> '''' \<and> username \<in> set users then get_operational_session_policy env
           else if r \<noteq> '''' \<and> lower r \<in> set roles then get_operational_session_policy env
           else get_standard_session_policy env)"

definition session_policy_cookie_max_age_seconds :: "session_policy \<Rightarrow> int" where
  "session_policy_cookie_max_age_seconds p = max (sp_refresh_token_days p) 1 * 24 * 60 * 60"

definition access_token_max_age_seconds :: "session_policy \<Rightarrow> int" where
  "access_token_max_age_seconds p = max (sp_access_token_minutes p) 1 * 60"

subsection \<open>Every policy is usable\<close>

lemma parse_int_env_pos: "0 < dflt \<Longrightarrow> 0 < parse_int_env v dflt"
  by (simp add: parse_int_env_def split: option.split)

lemma grace_pos: "0 < get_stale_recovery_grace_seconds env"
  by (simp add: get_stale_recovery_grace_seconds_def parse_int_env_pos)

lemma recoveries_pos: "0 < get_stale_recovery_max_recoveries env"
  by (simp add: get_stale_recovery_max_recoveries_def parse_int_env_pos)

lemma resolve_cases:
  "resolve_session_policy env u r = get_standard_session_policy env \<or>
   resolve_session_policy env u r = get_operational_session_policy env"
  by (simp add: resolve_session_policy_def Let_def)

lemma policy_recoveries:
  "sp_stale_rotation_max_recoveries (resolve_session_policy env u r) = get_stale_recovery_max_recoveries env"
  "sp_stale_rotation_max_recoveries (get_session_policy_by_profile env p) = get_stale_recovery_max_recoveries env"
  using resolve_cases [of env u r]
  by (auto simp: get_session_policy_by_profile_def get_standard_session_policy_def
      get_operational_session_policy_def)

text \<open>The profile stored with a token resolves to the policy it was issued under.\<close>

lemma policy_roundtrip:
  "get_session_policy_by_profile env (Some (sp_profile (resolve_session_policy env u r))) =
     resolve_session_policy env u r"
proof -
  have "lower (strip ''standard'') \<noteq> ''operational''" "lower (strip ''operational'') = ''operational''"
    by code_simp+
  with resolve_cases [of env u r] show ?thesis
    by (auto simp: get_session_policy_by_profile_def get_standard_session_policy_def
        get_operational_session_policy_def)
qed

end
