(* ===== verification/Session_Tokens.thy ===== *)
theory Session_Tokens
  imports Session_Policy
begin

section \<open>Refresh tokens (models/refresh_token.py, services/auth_service.py)\<close>

text \<open>
  The table of refresh tokens and the operations of the auth service on it: creation,
  verification, rotation, recovery reservations, revocation and the throttled recording of
  activity. A token is known to the table by its SHA-256 text only. Secrets of the runtime
  (\<open>secrets.token_urlsafe\<close>) are arguments; a function reads one instant of the clock.
\<close>

record token_row =
  tk_id :: nat
  tk_user_id :: nat
  tk_hash :: string
  tk_created :: instant
  tk_session :: string
  tk_profile :: string
  tk_last_activity :: "instant option"
  tk_rotated :: "instant option"
  tk_replaced_by :: "nat option"
  tk_reason :: "string option"
  tk_recoveries :: int
  tk_expires :: "instant option"
  tk_revoked :: "instant option"

record token_db =
  td_rows :: "token_row list"
  td_next :: nat

datatype verification_status =
    VALID | MISSING | EXPIRED | IDLE_EXPIRED | REVOKED
  | ROTATED_STALE_REJECTED | ROTATED_STALE_RECOVERABLE | USER_INACTIVE

record verification_result =
  vr_status :: verification_status
  vr_user :: "nat option"
  vr_session :: "string option"
  vr_profile :: "string option"
  vr_token :: "nat option"
  vr_count_rate_limit :: bool

definition hash_token :: "runtime \<Rightarrow> string \<Rightarrow> string" where
  "hash_token rt tok = rt_sha rt tok"

definition find_token :: "token_db \<Rightarrow> string \<Rightarrow> token_row option" where
  "find_token db h = find (\<lambda>r. tk_hash r = h) (td_rows db)"

text \<open>\<open>session\<close> is the caller's session id, \<open>raw\<close> and \<open>spare\<close> the secrets drawn.\<close>

definition create_refresh_token ::
  "environ \<Rightarrow> runtime \<Rightarrow> instant \<Rightarrow> string \<Rightarrow> string \<Rightarrow> nat \<Rightarrow> session_policy option \<Rightarrow> string option \<Rightarrow>
     token_db \<Rightarrow> ((string \<times> token_row) \<times> token_db) result" where
  "create_refresh_token env rt now raw spare user policy session db =
     (let p = (case policy of None \<Rightarrow> get_standard_session_policy env | Some p \<Rightarrow> p);
          h = hash_token rt raw;
          row = \<lparr>tk_id = td_next db, tk_user_id = user, tk_hash = h, tk_created = now,
                 tk_session = (case session of None \<Rightarrow> spare | Some s \<Rightarrow> if s = '''' then spare else s),
                 tk_profile = sp_profile p, tk_last_activity = Some now, tk_rotated = None,
                 tk_replaced_by = None, tk_reason = None, tk_recoveries = 0,
                 tk_expires = Some (now + seconds (sp_refresh_token_days p * 86400)),
                 tk_revoked = None\<rparr>
      in if h \<in> tk_hash ` set (td_rows db) then Inl (IntegrityError ''refresh_tokens.token_hash'')
         else Inr ((raw, row), \<lparr>td_rows = td_rows db @ [row], td_next = td_next db + 1\<rparr>))"

definition is_token_idle_expired :: "token_row \<Rightarrow> instant \<Rightarrow> session_policy \<Rightarrow> bool" where
  "is_token_idle_expired r now p =
     (case sp_idle_timeout_minutes p of None \<Rightarrow> False
      | Some m \<Rightarrow>
          (let anchor = (case tk_last_activity r of None \<Rightarrow> tk_created r | Some a \<Rightarrow> a)
           in now - anchor > seconds (m * 60)))"

definition token_result :: "token_row \<Rightarrow> verification_status \<Rightarrow> bool \<Rightarrow> verification_result" where
  "token_result r st counts =
     \<lparr>vr_status = st, vr_user = Some (tk_user_id r), vr_session = Some (tk_session r),
      vr_profile = Some (tk_profile r), vr_token = Some (tk_id r), vr_count_rate_limit = counts\<rparr>"

definition missing_result :: verification_result where
  "missing_result = \<lparr>vr_status = MISSING, vr_user = None, vr_session = None, vr_profile = None,
     vr_token = None, vr_count_rate_limit = True\<rparr>"

definition verify_row :: "environ \<Rightarrow> instant \<Rightarrow> token_row \<Rightarrow> verification_result" where
  "verify_row env now r =
     (let p = get_session_policy_by_profile env (Some (tk_profile r))
      in if (case tk_expires r of None \<Rightarrow> False | Some e \<Rightarrow> e < now) then token_result r EXPIRED True
         else if is_token_idle_expired r now p then token_result r IDLE_EXPIRED True
         else if tk_revoked r \<noteq> None then
           (if tk_reason r = Some ''rotated'' then
              (if (case tk_rotated r of None \<Rightarrow> True
                   | Some t \<Rightarrow> now - t > seconds (sp_stale_rotation_grace_seconds p))
               then token_result r ROTATED_STALE_REJECTED True
               else if tk_recoveries r \<ge> sp_stale_rotation_max_recoveries p
               then token_result r ROTATED_STALE_REJECTED True
               else token_result r ROTATED_STALE_RECOVERABLE False)
            else token_result r REVOKED True)
         else token_result r VALID False)"

definition verify_refresh_token ::
  "environ \<Rightarrow> runtime \<Rightarrow> instant \<Rightarrow> string \<Rightarrow> token_db \<Rightarrow> verification_result" where
  "verify_refresh_token env rt now tok db =
     (case find_token db (hash_token rt tok) of
        None \<Rightarrow> missing_result | Some r \<Rightarrow> verify_row env now r)"

text \<open>The legacy return shape (\<open>include_session_metadata=True\<close>).\<close>

datatype verification_answer =
    Structured verification_result
  | Legacy "(nat \<times> string option) option"

definition format_refresh_verification_result :: "verification_result \<Rightarrow> bool \<Rightarrow> verification_answer" where
  "format_refresh_verification_result res legacy =
     (if \<not> legacy then Structured res
      else Legacy (case vr_user res of None \<Rightarrow> None
             | Some u \<Rightarrow> if vr_status res = VALID then Some (u, vr_session res) else None))"

definition try_increment_refresh_recovery_count :: "nat \<Rightarrow> int \<Rightarrow> token_db \<Rightarrow> bool \<times> token_db" where
  "try_increment_refresh_recovery_count i most db =
     (let hit = (\<lambda>r. tk_id r = i \<and> tk_recoveries r < most)
      in (length (filter hit (td_rows db)) = 1,
          db\<lparr>td_rows := update_where hit (\<lambda>r. r\<lparr>tk_recoveries := tk_recoveries r + 1\<rparr>) (td_rows db)\<rparr>))"

definition increment_refresh_recovery_count :: "nat \<Rightarrow> token_db \<Rightarrow> token_db" where
  "increment_refresh_recovery_count i db = snd (try_increment_refresh_recovery_count i (10 ^ 9) db)"

text \<open>
  The row that \<open>first()\<close> returns is the one changed; the hash is unique, so it is the row with
  that hash.
\<close>

definition on_token :: "string \<Rightarrow> (token_row \<Rightarrow> token_row) \<Rightarrow> token_db \<Rightarrow> token_db" where
  "on_token h f db = db\<lparr>td_rows := update_where (\<lambda>r. tk_hash r = h) f (td_rows db)\<rparr>"

definition rotate_refresh_token ::
  "runtime \<Rightarrow> instant \<Rightarrow> string option \<Rightarrow> nat \<Rightarrow> token_db \<Rightarrow> token_db" where
  "rotate_refresh_token rt now tok new_id db =
     (case tok of None \<Rightarrow> db
      | Some t \<Rightarrow>
          (case find_token db (hash_token rt t) of None \<Rightarrow> db
           | Some _ \<Rightarrow>
               on_token (hash_token rt t)
                 (\<lambda>r. r\<lparr>tk_revoked := Some now, tk_reason := Some ''rotated'', tk_rotated := Some now,
                        tk_replaced_by := Some new_id\<rparr>) db))"

definition revoke_refresh_token ::
  "runtime \<Rightarrow> instant \<Rightarrow> string \<Rightarrow> string \<Rightarrow> token_db \<Rightarrow> bool \<times> token_db" where
  "revoke_refresh_token rt now tok reason db =
     (case find_token db (hash_token rt tok) of None \<Rightarrow> (False, db)
      | Some _ \<Rightarrow>
          (True, on_token (hash_token rt tok) (\<lambda>r. r\<lparr>tk_revoked := Some now, tk_reason := Some reason\<rparr>) db))"

definition revoke_all_user_refresh_tokens :: "instant \<Rightarrow> nat \<Rightarrow> token_db \<Rightarrow> nat \<times> token_db" where
  "revoke_all_user_refresh_tokens now user db =
     (let hit = (\<lambda>r. tk_user_id r = user \<and> tk_revoked r = None)
      in (length (filter hit (td_rows db)),
          db\<lparr>td_rows := update_where hit
               (\<lambda>r. r\<lparr>tk_revoked := Some now, tk_reason := Some ''logout''\<rparr>) (td_rows db)\<rparr>))"

subsection \<open>Activity of a session\<close>

text \<open>
  The per-worker cache of instants before which a session's activity is not written again, and
  the conditional update that decides for all workers.
\<close>

type_synonym activity_cache = "(string \<times> instant) list"

definition activity_cache_max :: nat where
  "activity_cache_max = 10000"

definition evict_activity_throttle_cache :: "instant \<Rightarrow> activity_cache \<Rightarrow> activity_cache" where
  "evict_activity_throttle_cache now cache = filter (\<lambda>(sid, until). \<not> until \<le> now) cache"

definition activity_due :: "string \<Rightarrow> nat \<Rightarrow> instant \<Rightarrow> token_row \<Rightarrow> bool" where
  "activity_due sid user cutoff r =
     (tk_session r = sid \<and> tk_user_id r = user \<and>
      (case tk_last_activity r of None \<Rightarrow> True | Some a \<Rightarrow> a \<le> cutoff))"

text \<open>
  \<open>record_session_activity\<close> answers whether a row was written. With \<open>db_fails\<close> the database
  raises: the transaction is rolled back and the cache is left alone.
\<close>

definition record_session_activity ::
  "environ \<Rightarrow> bool \<Rightarrow> instant \<Rightarrow> string option \<Rightarrow> nat \<Rightarrow> session_policy \<Rightarrow> activity_cache \<Rightarrow> token_db \<Rightarrow>
     bool \<times> activity_cache \<times> token_db" where
  "record_session_activity env db_fails now session user p cache db =
     (case session of None \<Rightarrow> (False, cache, db)
      | Some sid \<Rightarrow>
          if sid = '''' \<or> sp_profile p = ''operational'' then (False, cache, db)
          else
            let throttle = seconds (get_session_activity_write_throttle_seconds env);
                cache' = (if length cache \<ge> activity_cache_max
                          then evict_activity_throttle_cache now cache else cache)
            in if (case map_of cache' sid of None \<Rightarrow> False | Some until \<Rightarrow> until > now)
               then (False, cache', db)
               else if db_fails then (False, cache', db)
               else (let due = activity_due sid user (now - throttle)
                     in (filter due (td_rows db) \<noteq> [],
                         AList.update sid (now + throttle) cache',
                         db\<lparr>td_rows := update_where due (\<lambda>r. r\<lparr>tk_last_activity := Some now\<rparr>)
                              (td_rows db)\<rparr>)))"


subsection \<open>Updates that only wear a token out\<close>

text \<open>
  Every operation on an existing row keeps its hash and its id, never clears a revocation and
  never gives a recovery back. What a token can still be exchanged for therefore only shrinks.
\<close>

definition wears :: "(token_row \<Rightarrow> token_row) \<Rightarrow> bool" where
  "wears f = (\<forall>r. tk_hash (f r) = tk_hash r \<and> tk_id (f r) = tk_id r \<and>
     tk_recoveries r \<le> tk_recoveries (f r) \<and> tk_user_id (f r) = tk_user_id r \<and>
     (tk_revoked r \<noteq> None \<longrightarrow> tk_revoked (f r) \<noteq> None))"

definition token_db_ok :: "token_db \<Rightarrow> bool" where
  "token_db_ok db =
     (distinct (map tk_hash (td_rows db)) \<and> distinct (map tk_id (td_rows db)) \<and>
      list_all (\<lambda>r. tk_id r < td_next db \<and> 0 \<le> tk_recoveries r) (td_rows db))"

text \<open>Exchanges a hash is still good for, with \<open>m\<close> recoveries allowed.\<close>

definition exchanges_left :: "int \<Rightarrow> string \<Rightarrow> token_db \<Rightarrow> int" where
  "exchanges_left m h db =
     (case find_token db h of None \<Rightarrow> 1 + m
      | Some r \<Rightarrow> (if tk_revoked r = None then 1 else 0) + max 0 (m - tk_recoveries r))"

lemma wears_if [simp]: "wears f \<Longrightarrow> wears (\<lambda>r. if P r then f r else r)"
  by (simp add: wears_def)

lemma wears_updates [simp]:
  "wears (\<lambda>r. r\<lparr>tk_recoveries := tk_recoveries r + 1\<rparr>)"
  "wears (\<lambda>r. r\<lparr>tk_revoked := Some n, tk_reason := x\<rparr>)"
  "wears (\<lambda>r. r\<lparr>tk_revoked := Some n, tk_reason := x, tk_rotated := y, tk_replaced_by := z\<rparr>)"
  "wears (\<lambda>r. r\<lparr>tk_last_activity := a\<rparr>)"
  by (simp_all add: wears_def)

lemma find_token_in: "find_token db h = Some r \<Longrightarrow> r \<in> set (td_rows db) \<and> tk_hash r = h"
  by (auto simp: find_token_def find_Some_iff)

lemma find_token_none: "find_token db h = None \<longleftrightarrow> h \<notin> tk_hash ` set (td_rows db)"
  by (auto simp: find_token_def find_None_iff)

lemma find_token_row: "token_db_ok db \<Longrightarrow> r \<in> set (td_rows db) \<Longrightarrow> find_token db (tk_hash r) = Some r"
proof -
  assume ok: "token_db_ok db" and r: "r \<in> set (td_rows db)"
  then have "find_token db (tk_hash r) \<noteq> None" by (auto simp: find_token_none)
  then obtain q where q: "find_token db (tk_hash r) = Some q" by blast
  with find_token_in [OF q] ok r show ?thesis
    by (auto simp: token_db_ok_def dest: distinct_key_eq)
qed

lemma find_map:
  "(\<And>r. tk_hash (f r) = tk_hash r) \<Longrightarrow>
     find (\<lambda>r. tk_hash r = h) (map f rows) = map_option f (find (\<lambda>r. tk_hash r = h) rows)"
  by (induction rows) auto

lemma find_token_update:
  "wears f \<Longrightarrow> find_token (db\<lparr>td_rows := update_where P f (td_rows db)\<rparr>) h =
     map_option (\<lambda>r. if P r then f r else r) (find_token db h)"
  by (simp add: find_token_def update_where_def find_map wears_def)

lemma ok_update:
  assumes "wears f" "token_db_ok db"
  shows "token_db_ok (db\<lparr>td_rows := update_where P f (td_rows db)\<rparr>)"
proof -
  have "map tk_hash (update_where P f (td_rows db)) = map tk_hash (td_rows db)"
    "map tk_id (update_where P f (td_rows db)) = map tk_id (td_rows db)"
    using assms(1) by (simp_all add: update_where_keys wears_def)
  moreover have "list_all (\<lambda>r. tk_id r < td_next db \<and> 0 \<le> tk_recoveries r) (update_where P f (td_rows db))"
    using assms by (auto simp: list_all_iff update_where_def token_db_ok_def wears_def)
      (metis order_trans)+
  ultimately show ?thesis using assms(2) by (simp add: token_db_ok_def)
qed

lemma left_update:
  assumes "wears f"
  shows "exchanges_left m h (db\<lparr>td_rows := update_where P f (td_rows db)\<rparr>) \<le> exchanges_left m h db"
proof (cases "find_token db h")
  case None
  then show ?thesis by (simp add: exchanges_left_def find_token_update [OF assms])
next
  case (Some r)
  have "tk_recoveries r \<le> tk_recoveries (f r)" "tk_revoked r \<noteq> None \<longrightarrow> tk_revoked (f r) \<noteq> None"
    using assms by (auto simp: wears_def)
  with Some show ?thesis by (auto simp: exchanges_left_def find_token_update [OF assms])
qed

definition dead :: "string \<Rightarrow> token_db \<Rightarrow> bool" where
  "dead h db = (case find_token db h of None \<Rightarrow> False | Some r \<Rightarrow> tk_revoked r \<noteq> None)"

lemma dead_update: "wears f \<Longrightarrow> dead h db \<Longrightarrow> dead h (db\<lparr>td_rows := update_where P f (td_rows db)\<rparr>)"
  by (auto simp: dead_def find_token_update wears_def split: option.splits)

text \<open>One name for what every later operation respects.\<close>

definition worn :: "int \<Rightarrow> token_db \<Rightarrow> token_db \<Rightarrow> bool" where
  "worn m db db' =
     (token_db_ok db \<longrightarrow> token_db_ok db' \<and>
      (\<forall>h. exchanges_left m h db' \<le> exchanges_left m h db \<and> (dead h db \<longrightarrow> dead h db')))"

lemma worn_refl [simp, intro]: "worn m db db"
  by (simp add: worn_def)

lemma worn_trans [trans]: "worn m a b \<Longrightarrow> worn m b c \<Longrightarrow> worn m a c"
  unfolding worn_def by (meson order_trans)

lemma worn_update: "wears f \<Longrightarrow> worn m db (db\<lparr>td_rows := update_where P f (td_rows db)\<rparr>)"
  by (simp add: worn_def ok_update left_update dead_update)

lemma find_token_create:
  assumes "create_refresh_token env rt now raw spare user p session db = Inr ((tok, row), db')"
  shows "find_token db' h = (case find_token db h of Some r \<Rightarrow> Some r
      | None \<Rightarrow> if tk_hash row = h then Some row else None)"
    and "tk_recoveries row = 0" "tk_id row = td_next db" "td_next db' = td_next db + 1"
    and "td_rows db' = td_rows db @ [row]" "tk_hash row \<notin> tk_hash ` set (td_rows db)"
    and "tok = raw" "tk_hash row = hash_token rt raw" "tk_revoked row = None"
proof -
  have *: "td_rows db' = td_rows db @ [row]"
    using assms by (auto simp: create_refresh_token_def Let_def split: if_splits)
  then show "td_rows db' = td_rows db @ [row]" .
  have "find Q (xs @ [y]) = (case find Q xs of Some r \<Rightarrow> Some r | None \<Rightarrow> if Q y then Some y else None)"
    for Q and xs :: "token_row list" and y by (induction xs) auto
  with * show "find_token db' h = (case find_token db h of Some r \<Rightarrow> Some r
      | None \<Rightarrow> if tk_hash row = h then Some row else None)" by (simp add: find_token_def)
qed (use assms in \<open>auto simp: create_refresh_token_def Let_def split: if_splits\<close>)

lemma worn_create:
  assumes c: "create_refresh_token env rt now raw spare user p session db = Inr ((tok, row), db')"
    and m: "0 \<le> m"
  shows "worn m db db'"
proof -
  note new = find_token_create [OF c]
  show ?thesis unfolding worn_def
  proof (intro impI conjI allI)
    assume ok: "token_db_ok db"
    show "token_db_ok db'"
      using ok new(2-6) by (auto simp: token_db_ok_def list_all_iff less_Suc_eq)
    show "exchanges_left m h db' \<le> exchanges_left m h db" for h
      using m by (simp add: exchanges_left_def new(1,2) split: option.split)
    show "dead h db' " if "dead h db" for h
      using that by (simp add: dead_def new(1) split: option.splits)
  qed
qed

lemma worn_recovery: "worn m db (snd (try_increment_refresh_recovery_count i most db))"
  by (simp add: try_increment_refresh_recovery_count_def Let_def worn_update)

lemma worn_rotate: "worn m db (rotate_refresh_token rt now tok new_id db)"
  by (auto simp: rotate_refresh_token_def on_token_def worn_update split: option.split)

lemma worn_revoke: "worn m db (snd (revoke_refresh_token rt now tok reason db))"
  by (auto simp: revoke_refresh_token_def on_token_def worn_update split: option.split)

lemma worn_revoke_all: "worn m db (snd (revoke_all_user_refresh_tokens now user db))"
  by (simp add: revoke_all_user_refresh_tokens_def Let_def worn_update)

lemma worn_activity:
  "worn m db (snd (snd (record_session_activity env fails now session user p cache db)))"
  by (auto simp: record_session_activity_def Let_def worn_update split: option.split)

lemmas worn_operations = worn_recovery worn_rotate worn_revoke worn_revoke_all worn_activity

subsection \<open>What uses a token up\<close>

lemma verify_find:
  "vr_status (verify_refresh_token env rt now tok db) = st \<Longrightarrow> st \<noteq> MISSING \<Longrightarrow>
     \<exists>r. find_token db (hash_token rt tok) = Some r \<and> verify_refresh_token env rt now tok db = verify_row env now r"
  by (auto simp: verify_refresh_token_def missing_result_def split: option.splits)

lemma verify_row_valid: "vr_status (verify_row env now r) = VALID \<Longrightarrow> tk_revoked r = None"
  by (auto simp: verify_row_def token_result_def Let_def split: if_splits)

lemma dead_not_valid: "dead (hash_token rt tok) db \<Longrightarrow> vr_status (verify_refresh_token env rt now tok db) \<noteq> VALID"
  using verify_find [of env rt now tok db VALID] verify_row_valid by (fastforce simp: dead_def)

lemma rotated_once:
  assumes "find_token db (hash_token rt tok) = Some r" "tk_revoked r = None"
  shows "exchanges_left m (hash_token rt tok) (rotate_refresh_token rt now (Some tok) i db) + 1 =
     exchanges_left m (hash_token rt tok) db"
proof -
  have "tk_hash r = hash_token rt tok" using find_token_in [OF assms(1)] by simp
  then show ?thesis using assms
    by (simp add: rotate_refresh_token_def on_token_def exchanges_left_def find_token_update)
qed

lemma recovered_once:
  assumes ok: "token_db_ok db" and f: "find_token db h = Some r"
    and res: "fst (try_increment_refresh_recovery_count (tk_id r) m db)"
  shows "exchanges_left m h (snd (try_increment_refresh_recovery_count (tk_id r) m db)) + 1 =
     exchanges_left m h db"
proof -
  let ?hit = "\<lambda>q. tk_id q = tk_id r \<and> tk_recoveries q < m"
  have r: "r \<in> set (td_rows db)" using find_token_in [OF f] by simp
  from res have "filter ?hit (td_rows db) \<noteq> []"
    by (auto simp: try_increment_refresh_recovery_count_def Let_def)
  then obtain q where q: "q \<in> set (td_rows db)" "?hit q" by (auto simp: filter_empty_conv)
  then have "q = r" using ok r by (auto simp: token_db_ok_def dest: distinct_key_eq)
  with q f show ?thesis
    by (simp add: try_increment_refresh_recovery_count_def Let_def exchanges_left_def find_token_update)
qed

end
