(* ===== verification/Auth_Flow.thy ===== *)
theory Auth_Flow
  imports Rate_Limit Session_Tokens
begin

section \<open>Login, refresh, logout and password change (routers/auth.py)\<close>

text \<open>
  The handlers of the authentication router over the state they share: users, refresh tokens,
  attempt counters, the worker's activity cache and the audit trail. A handler answers with a
  response or an HTTP error and leaves a state in either case, since every step commits on its
  own. What the code takes from elsewhere is the record \<open>auth_env\<close>: the environment, the runtime
  (SHA-256), the password hash functions, the JWT encoder, the JSON parser and the cookie domain.
  The whole request reads one instant of the clock. An exception no handler catches is answered
  by the framework with status 500.
\<close>

record user_row =
  us_id :: nat
  us_name :: string
  us_hash :: string
  us_role :: role_arg
  us_active :: bool
  us_force_change :: bool

record claims =
  cl_sub :: string
  cl_role :: "string option"
  cl_sid :: string
  cl_profile :: string
  cl_exp :: instant

record auth_env =
  ae_env :: environ
  ae_rt :: runtime
  ae_verify :: "string \<Rightarrow> string \<Rightarrow> bool"
  ae_hash :: "string \<Rightarrow> string"
  ae_jwt :: "claims \<Rightarrow> string"
  ae_json :: "string \<Rightarrow> pyval option"
  ae_cookie_domain :: "string option"
  ae_cookie_secure :: bool

datatype outcome = SUCCESS | FAILURE | DENIED

record audit_entry =
  au_event :: string
  au_outcome :: outcome
  au_actor :: "string option"
  au_reason :: string

record auth_state =
  as_users :: "user_row list"
  as_tokens :: token_db
  as_limits :: "attempt_row list"
  as_cache :: activity_cache
  as_audit :: "audit_entry list"

subsection \<open>Cookies and responses\<close>

record cookie =
  ck_name :: string
  ck_value :: string
  ck_max_age :: int
  ck_path :: string
  ck_domain :: "string option"
  ck_secure :: bool

datatype cookie_effect = Set_cookie cookie | Delete_cookie string string "string option"

record response =
  rs_status :: nat
  rs_body :: "(string \<times> string) list"
  rs_cookies :: "cookie_effect list"

definition default_age :: "int option \<Rightarrow> int \<Rightarrow> int" where
  "default_age age dflt = (case age of None \<Rightarrow> dflt | Some n \<Rightarrow> if n = 0 then dflt else n)"

definition set_access_cookie :: "auth_env \<Rightarrow> string \<Rightarrow> int option \<Rightarrow> cookie_effect" where
  "set_access_cookie e tok age =
     Set_cookie \<lparr>ck_name = ''access_token'', ck_value = tok, ck_max_age = default_age age (15 * 60),
       ck_path = ''/api'', ck_domain = ae_cookie_domain e, ck_secure = ae_cookie_secure e\<rparr>"

definition clear_access_cookie :: "auth_env \<Rightarrow> cookie_effect" where
  "clear_access_cookie e = Delete_cookie ''access_token'' ''/api'' (ae_cookie_domain e)"

definition set_refresh_cookie :: "auth_env \<Rightarrow> string \<Rightarrow> int option \<Rightarrow> cookie_effect" where
  "set_refresh_cookie e tok age =
     Set_cookie \<lparr>ck_name = ''refresh_token'', ck_value = tok,
       ck_max_age = default_age age (7 * 24 * 60 * 60),
       ck_path = ''/api'', ck_domain = ae_cookie_domain e, ck_secure = ae_cookie_secure e\<rparr>"

definition clear_refresh_cookie :: "auth_env \<Rightarrow> cookie_effect" where
  "clear_refresh_cookie e = Delete_cookie ''refresh_token'' ''/api'' (ae_cookie_domain e)"

definition create_access_token :: "auth_env \<Rightarrow> instant \<Rightarrow> claims \<Rightarrow> int option \<Rightarrow> string" where
  "create_access_token e now data delta =
     ae_jwt e (data\<lparr>cl_exp := now + (case delta of None \<Rightarrow> seconds (15 * 60)
                                     | Some d \<Rightarrow> if d = 0 then seconds (15 * 60) else d)\<rparr>)"

definition role_value :: "role_arg \<Rightarrow> string option" where
  "role_value r = (case r of No_role \<Rightarrow> None | Enum_role v \<Rightarrow> Some v | Text_role v \<Rightarrow> Some v)"

definition access_token_for :: "auth_env \<Rightarrow> instant \<Rightarrow> user_row \<Rightarrow> string \<Rightarrow> session_policy \<Rightarrow> string" where
  "access_token_for e now u sid p =
     create_access_token e now
       \<lparr>cl_sub = us_name u, cl_role = role_value (us_role u), cl_sid = sid,
        cl_profile = sp_profile p, cl_exp = 0\<rparr>
       (Some (seconds (sp_access_token_minutes p * 60)))"

definition session_cookies :: "auth_env \<Rightarrow> session_policy \<Rightarrow> string \<Rightarrow> string \<Rightarrow> cookie_effect list" where
  "session_cookies e p access refresh =
     [set_access_cookie e access (Some (access_token_max_age_seconds p)),
      set_refresh_cookie e refresh (Some (session_policy_cookie_max_age_seconds p))]"

definition http_error :: "nat \<Rightarrow> string \<Rightarrow> http_exc" where
  "http_error code detail = HttpExc code detail []"

definition server_error :: http_exc where
  "server_error = http_error 500 ''Internal Server Error''"

definition audited :: "string \<Rightarrow> outcome \<Rightarrow> string option \<Rightarrow> string \<Rightarrow> auth_state \<Rightarrow> auth_state" where
  "audited event out actor reason s =
     s\<lparr>as_audit := as_audit s @ [\<lparr>au_event = event, au_outcome = out, au_actor = actor, au_reason = reason\<rparr>]\<rparr>"

definition user_by_name :: "auth_state \<Rightarrow> string \<Rightarrow> user_row option" where
  "user_by_name s name = find (\<lambda>u. us_name u = name) (as_users s)"

definition user_by_id :: "auth_state \<Rightarrow> nat \<Rightarrow> user_row option" where
  "user_by_id s i = find (\<lambda>u. us_id u = i) (as_users s)"

definition policy_of :: "auth_env \<Rightarrow> user_row \<Rightarrow> session_policy" where
  "policy_of e u = resolve_session_policy (ae_env e) (Some (us_name u)) (us_role u)"

text \<open>Counting a failure; the exception of a refused insert is not caught by the handlers.\<close>

definition count_failed :: "instant \<Rightarrow> string \<Rightarrow> string \<Rightarrow> auth_state \<Rightarrow> (http_exc + attempt_info) \<times> auth_state" where
  "count_failed now key typ s =
     (case increment_attempts now None (as_limits s) key typ of
        Inl _ \<Rightarrow> (Inl server_error, s)
      | Inr (info, rows) \<Rightarrow> (Inr info, s\<lparr>as_limits := rows\<rparr>))"

definition refuse :: "instant \<Rightarrow> string \<Rightarrow> string \<Rightarrow> http_exc \<Rightarrow> auth_state \<Rightarrow> (http_exc + response) \<times> auth_state" where
  "refuse now key typ err s =
     (case count_failed now key typ s of
        (Inl e, s') \<Rightarrow> (Inl e, s') | (Inr _, s') \<Rightarrow> (Inl err, s'))"

subsection \<open>POST /auth/token\<close>

record secrets =
  se_session :: string
  se_raw :: string
  se_spare :: string

definition invalid_credentials :: http_exc where
  "invalid_credentials =
     HttpExc 401 ''Incorrect username or password'' [(''WWW-Authenticate'', ''Bearer'')]"

definition login_failed :: "instant \<Rightarrow> string \<Rightarrow> auth_state \<Rightarrow> (http_exc + response) \<times> auth_state" where
  "login_failed now name s =
     (case count_failed now name ''username'' s of
        (Inl e, s') \<Rightarrow> (Inl e, s')
      | (Inr info, s') \<Rightarrow>
          (case ai_locked info of
             Some until \<Rightarrow>
               (Inl (raise_rate_limit_locked now until),
                audited ''LOGIN_FAILURE'' DENIED (Some name) ''rate_limited'' s')
           | None \<Rightarrow>
               (Inl invalid_credentials,
                audited ''LOGIN_FAILURE'' FAILURE (Some name) ''incorrect_credentials'' s')))"

definition login_succeeded ::
  "auth_env \<Rightarrow> instant \<Rightarrow> secrets \<Rightarrow> user_row \<Rightarrow> string \<Rightarrow> auth_state \<Rightarrow> (http_exc + response) \<times> auth_state" where
  "login_succeeded e now se u name s =
     (let s1 = s\<lparr>as_limits := clear_attempts (as_limits s) name ''username''\<rparr>;
          p = policy_of e u;
          sid = se_session se;
          access = access_token_for e now u sid p
      in case create_refresh_token (ae_env e) (ae_rt e) now (se_raw se) (se_spare se) (us_id u)
                (Some p) (Some sid) (as_tokens s1) of
           Inl _ \<Rightarrow> (Inl server_error, s1)
         | Inr ((raw, _), db) \<Rightarrow>
             (Inr \<lparr>rs_status = 200,
                   rs_body = [(''access_token'', access), (''token_type'', ''bearer'')],
                   rs_cookies = session_cookies e p access raw\<rparr>,
              audited ''LOGIN_SUCCESS'' SUCCESS (Some (us_name u)) ''login_success''
                (s1\<lparr>as_tokens := db\<rparr>)))"

definition login_for_access_token ::
  "auth_env \<Rightarrow> instant \<Rightarrow> secrets \<Rightarrow> string \<Rightarrow> string \<Rightarrow> auth_state \<Rightarrow> (http_exc + response) \<times> auth_state" where
  "login_for_access_token e now se name pw s0 =
     (let (checked, rows) = check_rate_limit now (as_limits s0) name ''username'';
          s = s0\<lparr>as_limits := rows\<rparr>
      in case checked of
           Inl err \<Rightarrow> (Inl err, audited ''LOGIN_FAILURE'' DENIED (Some name) ''rate_limited'' s)
         | Inr _ \<Rightarrow>
             (case user_by_name s name of
                None \<Rightarrow> login_failed now name s
              | Some u \<Rightarrow>
                  if \<not> ae_verify e pw (us_hash u) then login_failed now name s
                  else if \<not> us_active u then
                    (Inl (http_error 400 ''Inactive user''),
                     audited ''LOGIN_FAILURE'' DENIED (Some name) ''inactive_user'' s)
                  else login_succeeded e now se u name s))"

subsection \<open>POST /auth/refresh\<close>

text \<open>
  The token comes from the cookie or, without one, from the body: text, or a JSON object whose
  entry may hold any value. A body that cannot be read or decoded counts as none.
\<close>

datatype request_body = No_body | Unreadable | Body_text string

definition presented_token :: "auth_env \<Rightarrow> string option \<Rightarrow> request_body \<Rightarrow> pyval" where
  "presented_token e cookie body =
     (case cookie of
        Some c \<Rightarrow> if c \<noteq> '''' then PStr c else
          (case body of
             Body_text t \<Rightarrow> (if t = '''' then PStr c else
               let w = strip t in
               if starts_with ''{'' w
               then (case ae_json e w of Some (PDict d) \<Rightarrow> dict_get d ''refresh_token'' (PStr w) | _ \<Rightarrow> PStr w)
               else PStr w)
           | _ \<Rightarrow> PStr c)
      | None \<Rightarrow>
          (case body of
             Body_text t \<Rightarrow> (if t = '''' then PNone else
               let w = strip t in
               if starts_with ''{'' w
               then (case ae_json e w of Some (PDict d) \<Rightarrow> dict_get d ''refresh_token'' (PStr w) | _ \<Rightarrow> PStr w)
               else PStr w)
           | _ \<Rightarrow> PNone))"

definition missing_error :: "instant \<Rightarrow> string \<Rightarrow> auth_state \<Rightarrow> (http_exc + response) \<times> auth_state" where
  "missing_error now key s =
     (case count_failed now key ''refresh_token'' s of
        (Inl e, s') \<Rightarrow> (Inl e, s')
      | (Inr info, s') \<Rightarrow>
          (case ai_locked info of
             Some until \<Rightarrow> (Inl (raise_rate_limit_locked now until), s')
           | None \<Rightarrow> (Inl (http_error 401 ''Invalid or expired refresh token''), s')))"

definition idle_expired_reply :: "auth_env \<Rightarrow> instant \<Rightarrow> string \<Rightarrow> auth_state \<Rightarrow> (http_exc + response) \<times> auth_state" where
  "idle_expired_reply e now key s =
     (case count_failed now key ''refresh_token'' s of
        (Inl err, s') \<Rightarrow> (Inl err, s')
      | (Inr _, s') \<Rightarrow>
          (Inr \<lparr>rs_status = 401, rs_body = [(''detail'', ''session timed out'')],
                rs_cookies = [clear_access_cookie e, clear_refresh_cookie e]\<rparr>,
           audited ''session.idle_expired'' DENIED None ''idle_timeout'' s'))"

text \<open>The new pair of tokens, the rotation of the old one and the activity bump.\<close>

definition issue_rotated ::
  "auth_env \<Rightarrow> instant \<Rightarrow> secrets \<Rightarrow> bool \<Rightarrow> string \<Rightarrow> verification_result \<Rightarrow> user_row \<Rightarrow> auth_state \<Rightarrow>
     (http_exc + response) \<times> auth_state" where
  "issue_rotated e now se db_fails tok v u s =
     (let p = policy_of e u;
          s1 = s\<lparr>as_limits := clear_attempts (as_limits s) (refresh_token_rate_limit_key (ae_rt e) tok) ''refresh_token''\<rparr>;
          sid = (case vr_session v of None \<Rightarrow> se_session se | Some x \<Rightarrow> if x = '''' then se_session se else x)
      in case create_refresh_token (ae_env e) (ae_rt e) now (se_raw se) (se_spare se) (us_id u)
                (Some p) (Some sid) (as_tokens s1) of
           Inl _ \<Rightarrow> (Inl server_error, s1)
         | Inr ((raw, row), db) \<Rightarrow>
             let db' = (if vr_status v = VALID
                        then rotate_refresh_token (ae_rt e) now (Some tok) (tk_id row) db else db);
                 access = access_token_for e now u sid p;
                 (written, cache, db'') =
                   record_session_activity (ae_env e) db_fails now (Some sid) (us_id u) p (as_cache s1) db';
                 s2 = s1\<lparr>as_tokens := db'', as_cache := cache\<rparr>
             in (Inr \<lparr>rs_status = 200,
                      rs_body = [(''access_token'', access), (''token_type'', ''bearer'')],
                      rs_cookies = session_cookies e p access raw\<rparr>,
                 if written then audited ''session.activity_recorded'' SUCCESS None ''activity_recorded'' s2
                 else s2))"

text \<open>
  What follows the verification. It is separate because another worker may act between the
  verification and the rest.
\<close>

definition refresh_verified ::
  "auth_env \<Rightarrow> instant \<Rightarrow> secrets \<Rightarrow> bool \<Rightarrow> string \<Rightarrow> verification_result \<Rightarrow> auth_state \<Rightarrow>
     (http_exc + response) \<times> auth_state" where
  "refresh_verified e now se db_fails tok v s =
     (let key = refresh_token_rate_limit_key (ae_rt e) tok;
          deny = (\<lambda>detail. refuse now key ''refresh_token'' (http_error 401 detail) s)
      in case vr_status v of
           MISSING \<Rightarrow> missing_error now key s
         | EXPIRED \<Rightarrow> deny ''Session expired''
         | REVOKED \<Rightarrow> deny ''Session revoked''
         | IDLE_EXPIRED \<Rightarrow> idle_expired_reply e now key s
         | USER_INACTIVE \<Rightarrow> deny ''User inactive''
         | ROTATED_STALE_REJECTED \<Rightarrow> deny ''session expired''
         | _ \<Rightarrow>
             (case vr_user v of
                None \<Rightarrow> deny ''Invalid or expired refresh token''
              | Some uid \<Rightarrow>
                  (case user_by_id s uid of
                     None \<Rightarrow> deny ''User not found or inactive''
                   | Some u \<Rightarrow>
                       if \<not> us_active u then deny ''User not found or inactive''
                       else if vr_status v = ROTATED_STALE_RECOVERABLE then
                         (let (reserved, db) = (case vr_token v of None \<Rightarrow> (False, as_tokens s)
                              | Some i \<Rightarrow> try_increment_refresh_recovery_count i
                                  (sp_stale_rotation_max_recoveries (policy_of e u)) (as_tokens s));
                              s' = s\<lparr>as_tokens := db\<rparr>
                          in if \<not> reserved then
                               (if vr_count_rate_limit v
                                then refuse now key ''refresh_token'' (http_error 401 ''session expired'') s'
                                else (Inl (http_error 401 ''session expired''), s'))
                             else issue_rotated e now se db_fails tok v u s')
                       else issue_rotated e now se db_fails tok v u s)))"

definition refresh_tokens ::
  "auth_env \<Rightarrow> instant \<Rightarrow> secrets \<Rightarrow> bool \<Rightarrow> string option \<Rightarrow> request_body \<Rightarrow> auth_state \<Rightarrow>
     (http_exc + response) \<times> auth_state" where
  "refresh_tokens e now se db_fails cookie body s0 =
     (let v = presented_token e cookie body
      in if \<not> truthy v then (Inl (http_error 401 ''Missing refresh token cookie''), s0)
         else case v of
           PStr tok \<Rightarrow>
             (let key = refresh_token_rate_limit_key (ae_rt e) tok;
                  (checked, rows) = check_rate_limit now (as_limits s0) key ''refresh_token'';
                  s = s0\<lparr>as_limits := rows\<rparr>
              in case checked of
                   Inl err \<Rightarrow> (Inl err, s)
                 | Inr _ \<Rightarrow>
                     refresh_verified e now se db_fails tok
                       (verify_refresh_token (ae_env e) (ae_rt e) now tok (as_tokens s)) s)
         | _ \<Rightarrow> (Inl server_error, s0))"

subsection \<open>POST /auth/logout and /auth/change-password\<close>

text \<open>\<open>me\<close> is the user name the access token authenticated.\<close>

definition logout :: "auth_env \<Rightarrow> instant \<Rightarrow> string \<Rightarrow> auth_state \<Rightarrow> (http_exc + response) \<times> auth_state" where
  "logout e now me s =
     (let s1 = (case user_by_name s me of None \<Rightarrow> s
                | Some u \<Rightarrow> s\<lparr>as_tokens := snd (revoke_all_user_refresh_tokens now (us_id u) (as_tokens s))\<rparr>)
      in (Inr \<lparr>rs_status = 200, rs_body = [(''status'', ''success''), (''message'', ''Logged out'')],
               rs_cookies = [clear_access_cookie e, clear_refresh_cookie e]\<rparr>,
          audited ''LOGOUT'' SUCCESS (Some me) ''logout_success'' s1))"

definition change_password ::
  "auth_env \<Rightarrow> instant \<Rightarrow> string \<Rightarrow> string \<Rightarrow> string \<Rightarrow> auth_state \<Rightarrow> (http_exc + response) \<times> auth_state" where
  "change_password e now me old new s0 =
     (let (checked, rows) = check_rate_limit now (as_limits s0) me ''username'';
          s = s0\<lparr>as_limits := rows\<rparr>
      in case checked of
           Inl err \<Rightarrow> (Inl err, s)
         | Inr _ \<Rightarrow>
             (case user_by_name s me of
                None \<Rightarrow> (Inl (http_error 404 ''User not found''), s)
              | Some u \<Rightarrow>
                  if \<not> ae_verify e old (us_hash u)
                  then (Inl (http_error 400 ''Incorrect old password''), s)
                  else
                    (Inr \<lparr>rs_status = 200,
                          rs_body = [(''status'', ''success''), (''message'', ''Password updated successfully'')],
                          rs_cookies = []\<rparr>,
                     s\<lparr>as_users := update_where (\<lambda>x. us_id x = us_id u)
                         (\<lambda>x. x\<lparr>us_hash := ae_hash e new, us_force_change := False\<rparr>) (as_users s)\<rparr>)))"

subsection \<open>Requests\<close>

datatype auth_request =
    Login string string secrets
  | Refresh "string option" request_body secrets bool
  | Logout string
  | Change_password string string string

definition serve ::
  "auth_env \<Rightarrow> instant \<Rightarrow> auth_request \<Rightarrow> auth_state \<Rightarrow> (http_exc + response) \<times> auth_state" where
  "serve e now req s =
     (case req of
        Login name pw se \<Rightarrow> login_for_access_token e now se name pw s
      | Refresh ck body se f \<Rightarrow> refresh_tokens e now se f ck body s
      | Logout me \<Rightarrow> logout e now me s
      | Change_password me old new \<Rightarrow> change_password e now me old new s)"

fun serve_all ::
  "auth_env \<Rightarrow> (instant \<times> auth_request) list \<Rightarrow> auth_state \<Rightarrow> (http_exc + response) list \<times> auth_state" where
  "serve_all e [] s = ([], s)"
| "serve_all e ((now, req) # reqs) s =
     (let (r, s1) = serve e now req s; (rs, s2) = serve_all e reqs s1 in (r # rs, s2))"

subsection \<open>What a request does to the tokens\<close>

abbreviation recoveries_allowed :: "auth_env \<Rightarrow> int" where
  "recoveries_allowed e \<equiv> get_stale_recovery_max_recoveries (ae_env e)"

abbreviation worn_by :: "auth_env \<Rightarrow> auth_state \<Rightarrow> auth_state \<Rightarrow> bool" where
  "worn_by e s s' \<equiv> worn (recoveries_allowed e) (as_tokens s) (as_tokens s')"

lemma recoveries_nonneg: "0 \<le> recoveries_allowed e"
  using recoveries_pos [of "ae_env e"] by simp

lemma tokens_audited [simp]: "as_tokens (audited a b c d s) = as_tokens s"
  by (simp add: audited_def)

lemma tokens_count_failed: "count_failed now key ty s = (r, s') \<Longrightarrow> as_tokens s' = as_tokens s"
  by (auto simp: count_failed_def split: sum.splits prod.splits)

definition granted :: "(http_exc + response) \<Rightarrow> bool" where
  "granted r = (case r of Inl _ \<Rightarrow> False | Inr x \<Rightarrow> rs_status x = 200)"

lemma tokens_refuse: "refuse now key ty err s = (r, s') \<Longrightarrow> as_tokens s' = as_tokens s \<and> \<not> granted r"
  by (auto simp: refuse_def granted_def dest: tokens_count_failed split: sum.splits prod.splits)

lemma tokens_missing: "missing_error now key s = (r, s') \<Longrightarrow> as_tokens s' = as_tokens s \<and> \<not> granted r"
  by (auto simp: missing_error_def granted_def dest: tokens_count_failed split: sum.splits prod.splits option.splits)

lemma tokens_idle: "idle_expired_reply e now key s = (r, s') \<Longrightarrow>
    as_tokens s' = as_tokens s \<and> \<not> granted r"
  by (auto simp: idle_expired_reply_def granted_def dest: tokens_count_failed split: sum.splits prod.splits)

lemma tokens_login_failed: "login_failed now name s = (r, s') \<Longrightarrow> as_tokens s' = as_tokens s"
  by (auto simp: login_failed_def dest: tokens_count_failed split: sum.splits prod.splits option.splits)

lemma worn_login_succeeded: "login_succeeded e now se u name s = (r, s') \<Longrightarrow> worn_by e s s'"
  by (auto simp: login_succeeded_def Let_def intro: worn_create recoveries_nonneg
      split: sum.splits prod.splits)

lemma worn_login: "login_for_access_token e now se name pw s = (r, s') \<Longrightarrow> worn_by e s s'"
  by (auto simp: login_for_access_token_def Let_def
      dest!: tokens_login_failed worn_login_succeeded split: sum.splits prod.splits option.splits if_splits)

lemma worn_logout: "logout e now me s = (r, s') \<Longrightarrow> worn_by e s s'"
  by (auto simp: logout_def Let_def worn_operations split: option.splits)

lemma tokens_change_password: "change_password e now me old new s = (r, s') \<Longrightarrow> as_tokens s' = as_tokens s"
  by (auto simp: change_password_def Let_def split: sum.splits prod.splits option.splits if_splits)

text \<open>The tokens after a granted refresh, step by step.\<close>

lemma issue_steps:
  assumes "issue_rotated e now se fails tok v u s = (r, s')"
  shows "(as_tokens s' = as_tokens s \<and> \<not> granted r) \<or>
    (\<exists>i db. worn (recoveries_allowed e) (as_tokens s) db \<and>
       (\<forall>h. find_token (as_tokens s) h \<noteq> None \<longrightarrow> find_token db h = find_token (as_tokens s) h) \<and>
       worn (recoveries_allowed e)
         (if vr_status v = VALID then rotate_refresh_token (ae_rt e) now (Some tok) i db else db)
         (as_tokens s'))"
proof (cases "create_refresh_token (ae_env e) (ae_rt e) now (se_raw se) (se_spare se) (us_id u)
    (Some (policy_of e u))
    (Some (case vr_session v of None \<Rightarrow> se_session se | Some x \<Rightarrow> if x = '''' then se_session se else x))
    (as_tokens s)")
  case (Inl x)
  then show ?thesis using assms by (auto simp: issue_rotated_def Let_def granted_def)
next
  case (Inr q)
  obtain raw row db where q: "q = ((raw, row), db)" by (metis prod.exhaust)
  define db' where "db' = (if vr_status v = VALID
      then rotate_refresh_token (ae_rt e) now (Some tok) (tk_id row) db else db)"
  have c: "worn (recoveries_allowed e) (as_tokens s) db"
    using Inr q by (auto intro: worn_create recoveries_nonneg)
  have kept: "\<forall>h. find_token (as_tokens s) h \<noteq> None \<longrightarrow> find_token db h = find_token (as_tokens s) h"
    using find_token_create(1) [OF Inr [unfolded q]] by auto
  define sid where "sid = (case vr_session v of None \<Rightarrow> se_session se
    | Some x \<Rightarrow> if x = '''' then se_session se else x)"
  obtain w cache d where act: "record_session_activity (ae_env e) fails now (Some sid) (us_id u)
      (policy_of e u) (as_cache s) db' = (w, cache, d)" by (metis prod.exhaust)
  have "as_tokens s' = d"
    using assms Inr q act
    by (cases w) (auto simp: issue_rotated_def Let_def db'_def [symmetric] sid_def [symmetric])
  with act have "worn (recoveries_allowed e) db' (as_tokens s')"
    by (metis worn_activity snd_conv)
  with c kept show ?thesis unfolding db'_def by blast
qed

lemma worn_issue:
  assumes "issue_rotated e now se fails tok v u s = (r, s')"
  shows "worn_by e s s'"
  using issue_steps [OF assms]
proof (elim disjE exE conjE)
  fix i db
  assume c: "worn (recoveries_allowed e) (as_tokens s) db"
    and rest: "worn (recoveries_allowed e)
      (if vr_status v = VALID then rotate_refresh_token (ae_rt e) now (Some tok) i db else db)
      (as_tokens s')"
  have "worn (recoveries_allowed e) db
      (if vr_status v = VALID then rotate_refresh_token (ae_rt e) now (Some tok) i db else db)"
    by (simp add: worn_operations)
  with c rest show ?thesis by (blast intro: worn_trans)
qed simp

abbreviation left_for :: "auth_env \<Rightarrow> string \<Rightarrow> auth_state \<Rightarrow> int" where
  "left_for e h s \<equiv> exchanges_left (recoveries_allowed e) h (as_tokens s)"

text \<open>The branches of a verified refresh.\<close>

lemma refresh_verified_cases:
  assumes "refresh_verified e now se fails tok v s = (r, s')"
  shows "(as_tokens s' = as_tokens s \<and> \<not> granted r) \<or>
    (\<exists>u. vr_status v = VALID \<and> issue_rotated e now se fails tok v u s = (r, s')) \<or>
    (\<exists>i u db reserved. vr_status v = ROTATED_STALE_RECOVERABLE \<and> vr_token v = Some i \<and>
       try_increment_refresh_recovery_count i (recoveries_allowed e) (as_tokens s) = (reserved, db) \<and>
       (if reserved then issue_rotated e now se fails tok v u (s\<lparr>as_tokens := db\<rparr>) = (r, s')
        else as_tokens s' = db \<and> \<not> granted r))"
proof (cases "vr_status v \<in> {VALID, ROTATED_STALE_RECOVERABLE}")
  case False
  then have "as_tokens s' = as_tokens s \<and> \<not> granted r"
    using assms
    by (cases "vr_status v") (auto simp: refresh_verified_def Let_def 
        dest: tokens_refuse tokens_missing tokens_idle)
  then show ?thesis by blast
next
  case True
  show ?thesis
  proof (cases "\<exists>uid u. vr_user v = Some uid \<and> user_by_id s uid = Some u \<and> us_active u")
    case False
    with True have "as_tokens s' = as_tokens s \<and> \<not> granted r"
      using assms
      by (auto simp: refresh_verified_def Let_def dest: tokens_refuse
          split: option.splits if_splits)
    then show ?thesis by blast
  next
    case user: True
    then obtain uid u where u: "vr_user v = Some uid" "user_by_id s uid = Some u" "us_active u" by blast
    show ?thesis
    proof (cases "vr_status v = VALID")
      case True
      with u assms show ?thesis by (auto simp: refresh_verified_def Let_def)
    next
      case False
      with \<open>vr_status v \<in> _\<close> have rec: "vr_status v = ROTATED_STALE_RECOVERABLE" by simp
      show ?thesis
      proof (cases "vr_token v")
        case None
        with u rec assms have "as_tokens s' = as_tokens s \<and> \<not> granted r"
          by (auto simp: refresh_verified_def Let_def granted_def dest: tokens_refuse
              split: if_splits sum.splits)
        then show ?thesis by blast
      next
        case (Some i)
        obtain reserved db where t: "try_increment_refresh_recovery_count i (recoveries_allowed e) (as_tokens s)
            = (reserved, db)" by force
        have "if reserved then issue_rotated e now se fails tok v u (s\<lparr>as_tokens := db\<rparr>) = (r, s')
            else as_tokens s' = db \<and> \<not> granted r"
          using Some u rec assms t
          by (auto simp: refresh_verified_def Let_def policy_of_def policy_recoveries granted_def
              dest: tokens_refuse split: if_splits sum.splits)
        with Some rec t show ?thesis by blast
      qed
    qed
  qed
qed

lemma worn_refresh_verified:
  assumes "refresh_verified e now se fails tok v s = (r, s')"
  shows "worn_by e s s'"
  using refresh_verified_cases [OF assms]
proof (elim disjE exE conjE)
  fix i u db reserved
  assume t: "try_increment_refresh_recovery_count i (recoveries_allowed e) (as_tokens s) = (reserved, db)"
    and rest: "if reserved then issue_rotated e now se fails tok v u (s\<lparr>as_tokens := db\<rparr>) = (r, s')
        else as_tokens s' = db \<and> \<not> granted r"
  have "worn (recoveries_allowed e) (as_tokens s) db"
    using worn_recovery [of "recoveries_allowed e" "as_tokens s" i "recoveries_allowed e"] t by simp
  moreover have "worn (recoveries_allowed e) db (as_tokens s')"
    using rest worn_issue by (fastforce split: if_splits)
  ultimately show ?thesis by (rule worn_trans)
qed (auto dest: worn_issue)

lemma issue_valid_spends:
  assumes ok: "token_db_ok (as_tokens s)" and v: "vr_status v = VALID"
    and q: "find_token (as_tokens s) (hash_token (ae_rt e) tok) = Some q" "tk_revoked q = None"
    and r: "issue_rotated e now se fails tok v u s = (r, s')" "granted r"
  shows "left_for e (hash_token (ae_rt e) tok) s' + 1 \<le> left_for e (hash_token (ae_rt e) tok) s"
proof -
  let ?h = "hash_token (ae_rt e) tok"
  let ?m = "recoveries_allowed e"
  from issue_steps [OF r(1)] r(2) v obtain i db where
    c: "worn ?m (as_tokens s) db"
    and kept: "\<forall>h. find_token (as_tokens s) h \<noteq> None \<longrightarrow> find_token db h = find_token (as_tokens s) h"
    and rot: "worn ?m (rotate_refresh_token (ae_rt e) now (Some tok) i db) (as_tokens s')" by auto
  have "find_token db ?h = Some q" using kept q by simp
  then have "exchanges_left ?m ?h (rotate_refresh_token (ae_rt e) now (Some tok) i db) + 1 =
      exchanges_left ?m ?h db" using q(2) by (rule rotated_once)
  moreover have "exchanges_left ?m ?h db \<le> left_for e ?h s" and okdb: "token_db_ok db"
    using c ok by (simp_all add: worn_def)
  moreover have "token_db_ok (rotate_refresh_token (ae_rt e) now (Some tok) i db)"
    using worn_rotate [of ?m db] okdb by (auto simp: worn_def)
  with rot have "left_for e ?h s' \<le>
      exchanges_left ?m ?h (rotate_refresh_token (ae_rt e) now (Some tok) i db)"
    by (simp add: worn_def)
  ultimately show ?thesis by simp
qed

lemma recovered_spends:
  assumes ok: "token_db_ok (as_tokens s)"
    and q: "find_token (as_tokens s) h = Some q"
    and t: "try_increment_refresh_recovery_count (tk_id q) (recoveries_allowed e) (as_tokens s) = (True, db)"
    and r: "issue_rotated e now se fails tok v u (s\<lparr>as_tokens := db\<rparr>) = (r, s')"
  shows "left_for e h s' + 1 \<le> left_for e h s"
proof -
  have "exchanges_left (recoveries_allowed e) h db + 1 = left_for e h s"
    using recovered_once [OF ok q, of "recoveries_allowed e"] t by simp
  moreover have "token_db_ok db"
    using worn_recovery [of "recoveries_allowed e" "as_tokens s" "tk_id q" "recoveries_allowed e"] t ok
    by (simp add: worn_def)
  with worn_issue [OF r] have "left_for e h s' \<le> exchanges_left (recoveries_allowed e) h db"
    by (simp add: worn_def)
  ultimately show ?thesis by simp
qed

lemma refresh_spends:
  assumes ok: "token_db_ok (as_tokens s)"
    and r: "refresh_verified e now se fails tok
        (verify_refresh_token (ae_env e) (ae_rt e) now tok (as_tokens s)) s = (r, s')" "granted r"
  shows "left_for e (hash_token (ae_rt e) tok) s' + 1 \<le> left_for e (hash_token (ae_rt e) tok) s"
  using refresh_verified_cases [OF r(1)]
proof (elim disjE exE conjE)
  fix u
  assume v: "vr_status (verify_refresh_token (ae_env e) (ae_rt e) now tok (as_tokens s)) = VALID"
    and i: "issue_rotated e now se fails tok
      (verify_refresh_token (ae_env e) (ae_rt e) now tok (as_tokens s)) u s = (r, s')"
  from verify_find [OF v] obtain q where q: "find_token (as_tokens s) (hash_token (ae_rt e) tok) = Some q"
    "verify_refresh_token (ae_env e) (ae_rt e) now tok (as_tokens s) = verify_row (ae_env e) now q" by auto
  with v have "tk_revoked q = None" by (simp add: verify_row_valid)
  from issue_valid_spends [OF ok v q(1) this i r(2)] show ?thesis .
next
  fix i u db reserved
  assume v: "vr_status (verify_refresh_token (ae_env e) (ae_rt e) now tok (as_tokens s)) = ROTATED_STALE_RECOVERABLE"
    and i: "vr_token (verify_refresh_token (ae_env e) (ae_rt e) now tok (as_tokens s)) = Some i"
    and t: "try_increment_refresh_recovery_count i (recoveries_allowed e) (as_tokens s) = (reserved, db)"
    and rest: "if reserved then issue_rotated e now se fails tok
        (verify_refresh_token (ae_env e) (ae_rt e) now tok (as_tokens s)) u (s\<lparr>as_tokens := db\<rparr>) = (r, s')
      else as_tokens s' = db \<and> \<not> granted r"
  from verify_find [OF v] obtain q where q: "find_token (as_tokens s) (hash_token (ae_rt e) tok) = Some q"
    "verify_refresh_token (ae_env e) (ae_rt e) now tok (as_tokens s) = verify_row (ae_env e) now q" by auto
  have "i = tk_id q" using i q(2) by (simp add: verify_row_def token_result_def Let_def split: if_splits)
  moreover have reserved using rest r(2) by (auto split: if_splits)
  ultimately show ?thesis using recovered_spends [OF ok q(1)] t rest by simp
qed (use r(2) in simp)

subsection \<open>Runs of requests\<close>

definition exchanged :: "auth_env \<Rightarrow> string \<Rightarrow> auth_request \<Rightarrow> (http_exc + response) \<Rightarrow> bool" where
  "exchanged e h req r =
     (granted r \<and> (case req of
        Refresh ck body _ _ \<Rightarrow>
          (case presented_token e ck body of PStr tok \<Rightarrow> hash_token (ae_rt e) tok = h | _ \<Rightarrow> False)
      | _ \<Rightarrow> False))"

fun exchanges :: "auth_env \<Rightarrow> string \<Rightarrow> (instant \<times> auth_request) list \<Rightarrow> auth_state \<Rightarrow> nat" where
  "exchanges e h [] s = 0"
| "exchanges e h ((now, req) # reqs) s =
     (let (r, s1) = serve e now req s
      in (if exchanged e h req r then 1 else 0) + exchanges e h reqs s1)"

lemma serve_refresh:
  assumes "refresh_tokens e now se fails ck body s = (r, s')"
  shows "(as_tokens s' = as_tokens s \<and> \<not> granted r) \<or>
    (\<exists>tok s1. presented_token e ck body = PStr tok \<and> as_tokens s1 = as_tokens s \<and>
       refresh_verified e now se fails tok
         (verify_refresh_token (ae_env e) (ae_rt e) now tok (as_tokens s1)) s1 = (r, s'))"
proof (cases "truthy (presented_token e ck body)")
  case False
  with assms show ?thesis by (auto simp: refresh_tokens_def Let_def granted_def)
next
  case True
  show ?thesis
  proof (cases "presented_token e ck body")
    case (PStr tok)
    define s1 where "s1 = s\<lparr>as_limits := snd (check_rate_limit now (as_limits s)
        (refresh_token_rate_limit_key (ae_rt e) tok) ''refresh_token'')\<rparr>"
    have "as_tokens s1 = as_tokens s" by (simp add: s1_def)
    with True PStr assms show ?thesis
      by (cases "fst (check_rate_limit now (as_limits s)
          (refresh_token_rate_limit_key (ae_rt e) tok) ''refresh_token'')")
        (auto simp: refresh_tokens_def Let_def s1_def granted_def split: prod.splits)
  qed (use True assms in \<open>auto simp: refresh_tokens_def Let_def granted_def\<close>)
qed

lemma serve_step:
  assumes "serve e now req s = (r, s')"
  shows "worn_by e s s' \<and>
    (token_db_ok (as_tokens s) \<longrightarrow> exchanged e h req r \<longrightarrow> left_for e h s' + 1 \<le> left_for e h s)"
proof (cases req)
  case (Refresh ck body se fails)
  with assms have "refresh_tokens e now se fails ck body s = (r, s')" by (simp add: serve_def)
  from serve_refresh [OF this] show ?thesis
  proof (elim disjE exE conjE)
    fix tok s1
    assume p: "presented_token e ck body = PStr tok" and same: "as_tokens s1 = as_tokens s"
      and rv: "refresh_verified e now se fails tok
        (verify_refresh_token (ae_env e) (ae_rt e) now tok (as_tokens s1)) s1 = (r, s')"
    from worn_refresh_verified [OF rv] refresh_spends [OF _ rv] p same Refresh show ?thesis
      by (auto simp: exchanged_def)
  qed (simp add: exchanged_def)
qed (use assms in \<open>auto simp: serve_def exchanged_def tokens_change_password
  dest: worn_login worn_logout tokens_change_password\<close>)

lemma serve_all_worn: "serve_all e reqs s = (rs, s') \<Longrightarrow> worn_by e s s'"
proof (induction reqs arbitrary: s s' rs)
  case Nil
  then show ?case by simp
next
  case (Cons x reqs)
  obtain now req where x: "x = (now, req)" by force
  obtain r s1 where one: "serve e now req s = (r, s1)" by force
  obtain rs2 s2 where more: "serve_all e reqs s1 = (rs2, s2)" by force
  from Cons.prems x one more have "s' = s2" by simp
  with Cons.IH [OF more] serve_step [OF one] show ?case by (blast intro: worn_trans)
qed

lemma exchanges_bound:
  "token_db_ok (as_tokens s) \<Longrightarrow>
     int (exchanges e h reqs s) + left_for e h (snd (serve_all e reqs s)) \<le> left_for e h s"
proof (induction reqs arbitrary: s)
  case Nil
  then show ?case by simp
next
  case (Cons x reqs)
  obtain now req where x: "x = (now, req)" by force
  obtain r s1 where one: "serve e now req s = (r, s1)" by force
  obtain rs2 s2 where more: "serve_all e reqs s1 = (rs2, s2)" by force
  from serve_step [OF one, of h] Cons.prems
  have "token_db_ok (as_tokens s1)" "left_for e h s1 + (if exchanged e h req r then 1 else 0) \<le> left_for e h s"
    by (auto simp: worn_def)
  with Cons.IH [of s1] x one more show ?case by (simp split: if_splits)
qed

lemma left_nonneg: "0 \<le> exchanges_left m h db" if "0 \<le> m"
  using that by (simp add: exchanges_left_def split: option.split)

lemma left_at_most:
  assumes "token_db_ok db" "0 \<le> m"
  shows "exchanges_left m h db \<le> 1 + m"
proof (cases "find_token db h")
  case None
  then show ?thesis by (simp add: exchanges_left_def)
next
  case (Some r)
  with find_token_in [OF Some] assms(1) have "0 \<le> tk_recoveries r"
    by (simp add: token_db_ok_def list_all_iff)
  with Some assms(2) show ?thesis by (simp add: exchanges_left_def)
qed

subsection \<open>A deployment to evaluate\<close>

definition demo_auth :: auth_env where
  "demo_auth = \<lparr>ae_env = (\<lambda>_. None),
     ae_rt = \<lparr>rt_fmt = (\<lambda>_. ''''), rt_sha = (\<lambda>s. ''h'' @ s), rt_uuid5 = (\<lambda>s. s), rt_iso = (\<lambda>_. ''''),
              rt_parse_iso = (\<lambda>_. None)\<rparr>,
     ae_verify = (\<lambda>pw h. pw = h), ae_hash = (\<lambda>pw. pw), ae_jwt = cl_sub, ae_json = (\<lambda>_. None),
     ae_cookie_domain = None, ae_cookie_secure = True\<rparr>"

definition demo_users :: auth_state where
  "demo_users = \<lparr>as_users = [\<lparr>us_id = 7, us_name = ''ana'', us_hash = ''pw'', us_role = Enum_role ''VIEWER'',
       us_active = True, us_force_change = False\<rparr>],
     as_tokens = \<lparr>td_rows = [], td_next = 1\<rparr>, as_limits = [], as_cache = [], as_audit = []\<rparr>"

definition demo_secrets :: "string \<Rightarrow> secrets" where
  "demo_secrets raw = \<lparr>se_session = ''sid'', se_raw = raw, se_spare = ''spare''\<rparr>"

definition demo_login :: "instant \<times> auth_request" where
  "demo_login = (seconds 10, Login ''ana'' ''pw'' (demo_secrets ''t1''))"

definition demo_refresh :: "int \<Rightarrow> string \<Rightarrow> string \<Rightarrow> instant \<times> auth_request" where
  "demo_refresh n old new = (seconds n, Refresh (Some old) No_body (demo_secrets new) False)"

lemma demo_db_ok: "token_db_ok (as_tokens demo_users)"
  by (simp add: demo_users_def token_db_ok_def)

subsection \<open>Guarantees of the session life cycle\<close>

text \<open>
  C13: A refresh token is good for a bounded number of exchanges. Whatever logins, refreshes,
  logouts and password changes are served in whatever order, the requests that present a token
  with a given hash and are answered with a new pair number at most one plus the configured
  recoveries: rotation ends the regular use, and every replay inside the grace window takes one
  of the reserved recoveries.
\<close>

theorem token_exchanges_bounded:
  assumes "token_db_ok (as_tokens s)"
  shows "int (exchanges e h reqs s) \<le> 1 + get_stale_recovery_max_recoveries (ae_env e)"
proof -
  have "token_db_ok (as_tokens (snd (serve_all e reqs s)))"
    using serve_all_worn [of e reqs s] assms by (cases "serve_all e reqs s") (auto simp: worn_def)
  with exchanges_bound [OF assms, of e h reqs] left_at_most [OF assms recoveries_nonneg, of e h]
    left_nonneg [OF recoveries_nonneg, of e h "as_tokens (snd (serve_all e reqs s))"]
  show ?thesis by linarith
qed

theorem token_exchanges_bounded_witness:
  "exchanges demo_auth ''ht1''
     [demo_login, demo_refresh 20 ''t1'' ''t2'', demo_refresh 21 ''t1'' ''t3'',
      demo_refresh 22 ''t1'' ''t4'', demo_refresh 23 ''t1'' ''t5'', demo_refresh 24 ''t1'' ''t6''] demo_users = 4 \<and>
   int (exchanges demo_auth ''ht1''
     [demo_login, demo_refresh 20 ''t1'' ''t2''] demo_users) \<le> 1 + get_stale_recovery_max_recoveries (ae_env demo_auth)"
  by (rule conjI, code_simp) (rule token_exchanges_bounded [OF demo_db_ok])



text \<open>
  Logging out leaves the tokens rotated within the grace window exchangeable. The handler
  revokes only the rows that are not revoked yet, so a refresh token that was rotated just before
  keeps the reason \<open>rotated\<close>: replayed after the logout it is answered with a new access token
  and a new refresh token.
\<close>

theorem logout_leaves_rotated:
  "map granted (fst (serve_all demo_auth
     [demo_login, demo_refresh 20 ''t1'' ''t2'', (seconds 21, Logout ''ana''),
      demo_refresh 22 ''t2'' ''t3'', demo_refresh 22 ''t1'' ''t4'', demo_refresh 60 ''t4'' ''t5'']
     demo_users)) = [True, True, True, False, True, True]"
  by code_simp

text \<open>
  Two workers that verify the same token before either has rotated it both answer with a new
  pair: the verification and the rotation are separate transactions.
\<close>

lemma refresh_race:
  "let s = snd (serve_all demo_auth [demo_login] demo_users);
       v = verify_refresh_token (ae_env demo_auth) (ae_rt demo_auth) (seconds 20) ''t1'' (as_tokens s);
       (r1, s1) = refresh_verified demo_auth (seconds 20) (demo_secrets ''a'') False ''t1'' v s;
       (r2, s2) = refresh_verified demo_auth (seconds 20) (demo_secrets ''b'') False ''t1'' v s1
   in vr_status v = VALID \<and> granted r1 \<and> granted r2"
  by code_simp

subsection \<open>Guessing passwords\<close>

abbreviation lock_of :: "string \<Rightarrow> auth_state \<Rightarrow> lock_state" where
  "lock_of name s \<equiv> seen (as_limits s) (''user:'' @ name) ''username''"

definition wrong_password :: "auth_env \<Rightarrow> auth_state \<Rightarrow> string \<Rightarrow> string \<Rightarrow> bool" where
  "wrong_password e s name pw =
     (case user_by_name s name of None \<Rightarrow> True | Some u \<Rightarrow> \<not> ae_verify e pw (us_hash u))"

definition failure_reply :: "instant \<Rightarrow> lock_state \<Rightarrow> http_exc" where
  "failure_reply now st = (case st of Locked n until \<Rightarrow> too_many (max 1 (whole_seconds (until - now)))
     | _ \<Rightarrow> invalid_credentials)"

lemma key_of_user: "stored_identity_key name ''username'' = ''user:'' @ name"
  by (simp add: stored_identity_key_def)

lemma info_locked: "ai_locked (info_of st) = (case st of Locked n u \<Rightarrow> Some u | _ \<Rightarrow> None)"
  by (simp add: info_of_def split: lock_state.split)

lemma login_failed_state:
  assumes d: "distinct (identities (as_limits s))" and r: "login_failed now name s = (r, s')"
  defines "st \<equiv> fail_state now (lapse now (lock_of name s))"
  shows "r = Inl (failure_reply now st) \<and> lock_of name s' = st \<and>
    distinct (identities (as_limits s')) \<and> as_users s' = as_users s"
proof -
  obtain rows where
    inc: "increment_attempts now None (as_limits s) name ''username'' = Inr (info_of st, rows)"
    and rows: "distinct (identities rows)" "seen rows (''user:'' @ name) ''username'' = st"
    by (rule increment_seen [OF d, of now name "''username''"]) (simp add: key_of_user st_def)
  have counted: "count_failed now name ''username'' s = (Inr (info_of st), s\<lparr>as_limits := rows\<rparr>)"
    by (simp add: count_failed_def inc)
  have "r = Inl (failure_reply now st) \<and> as_limits s' = rows \<and> as_users s' = as_users s"
    using r unfolding login_failed_def counted
    by (simp add: info_locked failure_reply_def raise_rate_limit_locked_def audited_def
        split: lock_state.splits) auto
  with rows show ?thesis by simp
qed

lemma wrong_login:
  assumes d: "distinct (identities (as_limits s))" and w: "wrong_password e s name pw"
    and r: "login_for_access_token e now se name pw s = (r, s')"
  defines "st \<equiv> fail_state now (lapse now (lock_of name s))"
  shows "r = Inl (failure_reply now st) \<and> lock_of name s' = st \<and>
    distinct (identities (as_limits s')) \<and> as_users s' = as_users s"
proof (cases "lapse now (lock_of name s)")
  case (Locked n until)
  then have "s' = audited ''LOGIN_FAILURE'' DENIED (Some name) ''rate_limited''
      (s\<lparr>as_limits := prune_expired_attempts now (as_limits s)\<rparr>) \<and>
      r = Inl (failure_reply now st)"
    using r by (auto simp: login_for_access_token_def check_rate_limit_state [OF d] key_of_user
        failure_reply_def st_def)
  with Locked show ?thesis
    by (simp add: audited_def seen_pruned [OF d] distinct_pruned [OF d] st_def)
next
  case Clean
  with r w have "login_failed now name (s\<lparr>as_limits := prune_expired_attempts now (as_limits s)\<rparr>) = (r, s')"
    by (auto simp: login_for_access_token_def check_rate_limit_state [OF d] key_of_user
        wrong_password_def user_by_name_def split: option.splits)
  from login_failed_state [OF _ this] show ?thesis
    by (simp add: distinct_pruned [OF d] seen_pruned [OF d] lapse_lapse st_def)
next
  case (Failing n since)
  with r w have "login_failed now name (s\<lparr>as_limits := prune_expired_attempts now (as_limits s)\<rparr>) = (r, s')"
    by (auto simp: login_for_access_token_def check_rate_limit_state [OF d] key_of_user
        wrong_password_def user_by_name_def split: option.splits)
  from login_failed_state [OF _ this] show ?thesis
    by (simp add: distinct_pruned [OF d] seen_pruned [OF d] lapse_lapse st_def)
qed

lemma locked_login:
  assumes d: "distinct (identities (as_limits s))"
    and l: "lapse now (lock_of name s) = Locked n until"
  shows "fst (login_for_access_token e now se name pw s) = Inl (too_many (max 1 (whole_seconds (until - now))))"
  using l by (simp add: login_for_access_token_def check_rate_limit_state [OF d] key_of_user)

text \<open>
  The fourth wrong password in a row locks the account for fifteen minutes. Three wrong
  logins are answered 401, the fourth (within a day) 429 with \<open>Retry-After: 900\<close>, and until the
  lock ends every login of that name is answered 429 with the remaining seconds, the one with
  the right password included.
\<close>

theorem login_lockout:
  assumes d: "distinct (identities (as_limits s))" and fresh: "lapse t1 (lock_of name s) = Clean"
    and w: "wrong_password e s name w1" "wrong_password e s name w2" "wrong_password e s name w3"
      "wrong_password e s name w4"
    and t: "t1 \<le> t2" "t2 \<le> t3" "t3 \<le> t4" "t4 \<le> t1 + attempt_retention" "t4 \<le> t5" "t5 < t4 + lockout_duration"
  shows "fst (serve_all e [(t1, Login name w1 se1), (t2, Login name w2 se2), (t3, Login name w3 se3),
       (t4, Login name w4 se4), (t5, Login name pw se5)] s) =
     [Inl invalid_credentials, Inl invalid_credentials, Inl invalid_credentials, Inl (too_many 900),
      Inl (too_many (max 1 (whole_seconds (t4 + lockout_duration - t5))))]"
proof -
  obtain r1 s1 where s1: "login_for_access_token e t1 se1 name w1 s = (r1, s1)" by force
  obtain r2 s2 where s2: "login_for_access_token e t2 se2 name w2 s1 = (r2, s2)" by force
  obtain r3 s3 where s3: "login_for_access_token e t3 se3 name w3 s2 = (r3, s3)" by force
  obtain r4 s4 where s4: "login_for_access_token e t4 se4 name w4 s3 = (r4, s4)" by force
  obtain r5 s5 where s5: "login_for_access_token e t5 se5 name pw s4 = (r5, s5)" by force
  have wrong: "wrong_password e s' name x = wrong_password e s name x" if "as_users s' = as_users s" for s' x
    using that by (simp add: wrong_password_def user_by_name_def)
  have f1: "r1 = Inl invalid_credentials \<and> lock_of name s1 = Failing 1 t1 \<and>
      distinct (identities (as_limits s1)) \<and> as_users s1 = as_users s"
    using wrong_login [OF d w(1) s1] fresh by (simp add: failure_reply_def another_failure_def max_attempts_def)
  then have "wrong_password e s1 name w2" using wrong w(2) by blast
  from wrong_login [OF _ this s2] f1 t
  have f2: "r2 = Inl invalid_credentials \<and> lock_of name s2 = Failing 2 t2 \<and>
      distinct (identities (as_limits s2)) \<and> as_users s2 = as_users s"
    by (simp add: failure_reply_def another_failure_def max_attempts_def)
  then have "wrong_password e s2 name w3" using wrong w(3) by blast
  from wrong_login [OF _ this s3] f2 t
  have f3: "r3 = Inl invalid_credentials \<and> lock_of name s3 = Failing 3 t3 \<and>
      distinct (identities (as_limits s3)) \<and> as_users s3 = as_users s"
    by (simp add: failure_reply_def another_failure_def max_attempts_def)
  then have "wrong_password e s3 name w4" using wrong w(4) by blast
  from wrong_login [OF _ this s4] f3 t
  have f4: "r4 = Inl (too_many 900) \<and> lock_of name s4 = Locked 4 (t4 + lockout_duration) \<and>
      distinct (identities (as_limits s4))"
    by (simp add: failure_reply_def another_failure_def max_attempts_def whole_seconds_def
        lockout_duration_def seconds_def)
  then have "r5 = Inl (too_many (max 1 (whole_seconds (t4 + lockout_duration - t5))))"
    using locked_login [of s4 t5 name 4 "t4 + lockout_duration" e se5 pw] s5 t by simp
  with f1 f2 f3 f4 s1 s2 s3 s4 s5 show ?thesis by (simp add: serve_def)
qed

theorem login_lockout_witness:
  "fst (serve_all demo_auth [(seconds 1, Login ''ana'' ''a'' (demo_secrets ''x'')),
       (seconds 2, Login ''ana'' ''b'' (demo_secrets ''x'')), (seconds 3, Login ''ana'' ''c'' (demo_secrets ''x'')),
       (seconds 4, Login ''ana'' ''d'' (demo_secrets ''x'')), (seconds 5, Login ''ana'' ''pw'' (demo_secrets ''x''))]
     demo_users) =
     [Inl invalid_credentials, Inl invalid_credentials, Inl invalid_credentials, Inl (too_many 900),
      Inl (too_many (max 1 (whole_seconds (seconds 4 + lockout_duration - seconds 5))))]"
proof (rule login_lockout)
  show "distinct (identities (as_limits demo_users))" by (simp add: demo_users_def)
  show "lapse (seconds 1) (lock_of ''ana'' demo_users) = Clean" by code_simp
  show "wrong_password demo_auth demo_users ''ana'' ''a''" "wrong_password demo_auth demo_users ''ana'' ''b''"
    "wrong_password demo_auth demo_users ''ana'' ''c''" "wrong_password demo_auth demo_users ''ana'' ''d''"
    by code_simp+
qed (simp_all add: attempt_retention_def lockout_duration_def seconds_def)

text \<open>
  The old password can be guessed without limit through the password change. The handler
  checks the lock but records no failure: any number of wrong guesses is answered 400, none of
  them is counted, and the account is never locked.
\<close>

theorem password_guessing_unlimited:
  assumes clean: "as_limits s = []" and u: "user_by_name s me = Some u"
    and wrong: "list_all (\<lambda>(now, guess). \<not> ae_verify e guess (us_hash u)) guesses"
  shows "serve_all e (map (\<lambda>(now, guess). (now, Change_password me guess new)) guesses) s =
     (map (\<lambda>_. Inl (http_error 400 ''Incorrect old password'')) guesses, s)"
  using wrong
proof (induction guesses)
  case Nil
  then show ?case by simp
next
  case (Cons x guesses)
  obtain now guess where x: "x = (now, guess)" by force
  have "check_rate_limit now [] me ''username'' = (Inr (), [])"
    by (simp add: check_rate_limit_def is_locked_def prune_expired_attempts_def delete_where_def
        get_locked_attempt_def)
  with Cons.prems x u clean
  have "serve e now (Change_password me guess new) s = (Inl (http_error 400 ''Incorrect old password''), s)"
    by (auto simp: serve_def change_password_def user_by_name_def)
  with Cons x show ?case by simp
qed

theorem password_guessing_unlimited_witness:
  "serve_all demo_auth (map (\<lambda>(now, guess). (now, Change_password ''ana'' guess ''new''))
      (map (\<lambda>i. (seconds i, ''guess'')) [1..100])) demo_users =
     (map (\<lambda>_. Inl (http_error 400 ''Incorrect old password'')) (map (\<lambda>i. (seconds i, ''guess'')) [1..100]),
      demo_users)"
  by (rule password_guessing_unlimited [where u = "hd (as_users demo_users)"])
    (simp_all add: demo_users_def user_by_name_def demo_auth_def list_all_iff)

end
