(* ===== verification/Poll_Contracts.thy ===== *)
theory Poll_Contracts
  imports Py_Values
begin

section \<open>Contracts of the polling pipeline (polling/contracts.py, polling/idempotency.py)\<close>

text \<open>
  The enums of the pipeline, the coercions that every task and every result envelope pass
  through, and the idempotency key of a result bucket. \<open>PollingPriority\<close> is an \<open>IntEnum\<close>:
  the priorities are ordered by their numbers, lower first.
\<close>

datatype polling_protocol = ICMP | SNMP | CLI | REST | MQTT_STUB

datatype polling_priority = ICMP_AVAILABILITY | HIGH_CRITICALITY | NORMAL | COOLDOWN

datatype task_status = Available | Leased | Deferred | Completed | Retry_wait | Dead_letter

datatype result_status = OK | WARNING | CRITICAL | NO_DATA | TIMEOUT | ERROR

fun protocol_value :: "polling_protocol \<Rightarrow> string" where
  "protocol_value ICMP = ''ICMP''"
| "protocol_value SNMP = ''SNMP''"
| "protocol_value CLI = ''CLI''"
| "protocol_value REST = ''REST''"
| "protocol_value MQTT_STUB = ''MQTT_STUB''"

fun priority_value :: "polling_priority \<Rightarrow> int" where
  "priority_value ICMP_AVAILABILITY = 0"
| "priority_value HIGH_CRITICALITY = 10"
| "priority_value NORMAL = 50"
| "priority_value COOLDOWN = 90"

fun task_status_value :: "task_status \<Rightarrow> string" where
  "task_status_value Available = ''available''"
| "task_status_value Leased = ''leased''"
| "task_status_value Deferred = ''deferred''"
| "task_status_value Completed = ''completed''"
| "task_status_value Retry_wait = ''retry_wait''"
| "task_status_value Dead_letter = ''dead_letter''"

fun result_status_value :: "result_status \<Rightarrow> string" where
  "result_status_value OK = ''OK''"
| "result_status_value WARNING = ''WARNING''"
| "result_status_value CRITICAL = ''CRITICAL''"
| "result_status_value NO_DATA = ''NO_DATA''"
| "result_status_value TIMEOUT = ''TIMEOUT''"
| "result_status_value ERROR = ''ERROR''"

instantiation polling_priority :: linorder
begin

definition less_eq_polling_priority :: "polling_priority \<Rightarrow> polling_priority \<Rightarrow> bool" where
  "less_eq_polling_priority p q \<longleftrightarrow> priority_value p \<le> priority_value q"

definition less_polling_priority :: "polling_priority \<Rightarrow> polling_priority \<Rightarrow> bool" where
  "less_polling_priority p q \<longleftrightarrow> priority_value p < priority_value q"

instance
proof
  fix p q :: polling_priority
  show "p \<le> q \<Longrightarrow> q \<le> p \<Longrightarrow> p = q"
    by (cases p; cases q) (simp_all add: less_eq_polling_priority_def)
qed (auto simp: less_eq_polling_priority_def less_polling_priority_def)

end

subsection \<open>Enum lookup by value\<close>

text \<open>
  \<open>Enum(value)\<close> finds the member with that value or raises \<open>ValueError\<close>. The interface: the
  value function is injective on the listed members, so that the lookup inverts it.
\<close>

definition enum_lookup :: "('m \<Rightarrow> 'v) \<Rightarrow> 'm list \<Rightarrow> 'v \<Rightarrow> 'm option" where
  "enum_lookup val members v = find (\<lambda>m. val m = v) members"

locale py_enum =
  fixes val :: "'m \<Rightarrow> 'v" and members :: "'m list"
  assumes val_inj: "val m = val m' \<Longrightarrow> m = m'"
    and all_members: "m \<in> set members"
begin

lemma lookup_val: "enum_lookup val members (val m) = Some m"
proof -
  have "enum_lookup val members (val m) \<noteq> None"
    using all_members by (auto simp: enum_lookup_def find_None_iff)
  moreover have "enum_lookup val members (val m) = Some m' \<Longrightarrow> m' = m" for m'
    using val_inj by (auto simp: enum_lookup_def find_Some_iff)
  ultimately show ?thesis by auto
qed

lemma lookup_Some: "enum_lookup val members v = Some m \<longleftrightarrow> val m = v"
  using lookup_val by (auto simp: enum_lookup_def find_Some_iff)

lemma lookup_None: "enum_lookup val members v = None \<longleftrightarrow> (\<forall>m. val m \<noteq> v)"
  using lookup_Some by (metis not_None_eq)

lemma lookup_case:
  "(case enum_lookup val members v of Some m' \<Rightarrow> Inr m' | None \<Rightarrow> Inl e) = Inr m \<longleftrightarrow> val m = v"
proof (cases "enum_lookup val members v")
  case None
  then show ?thesis using lookup_None [of v] by simp
next
  case (Some m')
  then have "val m' = v" using lookup_Some by simp
  with Some show ?thesis using val_inj by auto
qed

end

definition protocols :: "polling_protocol list" where
  "protocols = [ICMP, SNMP, CLI, REST, MQTT_STUB]"

definition priorities :: "polling_priority list" where
  "priorities = [ICMP_AVAILABILITY, HIGH_CRITICALITY, NORMAL, COOLDOWN]"

definition task_statuses :: "task_status list" where
  "task_statuses = [Available, Leased, Deferred, Completed, Retry_wait, Dead_letter]"

definition result_statuses :: "result_status list" where
  "result_statuses = [OK, WARNING, CRITICAL, NO_DATA, TIMEOUT, ERROR]"

interpretation protocol_enum: py_enum protocol_value protocols
proof
  show "protocol_value m = protocol_value m' \<Longrightarrow> m = m'" for m m'
    by (cases m; cases m') simp_all
  show "m \<in> set protocols" for m by (cases m) (simp_all add: protocols_def)
qed

interpretation priority_enum: py_enum priority_value priorities
proof
  show "priority_value m = priority_value m' \<Longrightarrow> m = m'" for m m'
    by (cases m; cases m') simp_all
  show "m \<in> set priorities" for m by (cases m) (simp_all add: priorities_def)
qed

interpretation task_status_enum: py_enum task_status_value task_statuses
proof
  show "task_status_value m = task_status_value m' \<Longrightarrow> m = m'" for m m'
    by (cases m; cases m') simp_all
  show "m \<in> set task_statuses" for m by (cases m) (simp_all add: task_statuses_def)
qed

interpretation result_status_enum: py_enum result_status_value result_statuses
proof
  show "result_status_value m = result_status_value m' \<Longrightarrow> m = m'" for m m'
    by (cases m; cases m') simp_all
  show "m \<in> set result_statuses" for m by (cases m) (simp_all add: result_statuses_def)
qed

subsection \<open>Coercions\<close>

text \<open>A field that is an enum member already, or a string still to be coerced.\<close>

datatype 'm enum_or_str = Member 'm | Raw string

fun coerce_protocol :: "polling_protocol enum_or_str \<Rightarrow> polling_protocol result" where
  "coerce_protocol (Member p) = Inr p"
| "coerce_protocol (Raw s) =
     (case enum_lookup protocol_value protocols (upper s) of
        Some p \<Rightarrow> Inr p
      | None \<Rightarrow> Inl (ValueError (''Unsupported polling protocol: '' @ s)))"

fun coerce_result_status :: "result_status enum_or_str \<Rightarrow> result_status result" where
  "coerce_result_status (Member p) = Inr p"
| "coerce_result_status (Raw s) =
     (case enum_lookup result_status_value result_statuses (upper s) of
        Some p \<Rightarrow> Inr p
      | None \<Rightarrow> Inl (ValueError (''Unsupported polling result status: '' @ s)))"

fun coerce_task_status :: "task_status enum_or_str \<Rightarrow> task_status result" where
  "coerce_task_status (Member p) = Inr p"
| "coerce_task_status (Raw s) =
     (case enum_lookup task_status_value task_statuses s of
        Some p \<Rightarrow> Inr p
      | None \<Rightarrow> Inl (ValueError (s @ '' is not a valid PollingTaskStatus'')))"

subsection \<open>Tasks and result envelopes\<close>

text \<open>A priority as the caller passes it: absent, a member, or a number.\<close>

datatype priority_arg = No_priority | Prio polling_priority | Prio_int int

record poll_task_args =
  a_protocol :: "polling_protocol enum_or_str"
  a_priority :: priority_arg
  a_status :: "task_status enum_or_str"

record poll_task =
  t_protocol :: polling_protocol
  t_priority :: polling_priority
  t_status :: task_status

fun task_priority :: "polling_protocol \<Rightarrow> priority_arg \<Rightarrow> polling_priority result" where
  "task_priority p No_priority = Inr (if p = ICMP then ICMP_AVAILABILITY else NORMAL)"
| "task_priority p (Prio q) = Inr q"
| "task_priority p (Prio_int i) =
     (case enum_lookup priority_value priorities i of
        Some q \<Rightarrow> Inr q
      | None \<Rightarrow> Inl (ValueError (show_int i @ '' is not a valid PollingPriority'')))"

definition poll_task_init :: "poll_task_args \<Rightarrow> poll_task result" where
  "poll_task_init a =
     bindR (coerce_protocol (a_protocol a)) (\<lambda>p.
     bindR (coerce_task_status (a_status a)) (\<lambda>st.
     bindR (task_priority p (a_priority a)) (\<lambda>pr.
       Inr \<lparr>t_protocol = p, t_priority = pr, t_status = st\<rparr>)))"

record envelope_args =
  ea_protocol :: "polling_protocol enum_or_str"
  ea_status :: "result_status enum_or_str"

definition poll_result_init :: "envelope_args \<Rightarrow> (polling_protocol \<times> result_status) result" where
  "poll_result_init a =
     bindR (coerce_protocol (ea_protocol a)) (\<lambda>p.
     bindR (coerce_result_status (ea_status a)) (\<lambda>st. Inr (p, st)))"

text \<open>Coercing the value of a member gives the member back, in any letter case.\<close>

lemma upper_protocol_value [simp]: "upper (protocol_value p) = protocol_value p"
  by (cases p) (simp_all add: upper_char_def is_lower_def)

lemma upper_result_status_value [simp]: "upper (result_status_value p) = result_status_value p"
  by (cases p) (simp_all add: upper_char_def is_lower_def)

lemma coerce_protocol_value: "coerce_protocol (Raw (protocol_value p)) = Inr p"
  by (simp add: protocol_enum.lookup_val)

lemma coerce_protocol_Inr:
  "coerce_protocol (Raw s) = Inr p \<longleftrightarrow> upper s = protocol_value p"
  unfolding coerce_protocol.simps protocol_enum.lookup_case by (rule eq_commute)

lemma coerce_result_status_Inr:
  "coerce_result_status (Raw s) = Inr p \<longleftrightarrow> upper s = result_status_value p"
  unfolding coerce_result_status.simps result_status_enum.lookup_case by (rule eq_commute)

lemma task_priority_default:
  "poll_task_init \<lparr>a_protocol = Member p, a_priority = No_priority, a_status = Member st\<rparr> =
     Inr \<lparr>t_protocol = p, t_priority = (if p = ICMP then ICMP_AVAILABILITY else NORMAL),
          t_status = st\<rparr>"
  by (simp add: poll_task_init_def)

subsection \<open>Idempotency keys\<close>

text \<open>
  The key of a result: the digest of seven normalised parts joined by \<open>|\<close>. \<open>sha\<close> is
  \<open>hashlib.sha256(...).hexdigest()\<close>, \<open>iso_text\<close> the ISO text of a bucket's start, both functions of
  the runtime.
\<close>

definition utc_bucket :: "instant \<Rightarrow> int \<Rightarrow> int result" where
  "utc_bucket observed_at bucket_seconds =
     (if bucket_seconds < 1 then Inl (ValueError ''bucket_seconds must be >= 1'')
      else Inr ((if observed_at < 0 then - (- observed_at div 1000000) else observed_at div 1000000)
                div bucket_seconds * bucket_seconds))"

definition normalize_source :: "string \<Rightarrow> string" where
  "normalize_source s = lower (strip s)"

record idem_args =
  i_ci :: string
  i_metric :: string
  i_protocol :: "polling_protocol enum_or_str"
  i_source :: string
  i_observed :: instant
  i_cycle :: string
  i_kind :: string
  i_bucket :: int

definition key_parts :: "(int \<Rightarrow> string) \<Rightarrow> idem_args \<Rightarrow> string list result" where
  "key_parts iso_text a =
     bindR (utc_bucket (i_observed a) (i_bucket a)) (\<lambda>b.
       Inr [strip (i_ci a), strip (i_metric a),
            (case i_protocol a of Member p \<Rightarrow> protocol_value p | Raw s \<Rightarrow> upper s),
            normalize_source (i_source a), iso_text b, i_cycle a,
            lower (strip (if i_kind a = [] then ''sample'' else i_kind a))])"

definition generate_idempotency_key ::
    "(string \<Rightarrow> string) \<Rightarrow> (int \<Rightarrow> string) \<Rightarrow> idem_args \<Rightarrow> string result" where
  "generate_idempotency_key sha iso_text a =
     bindR (key_parts iso_text a) (\<lambda>ps. Inr (''sha256:'' @ sha (join ''|'' ps)))"

text \<open>A bucket starts at most \<open>bucket_seconds\<close> before the observation, on a multiple of it.\<close>

lemma utc_bucket_bounds:
  assumes "0 \<le> t" "utc_bucket t n = Inr b"
  shows "b * 1000000 \<le> t" "t < (b + n) * 1000000" "b mod n = 0"
proof -
  from assms have n: "1 \<le> n" and b: "b = t div 1000000 div n * n"
    by (auto simp: utc_bucket_def split: if_splits)
  have "t div 1000000 = b + t div 1000000 mod n" by (simp add: b)
  moreover have "0 \<le> t div 1000000 mod n" "t div 1000000 mod n < n" using n by simp_all
  ultimately have "b \<le> t div 1000000" "t div 1000000 < b + n" by simp_all
  then have "b \<le> t div 1000000" "t div 1000000 + 1 \<le> b + n" by simp_all
  moreover have "t div 1000000 * 1000000 \<le> t" "t < (t div 1000000 + 1) * 1000000" by simp_all
  ultimately show "b * 1000000 \<le> t" "t < (b + n) * 1000000"
    by (meson mult_right_mono order_less_le_trans order_trans zero_le_numeral)+
  show "b mod n = 0" by (simp add: b)
qed

text \<open>The key depends on the normalised parts alone.\<close>

lemma key_parts_cong:
  "key_parts iso_text a = key_parts iso_text b \<Longrightarrow>
     generate_idempotency_key sha iso_text a = generate_idempotency_key sha iso_text b"
  by (simp add: generate_idempotency_key_def)

subsection \<open>Properties\<close>

text \<open>What the parts of a key are made of, and when no part contains the separator.\<close>

definition protocol_text :: "polling_protocol enum_or_str \<Rightarrow> string" where
  "protocol_text p = (case p of Member q \<Rightarrow> protocol_value q | Raw s \<Rightarrow> upper s)"

definition bar_free :: "(int \<Rightarrow> string) \<Rightarrow> idem_args \<Rightarrow> bool" where
  "bar_free iso_text a =
     (case key_parts iso_text a of
        Inl _ \<Rightarrow> True | Inr ps \<Rightarrow> list_all (\<lambda>p. CHR ''|'' \<notin> set p) ps)"

text \<open>
  the text a key digests identifies the result: as long as no part contains the separator
  and the ISO texts of different instants differ, two requests digest the same text exactly when
  they agree in CI, metric, protocol, source, time bucket, cycle and kind after normalisation.
\<close>

theorem idempotency_key_identity:
  assumes "inj iso_text" "bar_free iso_text a" "bar_free iso_text b"
    and "utc_bucket (i_observed a) (i_bucket a) = Inr ta"
    and "utc_bucket (i_observed b) (i_bucket b) = Inr tb"
  shows "generate_idempotency_key (\<lambda>s. s) iso_text a = generate_idempotency_key (\<lambda>s. s) iso_text b \<longleftrightarrow>
     strip (i_ci a) = strip (i_ci b) \<and> strip (i_metric a) = strip (i_metric b) \<and>
     protocol_text (i_protocol a) = protocol_text (i_protocol b) \<and>
     normalize_source (i_source a) = normalize_source (i_source b) \<and> ta = tb \<and>
     i_cycle a = i_cycle b \<and>
     lower (strip (if i_kind a = [] then ''sample'' else i_kind a)) =
       lower (strip (if i_kind b = [] then ''sample'' else i_kind b))"
proof -
  obtain ps qs where parts: "key_parts iso_text a = Inr ps" "key_parts iso_text b = Inr qs"
    and ne: "ps \<noteq> []" "qs \<noteq> []"
    using assms(4,5) by (simp add: key_parts_def)
  have "join ''|'' ps = join ''|'' qs \<longleftrightarrow> ps = qs"
    using assms(2,3) by (intro join_inject ne) (simp_all add: bar_free_def parts list_all_iff)
  then have "generate_idempotency_key (\<lambda>s. s) iso_text a = generate_idempotency_key (\<lambda>s. s) iso_text b
      \<longleftrightarrow> key_parts iso_text a = key_parts iso_text b"
    by (simp add: generate_idempotency_key_def parts)
  then show ?thesis
    by (simp only: key_parts_def assms(4,5) bindR_simps sum.inject list.inject inj_eq [OF assms(1)]
        protocol_text_def simp_thms)
qed

definition demo_idem :: "string \<Rightarrow> string \<Rightarrow> instant \<Rightarrow> idem_args" where
  "demo_idem ci metric t = \<lparr>i_ci = ci, i_metric = metric, i_protocol = Raw ''snmp'',
     i_source = ''Host'', i_observed = t, i_cycle = ''c'', i_kind = [], i_bucket = 60\<rparr>"

definition demo_iso :: "int \<Rightarrow> string" where
  "demo_iso t = show_int t"

lemma show_int_inject: "show_int a = show_int b \<longleftrightarrow> a = b"
proof -
  have "show_nat n \<noteq> CHR ''-'' # s" for n s
  proof
    assume "show_nat n = CHR ''-'' # s"
    then have "CHR ''-'' \<in> set (show_nat n)" by simp
    then show False using show_nat_no_char [of "CHR ''-''" n] by (simp add: is_digit_def)
  qed
  then have "show_nat n \<noteq> CHR ''-'' # s" "CHR ''-'' # s \<noteq> show_nat n" for n s
    by metis+
  then show ?thesis
    by (simp add: show_int_def show_nat_inject) linarith
qed

theorem idempotency_key_identity_witness:
  "generate_idempotency_key (\<lambda>s. s) demo_iso (demo_idem ''a'' ''b'' 61000000) =
     generate_idempotency_key (\<lambda>s. s) demo_iso (demo_idem '' a'' ''b'' 119000000) \<and>
   generate_idempotency_key (\<lambda>s. s) demo_iso (demo_idem ''a'' ''b'' 61000000) \<noteq>
     generate_idempotency_key (\<lambda>s. s) demo_iso (demo_idem ''a'' ''b'' 120000000)"
proof -
  have iso: "inj demo_iso" by (rule injI) (simp add: demo_iso_def show_int_inject)
  have "bar_free demo_iso (demo_idem ''a'' ''b'' 61000000)"
    "bar_free demo_iso (demo_idem '' a'' ''b'' 119000000)"
    "bar_free demo_iso (demo_idem ''a'' ''b'' 120000000)"
    "utc_bucket (i_observed (demo_idem ''a'' ''b'' 61000000)) (i_bucket (demo_idem ''a'' ''b'' 61000000)) = Inr 60"
    "utc_bucket (i_observed (demo_idem '' a'' ''b'' 119000000)) (i_bucket (demo_idem '' a'' ''b'' 119000000)) = Inr 60"
    "utc_bucket (i_observed (demo_idem ''a'' ''b'' 120000000)) (i_bucket (demo_idem ''a'' ''b'' 120000000)) = Inr 120"
    by code_simp+
  note facts = this
  have "strip (i_ci (demo_idem ''a'' ''b'' 61000000)) = strip (i_ci (demo_idem '' a'' ''b'' 119000000))"
    by code_simp
  then show ?thesis
    using idempotency_key_identity [OF iso facts(1,2,4,5)]
      idempotency_key_identity [OF iso facts(1,3,4,6)]
    by (simp add: demo_idem_def)
qed

text \<open>
  a separator inside an identifier defeats the key: the CIs \<open>a|b\<close> with metric \<open>c\<close> and \<open>a\<close>
  with metric \<open>b|c\<close> get the same key whatever the digest, so that the result of one is taken for a
  duplicate of the other.
\<close>

theorem idempotency_key_collision:
  "generate_idempotency_key sha iso_text (demo_idem ''a|b'' ''c'' t) =
     generate_idempotency_key sha iso_text (demo_idem ''a'' ''b|c'' t)"
proof -
  have "strip ''a|b'' = ''a|b''" "strip ''b|c'' = ''b|c''" "strip ''a'' = ''a''" "strip ''c'' = ''c''"
    by code_simp+
  then show ?thesis
    by (simp add: generate_idempotency_key_def key_parts_def demo_idem_def utc_bucket_def)
qed

end
