(* ===== verification/Pg_Queue.thy ===== *)
theory Pg_Queue
  imports Poll_Contracts
begin

section \<open>The durable polling queue (polling/pg_queue.py)\<close>

text \<open>
  The tables \<open>poll_cycles\<close>, \<open>poll_task_queue\<close> and \<open>poll_result_queue\<close> and one function per
  helper of the module, each doing what its SQL statement does. \<open>now\<close> is PostgreSQL's
  \<open>now()\<close>. The rows a claim returns are listed in claim order; the set \<open>locked\<close> of a claim
  holds the keys of the rows another open transaction has locked, which
  \<open>FOR UPDATE SKIP LOCKED\<close> passes over. Enqueuing may violate a key constraint, which is the
  value \<open>Inl (IntegrityError _)\<close> and leaves the tables as they were.
\<close>

subsection \<open>Tables\<close>

record poll_cycle =
  pc_id :: string
  pc_scheduled :: instant
  pc_status :: string
  pc_config :: "string option"
  pc_target :: int
  pc_updated :: instant

record task_row =
  tq_id :: string
  tq_cycle :: string
  tq_ci :: string
  tq_metric :: string
  tq_protocol :: string
  tq_priority :: int
  tq_due :: instant
  tq_eligible :: instant
  tq_partition :: int
  tq_site :: "string option"
  tq_subnet :: "string option"
  tq_ip :: "string option"
  tq_credential :: "string option"
  tq_endpoint :: "string option"
  tq_source :: "string option"
  tq_payload :: pydict
  tq_version :: "string option"
  tq_status :: task_status
  tq_owner :: "string option"
  tq_expires :: "instant option"
  tq_lease_attempts :: nat
  tq_execute_attempts :: nat
  tq_error_code :: "string option"
  tq_error_message :: "string option"
  tq_dead_reason :: "string option"
  tq_updated :: instant

text \<open>The status column of the results is unconstrained text; five values mean something to the queue.\<close>

datatype queue_status = R_ready | R_leased | R_written | R_retry_wait | R_dead_letter | R_text string

definition queue_status_of :: "string \<Rightarrow> queue_status" where
  "queue_status_of s =
     (if s = ''ready'' then R_ready else if s = ''leased'' then R_leased
      else if s = ''written'' then R_written else if s = ''retry_wait'' then R_retry_wait
      else if s = ''dead_letter'' then R_dead_letter else R_text s)"

record result_row =
  rq_id :: string
  rq_task :: string
  rq_cycle :: string
  rq_key :: string
  rq_protocol :: string
  rq_ci :: string
  rq_metric :: string
  rq_observed :: instant
  rq_received :: instant
  rq_status :: queue_status
  rq_priority :: int
  rq_partition :: int
  rq_envelope :: pydict
  rq_owner :: "string option"
  rq_expires :: "instant option"
  rq_write_attempts :: nat
  rq_error_code :: "string option"
  rq_error_message :: "string option"
  rq_dead_reason :: "string option"
  rq_updated :: instant

record queue_db =
  cycles :: "poll_cycle list"
  tasks :: "task_row list"
  results :: "result_row list"

subsection \<open>Enqueuing\<close>

definition create_cycle ::
    "instant \<Rightarrow> string \<Rightarrow> instant \<Rightarrow> string option \<Rightarrow> int \<Rightarrow> string \<Rightarrow> queue_db \<Rightarrow> queue_db" where
  "create_cycle now cid scheduled config target status db =
     (let row = \<lparr>pc_id = cid, pc_scheduled = scheduled, pc_status = status, pc_config = config,
                pc_target = target, pc_updated = now\<rparr>
      in if cid \<in> pc_id ` set (cycles db)
         then db\<lparr>cycles := update_where (\<lambda>r. pc_id r = cid) (\<lambda>_. row) (cycles db)\<rparr>
         else db\<lparr>cycles := cycles db @ [row]\<rparr>)"

text \<open>A task as \<open>enqueue_tasks\<close> receives it: absent entries are \<open>None\<close>.\<close>

record new_task =
  nt_id :: string
  nt_cycle :: string
  nt_ci :: string
  nt_metric :: string
  nt_protocol :: string
  nt_priority :: "int option"
  nt_due :: instant
  nt_eligible :: "instant option"
  nt_partition :: "int option"
  nt_site :: "string option"
  nt_subnet :: "string option"
  nt_ip :: "string option"
  nt_credential :: "string option"
  nt_endpoint :: "string option"
  nt_source :: "string option"
  nt_payload :: "pydict option"
  nt_version :: "string option"

definition opt :: "'a option \<Rightarrow> 'a \<Rightarrow> 'a" where
  "opt x d = (case x of None \<Rightarrow> d | Some y \<Rightarrow> y)"

definition task_row_of :: "instant \<Rightarrow> new_task \<Rightarrow> task_row" where
  "task_row_of now t = \<lparr>tq_id = nt_id t, tq_cycle = nt_cycle t, tq_ci = nt_ci t,
     tq_metric = nt_metric t, tq_protocol = nt_protocol t, tq_priority = opt (nt_priority t) 50,
     tq_due = nt_due t, tq_eligible = opt (nt_eligible t) (nt_due t),
     tq_partition = opt (nt_partition t) 0, tq_site = nt_site t, tq_subnet = nt_subnet t,
     tq_ip = nt_ip t, tq_credential = nt_credential t, tq_endpoint = nt_endpoint t,
     tq_source = nt_source t, tq_payload = opt (nt_payload t) [], tq_version = nt_version t,
     tq_status = Available, tq_owner = None, tq_expires = None, tq_lease_attempts = 0,
     tq_execute_attempts = 0, tq_error_code = None, tq_error_message = None,
     tq_dead_reason = None, tq_updated = now\<rparr>"

definition insert_task :: "task_row \<Rightarrow> queue_db \<Rightarrow> queue_db result" where
  "insert_task r db =
     (if tq_id r \<in> tq_id ` set (tasks db) then Inr db
      else if tq_cycle r \<notin> pc_id ` set (cycles db) then Inl (IntegrityError ''cycle_id'')
      else Inr (db\<lparr>tasks := insert_absent tq_id r (tasks db)\<rparr>))"

definition enqueue_tasks :: "instant \<Rightarrow> new_task list \<Rightarrow> queue_db \<Rightarrow> queue_db result" where
  "enqueue_tasks now ts db = foldR (\<lambda>t. insert_task (task_row_of now t)) ts db"

record new_result =
  nr_id :: string
  nr_task :: string
  nr_cycle :: string
  nr_key :: string
  nr_protocol :: string
  nr_ci :: string
  nr_metric :: string
  nr_observed :: instant
  nr_received :: instant
  nr_status :: "queue_status option"
  nr_priority :: "int option"
  nr_partition :: "int option"
  nr_envelope :: pydict

definition result_row_of :: "instant \<Rightarrow> new_result \<Rightarrow> result_row" where
  "result_row_of now t = \<lparr>rq_id = nr_id t, rq_task = nr_task t, rq_cycle = nr_cycle t,
     rq_key = nr_key t, rq_protocol = nr_protocol t, rq_ci = nr_ci t, rq_metric = nr_metric t,
     rq_observed = nr_observed t, rq_received = nr_received t,
     rq_status = opt (nr_status t) R_ready, rq_priority = opt (nr_priority t) 50,
     rq_partition = opt (nr_partition t) 0, rq_envelope = nr_envelope t, rq_owner = None,
     rq_expires = None, rq_write_attempts = 0, rq_error_code = None, rq_error_message = None,
     rq_dead_reason = None, rq_updated = now\<rparr>"

definition insert_result :: "result_row \<Rightarrow> queue_db \<Rightarrow> queue_db result" where
  "insert_result r db =
     (if rq_key r \<in> rq_key ` set (results db) then Inr db
      else if rq_id r \<in> rq_id ` set (results db) then Inl (IntegrityError ''result_id'')
      else if rq_cycle r \<notin> pc_id ` set (cycles db) then Inl (IntegrityError ''cycle_id'')
      else Inr (db\<lparr>results := insert_absent rq_key r (results db)\<rparr>))"

definition enqueue_results :: "instant \<Rightarrow> new_result list \<Rightarrow> queue_db \<Rightarrow> queue_db result" where
  "enqueue_results now ts db = foldR (\<lambda>t. insert_result (result_row_of now t)) ts db"

subsection \<open>Claiming\<close>

text \<open>
  The common statement of the two claims: select the eligible rows in order, at most \<open>n\<close>, and
  update those rows.
\<close>

definition claim_rows ::
    "('r \<Rightarrow> 'k) \<Rightarrow> ('r \<Rightarrow> bool) \<Rightarrow> ('r \<Rightarrow> 'o::linorder) \<Rightarrow> nat \<Rightarrow> ('r \<Rightarrow> 'r) \<Rightarrow>
     'r list \<Rightarrow> 'r list \<times> 'r list" where
  "claim_rows key elig ord n grant rows =
     (let picked = take n (sort_key ord (filter elig rows))
      in (update_where (\<lambda>r. key r \<in> key ` set picked) grant rows, map grant picked))"

definition lease_expired :: "instant \<Rightarrow> instant option \<Rightarrow> bool" where
  "lease_expired now e = (case e of None \<Rightarrow> False | Some t \<Rightarrow> t \<le> now)"

definition in_partitions :: "int list option \<Rightarrow> int \<Rightarrow> bool" where
  "in_partitions ps k = (case ps of None \<Rightarrow> True | Some xs \<Rightarrow> k \<in> set xs)"

definition task_claimable :: "instant \<Rightarrow> task_row \<Rightarrow> bool" where
  "task_claimable now r =
     (tq_status r \<in> {Available, Retry_wait, Deferred} \<and> tq_eligible r \<le> now \<or>
      tq_status r = Leased \<and> lease_expired now (tq_expires r))"

definition task_order :: "task_row \<Rightarrow> int \<times> instant \<times> string" where
  "task_order r = (tq_priority r, tq_eligible r, tq_id r)"

definition grant_task :: "string \<Rightarrow> int \<Rightarrow> instant \<Rightarrow> task_row \<Rightarrow> task_row" where
  "grant_task w ttl now r = r\<lparr>tq_status := Leased, tq_owner := Some w,
     tq_expires := Some (now + seconds ttl), tq_lease_attempts := tq_lease_attempts r + 1,
     tq_updated := now\<rparr>"

definition claim_tasks ::
    "instant \<Rightarrow> string list \<Rightarrow> string \<Rightarrow> string \<Rightarrow> int \<Rightarrow> nat \<Rightarrow> int list option \<Rightarrow>
     queue_db \<Rightarrow> queue_db \<times> task_row list" where
  "claim_tasks now locked protocol w ttl n partitions db =
     (let (rows, got) = claim_rows tq_id
            (\<lambda>r. task_claimable now r \<and> tq_protocol r = protocol
                 \<and> in_partitions partitions (tq_partition r) \<and> tq_id r \<notin> set locked)
            task_order n (grant_task w ttl now) (tasks db)
      in (db\<lparr>tasks := rows\<rparr>, got))"

definition result_claimable :: "instant \<Rightarrow> result_row \<Rightarrow> bool" where
  "result_claimable now r =
     (rq_status r \<in> {R_ready, R_retry_wait} \<or>
      rq_status r = R_leased \<and> lease_expired now (rq_expires r))"

definition result_order :: "result_row \<Rightarrow> int \<times> instant \<times> string" where
  "result_order r = (rq_priority r, rq_received r, rq_id r)"

definition grant_result :: "string \<Rightarrow> int \<Rightarrow> instant \<Rightarrow> result_row \<Rightarrow> result_row" where
  "grant_result w ttl now r = r\<lparr>rq_status := R_leased, rq_owner := Some w,
     rq_expires := Some (now + seconds ttl), rq_write_attempts := rq_write_attempts r + 1,
     rq_updated := now\<rparr>"

definition claim_results ::
    "instant \<Rightarrow> string list \<Rightarrow> string \<Rightarrow> int \<Rightarrow> nat \<Rightarrow> int list option \<Rightarrow>
     queue_db \<Rightarrow> queue_db \<times> result_row list" where
  "claim_results now locked w ttl n partitions db =
     (let (rows, got) = claim_rows rq_id
            (\<lambda>r. result_claimable now r \<and> in_partitions partitions (rq_partition r)
                 \<and> rq_id r \<notin> set locked)
            result_order n (grant_result w ttl now) (results db)
      in (db\<lparr>results := rows\<rparr>, got))"

subsection \<open>Transitions of a task\<close>

definition on_task :: "string \<Rightarrow> (task_row \<Rightarrow> task_row) \<Rightarrow> queue_db \<Rightarrow> queue_db" where
  "on_task tid f db = db\<lparr>tasks := update_where (\<lambda>r. tq_id r = tid) f (tasks db)\<rparr>"

definition unlease_task :: "instant \<Rightarrow> task_status \<Rightarrow> task_row \<Rightarrow> task_row" where
  "unlease_task now st r =
     r\<lparr>tq_status := st, tq_updated := now, tq_owner := None, tq_expires := None\<rparr>"

definition complete_task :: "instant \<Rightarrow> string \<Rightarrow> queue_db \<Rightarrow> queue_db" where
  "complete_task now tid = on_task tid (unlease_task now Completed)"

definition defer_task ::
    "instant \<Rightarrow> string \<Rightarrow> instant \<Rightarrow> string option \<Rightarrow> string option \<Rightarrow> queue_db \<Rightarrow> queue_db" where
  "defer_task now tid eligible code msg = on_task tid (\<lambda>r. (unlease_task now Deferred r)
     \<lparr>tq_eligible := eligible, tq_error_code := code, tq_error_message := msg\<rparr>)"

definition retry_task ::
    "instant \<Rightarrow> string \<Rightarrow> instant \<Rightarrow> string option \<Rightarrow> string option \<Rightarrow> queue_db \<Rightarrow> queue_db" where
  "retry_task now tid eligible code msg = on_task tid (\<lambda>r. (unlease_task now Retry_wait r)
     \<lparr>tq_eligible := eligible, tq_execute_attempts := tq_execute_attempts r + 1,
      tq_error_code := code, tq_error_message := msg\<rparr>)"

definition dead_letter_task ::
    "instant \<Rightarrow> string \<Rightarrow> string \<Rightarrow> string option \<Rightarrow> string option \<Rightarrow> queue_db \<Rightarrow> queue_db" where
  "dead_letter_task now tid reason code msg = on_task tid (\<lambda>r. (unlease_task now Dead_letter r)
     \<lparr>tq_dead_reason := Some reason, tq_error_code := code, tq_error_message := msg\<rparr>)"

definition renew_task_lease :: "instant \<Rightarrow> string \<Rightarrow> string \<Rightarrow> int \<Rightarrow> queue_db \<Rightarrow> queue_db" where
  "renew_task_lease now tid w ttl db =
     db\<lparr>tasks := update_where (\<lambda>r. tq_id r = tid \<and> tq_owner r = Some w)
        (\<lambda>r. r\<lparr>tq_owner := Some w, tq_expires := Some (now + seconds ttl), tq_updated := now\<rparr>)
        (tasks db)\<rparr>"

definition expire_task_leases :: "instant \<Rightarrow> queue_db \<Rightarrow> queue_db" where
  "expire_task_leases now db =
     db\<lparr>tasks := update_where (\<lambda>r. tq_status r = Leased \<and> lease_expired now (tq_expires r))
        (unlease_task now Retry_wait) (tasks db)\<rparr>"

subsection \<open>Transitions of a result\<close>

definition on_result :: "string \<Rightarrow> (result_row \<Rightarrow> result_row) \<Rightarrow> queue_db \<Rightarrow> queue_db" where
  "on_result rid f db = db\<lparr>results := update_where (\<lambda>r. rq_id r = rid) f (results db)\<rparr>"

definition unlease_result :: "instant \<Rightarrow> queue_status \<Rightarrow> result_row \<Rightarrow> result_row" where
  "unlease_result now st r =
     r\<lparr>rq_status := st, rq_owner := None, rq_expires := None, rq_updated := now\<rparr>"

definition complete_result :: "instant \<Rightarrow> string \<Rightarrow> queue_db \<Rightarrow> queue_db" where
  "complete_result now rid = on_result rid (unlease_result now R_written)"

definition retry_result ::
    "instant \<Rightarrow> string \<Rightarrow> instant \<Rightarrow> string option \<Rightarrow> string option \<Rightarrow> queue_db \<Rightarrow> queue_db" where
  "retry_result now rid eligible code msg = on_result rid (\<lambda>r. (unlease_result now R_retry_wait r)
     \<lparr>rq_received := eligible, rq_error_code := code, rq_error_message := msg\<rparr>)"

definition dead_letter_result ::
    "instant \<Rightarrow> string \<Rightarrow> string \<Rightarrow> string option \<Rightarrow> string option \<Rightarrow> queue_db \<Rightarrow> queue_db" where
  "dead_letter_result now rid reason code msg =
     on_result rid (\<lambda>r. (unlease_result now R_dead_letter r)
       \<lparr>rq_dead_reason := Some reason, rq_error_code := code, rq_error_message := msg\<rparr>)"

definition expire_result_leases :: "instant \<Rightarrow> queue_db \<Rightarrow> queue_db" where
  "expire_result_leases now db =
     db\<lparr>results := update_where (\<lambda>r. rq_status r = R_leased \<and> lease_expired now (rq_expires r))
        (unlease_result now R_retry_wait) (results db)\<rparr>"

end
