(* ===== verification/Lease_Queue.thy ===== *)
theory Lease_Queue
  imports Pg_Queue
begin

section \<open>Leases: the contract of a claim, and its two providers\<close>

text \<open>
  A worker relies on three laws of the table it claims from: granting a lease keeps the row's
  key, records the owner, and takes the row out of every other claim until the lease expires.
  The locale \<open>lease_table\<close> proves from them what a claim guarantees; the task queue and the
  result queue are its two instances. The step relation at the end runs every operation of the
  queue in any order and interleaving.
\<close>

locale lease_table =
  fixes key :: "'r \<Rightarrow> 'k"
    and claimable :: "instant \<Rightarrow> 'r \<Rightarrow> bool"
    and rank :: "'r \<Rightarrow> 'o::linorder"
    and grant :: "string \<Rightarrow> int \<Rightarrow> instant \<Rightarrow> 'r \<Rightarrow> 'r"
    and owner :: "'r \<Rightarrow> string option"
  assumes grant_key: "key (grant w ttl now r) = key r"
    and grant_owner: "owner (grant w ttl now r) = Some w"
    and grant_blocks: "now' < now + seconds ttl \<Longrightarrow> \<not> claimable now' (grant w ttl now r)"
begin

lemma picked_subset: "set (take n (sort_key rank (filter P rows))) \<subseteq> {r \<in> set rows. P r}"
  using set_take_subset by fastforce

lemma keys_kept:
  "map key (fst (claim_rows key P rank n (grant w ttl now) rows)) = map key rows"
  by (simp add: claim_rows_def Let_def grant_key update_where_keys)

lemma at_most: "length (snd (claim_rows key P rank n (grant w ttl now) rows)) \<le> n"
  by (simp add: claim_rows_def Let_def)

lemma no_fewer:
  "length (snd (claim_rows key P rank n (grant w ttl now) rows)) = min n (length (filter P rows))"
  by (simp add: claim_rows_def Let_def min.commute)

lemma granted:
  assumes "r \<in> set (snd (claim_rows key P rank n (grant w ttl now) rows))"
  shows "owner r = Some w" and "\<exists>r0 \<in> set rows. P r0 \<and> r = grant w ttl now r0"
  using assms picked_subset by (fastforce simp: claim_rows_def Let_def grant_owner)+

lemma claimed_stored:
  assumes "r \<in> set (snd (claim_rows key P rank n (grant w ttl now) rows))"
  shows "r \<in> set (fst (claim_rows key P rank n (grant w ttl now) rows))"
  using assms picked_subset by (fastforce simp: claim_rows_def Let_def set_update_where)

text \<open>Whoever is left waiting ranks no better than whoever was served.\<close>

lemma best_first:
  assumes dist: "distinct (map key rows)"
    and r: "r \<in> set rows" "P r"
    and left: "key r \<notin> key ` set (snd (claim_rows key P rank n (grant w ttl now) rows))"
    and got: "g \<in> set (take n (sort_key rank (filter P rows)))"
  shows "rank g \<le> rank r"
proof -
  let ?s = "sort_key rank (filter P rows)"
  have "r \<in> set ?s" using r by simp
  moreover have "r \<notin> set (take n ?s)"
    using left by (auto simp: claim_rows_def Let_def grant_key image_iff)
  ultimately have "r \<in> set (drop n ?s)"
    by (metis Un_iff append_take_drop_id set_append)
  with got show ?thesis by (rule sort_key_filter_le)
qed

lemma unclaimed_untouched:
  assumes "r \<in> set rows" "key r \<notin> key ` set (snd (claim_rows key P rank n (grant w ttl now) rows))"
  shows "r \<in> set (fst (claim_rows key P rank n (grant w ttl now) rows))"
  using assms by (auto simp: claim_rows_def Let_def set_update_where grant_key image_iff)

lemma blocked_after:
  assumes "s \<in> set (fst (claim_rows key P rank n (grant w ttl now) rows))"
    and "key s \<in> key ` set (snd (claim_rows key P rank n (grant w ttl now) rows))"
    and "now' < now + seconds ttl"
  shows "\<not> claimable now' s"
  using assms
  by (auto simp: claim_rows_def Let_def set_update_where grant_key grant_blocks image_iff)

text \<open>Two claims closer together than the lease never serve the same row.\<close>

lemma claims_disjoint:
  assumes first: "claim_rows key P rank n (grant w ttl now) rows = (rows1, got1)"
    and second: "claim_rows key Q rank m (grant v ttl' now') rows1 = (rows2, got2)"
    and close: "now' < now + seconds ttl"
    and Q: "\<And>r. Q r \<Longrightarrow> claimable now' r"
  shows "key ` set got1 \<inter> key ` set got2 = {}"
proof (rule equals0I)
  fix k assume "k \<in> key ` set got1 \<inter> key ` set got2"
  then obtain g2 where g2: "g2 \<in> set got2" "key g2 \<in> key ` set got1"
    by (metis Int_iff imageE)
  then obtain s where s: "s \<in> set rows1" "Q s" "g2 = grant v ttl' now' s"
    using granted(2) [of g2 Q m v ttl' now' rows1] second by auto
  then have "key s \<in> key ` set got1" using g2 grant_key by simp
  with s(1) first close have "\<not> claimable now' s"
    using blocked_after [of s P n w ttl now rows now'] by simp
  with Q s(2) show False by blast
qed

end

interpretation task_lease: lease_table tq_id task_claimable task_order grant_task tq_owner
  by unfold_locales (auto simp: grant_task_def task_claimable_def lease_expired_def)

interpretation result_lease: lease_table rq_id result_claimable result_order grant_result rq_owner
  by unfold_locales (auto simp: grant_result_def result_claimable_def lease_expired_def)

subsection \<open>The invariant of the tables\<close>

text \<open>
  A row is leased exactly when it has an owner and an expiry; task ids, result ids and
  idempotency keys are unique; every row belongs to a cycle.
\<close>

definition task_ok :: "task_row \<Rightarrow> bool" where
  "task_ok r = ((tq_status r = Leased) = (tq_owner r \<noteq> None) \<and>
                (tq_status r = Leased) = (tq_expires r \<noteq> None))"

definition result_ok :: "result_row \<Rightarrow> bool" where
  "result_ok r = ((rq_status r = R_leased) = (rq_owner r \<noteq> None) \<and>
                  (rq_status r = R_leased) = (rq_expires r \<noteq> None))"

definition queue_inv :: "queue_db \<Rightarrow> bool" where
  "queue_inv db =
     (distinct (map tq_id (tasks db)) \<and> distinct (map rq_id (results db)) \<and>
      distinct (map rq_key (results db)) \<and> distinct (map pc_id (cycles db)) \<and>
      tq_cycle ` set (tasks db) \<subseteq> pc_id ` set (cycles db) \<and>
      rq_cycle ` set (results db) \<subseteq> pc_id ` set (cycles db) \<and>
      (\<forall>r \<in> set (tasks db). task_ok r) \<and> (\<forall>r \<in> set (results db). result_ok r))"

lemmas queue_ops =
  complete_task_def defer_task_def retry_task_def dead_letter_task_def renew_task_lease_def
  expire_task_leases_def complete_result_def retry_result_def dead_letter_result_def
  expire_result_leases_def on_task_def on_result_def

text \<open>
  What an update of one table needs to keep the invariant: it changes neither keys nor cycles
  and keeps each row it touches well-formed.
\<close>

lemma queue_inv_update_tasks:
  assumes "queue_inv db"
    and "\<And>r. tq_id (f r) = tq_id r" "\<And>r. tq_cycle (f r) = tq_cycle r"
    and "\<And>r. r \<in> set (tasks db) \<Longrightarrow> P r \<Longrightarrow> task_ok r \<Longrightarrow> task_ok (f r)"
  shows "queue_inv (db\<lparr>tasks := update_where P f (tasks db)\<rparr>)"
proof -
  have "tq_cycle ` set (update_where P f (tasks db)) = tq_cycle ` set (tasks db)"
    by (metis assms(3) update_where_keys set_map)
  moreover have "task_ok r" if "r \<in> set (update_where P f (tasks db))" for r
    using that assms(1,4) by (auto simp: queue_inv_def set_update_where)
  ultimately show ?thesis
    using assms(1,2) by (simp add: queue_inv_def update_where_keys)
qed

lemma queue_inv_update_results:
  assumes "queue_inv db"
    and "\<And>r. rq_id (f r) = rq_id r" "\<And>r. rq_cycle (f r) = rq_cycle r" "\<And>r. rq_key (f r) = rq_key r"
    and "\<And>r. r \<in> set (results db) \<Longrightarrow> P r \<Longrightarrow> result_ok r \<Longrightarrow> result_ok (f r)"
  shows "queue_inv (db\<lparr>results := update_where P f (results db)\<rparr>)"
proof -
  have "rq_cycle ` set (update_where P f (results db)) = rq_cycle ` set (results db)"
    by (metis assms(3) update_where_keys set_map)
  moreover have "result_ok r" if "r \<in> set (update_where P f (results db))" for r
    using that assms(1,5) by (auto simp: queue_inv_def set_update_where)
  ultimately show ?thesis
    using assms(1,2,4) by (simp add: queue_inv_def update_where_keys)
qed

lemma task_ok_ops [simp]:
  "st \<noteq> Leased \<Longrightarrow> task_ok (unlease_task now st r)"
  "task_ok (grant_task w ttl now r)"
  by (simp_all add: task_ok_def unlease_task_def grant_task_def)

lemma result_ok_ops [simp]:
  "st \<noteq> R_leased \<Longrightarrow> result_ok (unlease_result now st r)"
  "result_ok (grant_result w ttl now r)"
  by (simp_all add: result_ok_def unlease_result_def grant_result_def)

lemma queue_inv_task_ops:
  assumes "queue_inv db"
  shows "queue_inv (complete_task now tid db)"
    and "queue_inv (defer_task now tid t c m db)"
    and "queue_inv (retry_task now tid t c m db)"
    and "queue_inv (dead_letter_task now tid s c m db)"
    and "queue_inv (renew_task_lease now tid w ttl db)"
    and "queue_inv (expire_task_leases now db)"
  unfolding queue_ops
  by (rule queue_inv_update_tasks [OF assms]; simp add: unlease_task_def task_ok_def)+

lemma queue_inv_result_ops:
  assumes "queue_inv db"
  shows "queue_inv (complete_result now rid db)"
    and "queue_inv (retry_result now rid t c m db)"
    and "queue_inv (dead_letter_result now rid s c m db)"
    and "queue_inv (expire_result_leases now db)"
  unfolding queue_ops
  by (rule queue_inv_update_results [OF assms]; simp add: unlease_result_def result_ok_def)+

lemma queue_inv_claim_tasks:
  assumes "queue_inv db"
  shows "queue_inv (fst (claim_tasks now locked p w ttl n ps db))"
  unfolding claim_tasks_def claim_rows_def Let_def
  using queue_inv_update_tasks [OF assms, of "grant_task w ttl now"]
  by (simp add: grant_task_def task_ok_def)

lemma queue_inv_claim_results:
  assumes "queue_inv db"
  shows "queue_inv (fst (claim_results now locked w ttl n ps db))"
  unfolding claim_results_def claim_rows_def Let_def
  using queue_inv_update_results [OF assms, of "grant_result w ttl now"]
  by (simp add: grant_result_def result_ok_def)

lemma queue_inv_create_cycle:
  assumes "queue_inv db"
  shows "queue_inv (create_cycle now cid t c k st db)"
proof (cases "cid \<in> pc_id ` set (cycles db)")
  case True
  define row where "row = \<lparr>pc_id = cid, pc_scheduled = t, pc_status = st, pc_config = c,
                pc_target = k, pc_updated = now\<rparr>"
  have keys: "map pc_id (update_where (\<lambda>r. pc_id r = cid) (\<lambda>_. row) (cycles db)) =
      map pc_id (cycles db)"
    by (rule update_where_keys_on) (simp add: row_def)
  then have "pc_id ` set (update_where (\<lambda>r. pc_id r = cid) (\<lambda>_. row) (cycles db)) =
      pc_id ` set (cycles db)"
    by (metis set_map)
  with keys assms True show ?thesis
    by (simp add: create_cycle_def Let_def queue_inv_def flip: row_def)
next
  case False
  with assms show ?thesis
    by (auto simp: create_cycle_def Let_def queue_inv_def)
qed

lemma queue_inv_insert_task:
  assumes "queue_inv db" "task_ok r" "insert_task r db = Inr db'"
  shows "queue_inv db'"
  using assms
  by (auto simp: insert_task_def queue_inv_def insert_absent_def image_subset_iff split: if_splits)

lemma queue_inv_insert_result:
  assumes "queue_inv db" "result_ok r" "insert_result r db = Inr db'"
  shows "queue_inv db'"
  using assms
  by (auto simp: insert_result_def queue_inv_def insert_absent_def image_subset_iff split: if_splits)

lemma task_ok_new [simp]: "task_ok (task_row_of now t)"
  by (simp add: task_ok_def task_row_of_def)

lemma result_ok_new: "nr_status t \<noteq> Some R_leased \<Longrightarrow> result_ok (result_row_of now t)"
  by (auto simp: result_ok_def result_row_of_def opt_def split: option.splits)

lemma queue_inv_enqueue_tasks:
  assumes "queue_inv db" "enqueue_tasks now ts db = Inr db'"
  shows "queue_inv db'"
  using assms(2) unfolding enqueue_tasks_def
  by (rule foldR_invariant [where P = queue_inv])
    (use assms(1) queue_inv_insert_task task_ok_new in blast)+

lemma queue_inv_enqueue_results:
  assumes "queue_inv db" "enqueue_results now ts db = Inr db'"
    and "\<And>t. t \<in> set ts \<Longrightarrow> nr_status t \<noteq> Some R_leased"
  shows "queue_inv db'"
  using assms(2) unfolding enqueue_results_def
  by (rule foldR_invariant [where P = queue_inv])
    (use assms(1,3) queue_inv_insert_result result_ok_new in blast)+

subsection \<open>Every operation, in any order\<close>

datatype queue_op =
    Create_cycle string instant "string option" int string
  | Enqueue_tasks "new_task list"
  | Enqueue_results "new_result list"
  | Claim_tasks "string list" string string int nat "int list option"
  | Claim_results "string list" string int nat "int list option"
  | Complete_task string
  | Defer_task string instant "string option" "string option"
  | Retry_task string instant "string option" "string option"
  | Dead_letter_task string string "string option" "string option"
  | Renew_task_lease string string int
  | Expire_task_leases
  | Complete_result string
  | Retry_result string instant "string option" "string option"
  | Dead_letter_result string string "string option" "string option"
  | Expire_result_leases

fun exec_op :: "instant \<Rightarrow> queue_op \<Rightarrow> queue_db \<Rightarrow> queue_db result" where
  "exec_op now (Create_cycle cid t c k st) db = Inr (create_cycle now cid t c k st db)"
| "exec_op now (Enqueue_tasks ts) db = enqueue_tasks now ts db"
| "exec_op now (Enqueue_results ts) db = enqueue_results now ts db"
| "exec_op now (Claim_tasks l p w ttl n ps) db = Inr (fst (claim_tasks now l p w ttl n ps db))"
| "exec_op now (Claim_results l w ttl n ps) db = Inr (fst (claim_results now l w ttl n ps db))"
| "exec_op now (Complete_task tid) db = Inr (complete_task now tid db)"
| "exec_op now (Defer_task tid t c m) db = Inr (defer_task now tid t c m db)"
| "exec_op now (Retry_task tid t c m) db = Inr (retry_task now tid t c m db)"
| "exec_op now (Dead_letter_task tid s c m) db = Inr (dead_letter_task now tid s c m db)"
| "exec_op now (Renew_task_lease tid w ttl) db = Inr (renew_task_lease now tid w ttl db)"
| "exec_op now Expire_task_leases db = Inr (expire_task_leases now db)"
| "exec_op now (Complete_result rid) db = Inr (complete_result now rid db)"
| "exec_op now (Retry_result rid t c m) db = Inr (retry_result now rid t c m db)"
| "exec_op now (Dead_letter_result rid s c m) db = Inr (dead_letter_result now rid s c m db)"
| "exec_op now Expire_result_leases db = Inr (expire_result_leases now db)"

fun enqueues_leased :: "queue_op \<Rightarrow> bool" where
  "enqueues_leased (Enqueue_results ts) = (\<exists>t \<in> set ts. nr_status t = Some R_leased)"
| "enqueues_leased _ = False"

text \<open>
  The reachable tables: from empty tables, any operation at any later instant. No producer
  enqueues a result as already leased.
\<close>

definition empty_queue :: queue_db where
  "empty_queue = \<lparr>cycles = [], tasks = [], results = []\<rparr>"

inductive queue_reachable :: "instant \<Rightarrow> queue_db \<Rightarrow> bool" where
  start: "queue_reachable t empty_queue"
| step: "queue_reachable t db \<Longrightarrow> t \<le> now \<Longrightarrow> \<not> enqueues_leased op \<Longrightarrow>
     exec_op now op db = Inr db' \<Longrightarrow> queue_reachable now db'"

lemma exec_op_inv:
  assumes "queue_inv db" "\<not> enqueues_leased op" "exec_op now op db = Inr db'"
  shows "queue_inv db'"
  using assms
  by (cases op)
    (auto intro: queue_inv_task_ops queue_inv_result_ops queue_inv_claim_tasks
        queue_inv_claim_results queue_inv_create_cycle queue_inv_enqueue_tasks
        queue_inv_enqueue_results)

lemma queue_inv_empty: "queue_inv empty_queue"
  by (simp add: queue_inv_def empty_queue_def)

lemma reachable_inv: "queue_reachable t db \<Longrightarrow> queue_inv db"
proof (induction rule: queue_reachable.induct)
  case (start t)
  show ?case by (rule queue_inv_empty)
next
  case (step t db now op db')
  then show ?case by (blast intro: exec_op_inv)
qed

subsection \<open>An unexpired lease is safe from everybody else\<close>

text \<open>The operations aimed at one task, which its worker alone is meant to issue.\<close>

fun targets :: "string \<Rightarrow> queue_op \<Rightarrow> bool" where
  "targets tid (Complete_task t) = (t = tid)"
| "targets tid (Defer_task t _ _ _) = (t = tid)"
| "targets tid (Retry_task t _ _ _) = (t = tid)"
| "targets tid (Dead_letter_task t _ _ _) = (t = tid)"
| "targets tid (Renew_task_lease t _ _) = (t = tid)"
| "targets tid _ = False"

lemma kept_by_update:
  "r \<in> set rows \<Longrightarrow> \<not> P r \<Longrightarrow> r \<in> set (update_where P f rows)"
  by (simp add: set_update_where)

lemma kept_by_insert_task: "insert_task t db = Inr db' \<Longrightarrow> r \<in> set (tasks db) \<Longrightarrow> r \<in> set (tasks db')"
  by (auto simp: insert_task_def insert_absent_def split: if_splits)

lemma kept_by_insert_result: "insert_result t db = Inr db' \<Longrightarrow> tasks db' = tasks db"
  by (auto simp: insert_result_def split: if_splits)

lemma kept_by_enqueue_tasks:
  assumes "enqueue_tasks now ts db = Inr db'" "r \<in> set (tasks db)"
  shows "r \<in> set (tasks db')"
  using assms(1) unfolding enqueue_tasks_def
  by (rule foldR_invariant [where P = "\<lambda>d. r \<in> set (tasks d)"])
    (use assms(2) kept_by_insert_task in blast)+

lemma kept_by_enqueue_results:
  assumes "enqueue_results now ts db = Inr db'"
  shows "tasks db' = tasks db"
  using assms unfolding enqueue_results_def
  by (rule foldR_invariant [where P = "\<lambda>d. tasks d = tasks db"])
    (use kept_by_insert_result in auto)

lemma kept_by_claim:
  assumes "distinct (map tq_id (tasks db))" "r \<in> set (tasks db)" "\<not> task_claimable now r"
  shows "r \<in> set (tasks (fst (claim_tasks now l p w ttl n ps db)))"
proof -
  let ?P = "\<lambda>r. task_claimable now r \<and> tq_protocol r = p \<and> in_partitions ps (tq_partition r)
      \<and> tq_id r \<notin> set l"
  let ?picked = "take n (sort_key task_order (filter ?P (tasks db)))"
  have "tq_id r \<notin> tq_id ` set ?picked"
  proof
    assume "tq_id r \<in> tq_id ` set ?picked"
    then obtain s where s: "s \<in> set ?picked" "tq_id s = tq_id r" by auto
    then have "s \<in> set (tasks db)" "task_claimable now s"
      using task_lease.picked_subset [of n ?P "tasks db"] by auto
    with s assms show False using distinct_key_eq [of tq_id "tasks db" s r] by auto
  qed
  with assms(2) show ?thesis
    by (simp add: claim_tasks_def claim_rows_def Let_def kept_by_update)
qed

lemma exec_op_keeps_lease:
  assumes "queue_inv db" "r \<in> set (tasks db)" "tq_status r = Leased" "tq_expires r = Some e"
    and "now < e" "\<not> targets (tq_id r) op" "exec_op now op db = Inr db'"
  shows "r \<in> set (tasks db')"
proof -
  have "\<not> task_claimable now r"
    using assms by (simp add: task_claimable_def lease_expired_def)
  moreover have "distinct (map tq_id (tasks db))"
    using assms(1) by (simp add: queue_inv_def)
  ultimately show ?thesis
    using assms(2-7)
    by (cases op)
      (auto simp: queue_ops create_cycle_def Let_def lease_expired_def claim_results_def
          kept_by_enqueue_results split: prod.splits
          intro!: kept_by_update kept_by_claim intro: kept_by_enqueue_tasks)
qed

end
