(* ===== verification/Queue_Properties.thy ===== *)
theory Queue_Properties
  imports Lease_Queue
begin

section \<open>What the queue guarantees\<close>

text \<open>
  The properties of the durable queue: its invariant over every interleaving, the exclusivity
  and fairness of leases, idempotent enqueuing, and the two places where the transitions are
  weaker than the leases suggest.
\<close>

definition run_ops :: "(instant \<times> queue_op) list \<Rightarrow> queue_db \<Rightarrow> queue_db result" where
  "run_ops sched db = foldR (\<lambda>(now, op). exec_op now op) sched db"

fun clocked :: "instant \<Rightarrow> (instant \<times> queue_op) list \<Rightarrow> bool" where
  "clocked t [] = True"
| "clocked t ((now, op) # sched) = (t \<le> now \<and> \<not> enqueues_leased op \<and> clocked now sched)"

lemma run_ops_reachable:
  "queue_reachable t db \<Longrightarrow> clocked t sched \<Longrightarrow> run_ops sched db = Inr db' \<Longrightarrow>
     \<exists>t'. queue_reachable t' db'"
proof (induction sched arbitrary: t db)
  case Nil
  then show ?case by (auto simp: run_ops_def)
next
  case (Cons x sched)
  obtain now op where x: "x = (now, op)" by (cases x)
  with Cons.prems obtain d where d: "exec_op now op db = Inr d" "run_ops sched d = Inr db'"
    by (auto simp: run_ops_def bindR_eq_Inr)
  have "queue_reachable now d"
    using Cons.prems x d(1) by (auto intro: queue_reachable.step)
  with Cons.IH d(2) Cons.prems(2) x show ?case by simp
qed

subsection \<open>A small run for the witnesses\<close>

definition demo_task :: "string \<Rightarrow> int \<Rightarrow> new_task" where
  "demo_task tid prio = \<lparr>nt_id = tid, nt_cycle = ''c'', nt_ci = ''ci'', nt_metric = ''m'',
     nt_protocol = ''SNMP'', nt_priority = Some prio, nt_due = 0, nt_eligible = None,
     nt_partition = None, nt_site = None, nt_subnet = None, nt_ip = None, nt_credential = None,
     nt_endpoint = None, nt_source = None, nt_payload = None, nt_version = None\<rparr>"

definition demo_result :: "string \<Rightarrow> string \<Rightarrow> new_result" where
  "demo_result rid k = \<lparr>nr_id = rid, nr_task = ''t1'', nr_cycle = ''c'', nr_key = k,
     nr_protocol = ''SNMP'', nr_ci = ''ci'', nr_metric = ''m'', nr_observed = 0,
     nr_received = 0, nr_status = None, nr_priority = None, nr_partition = None,
     nr_envelope = []\<rparr>"

definition demo_sched :: "(instant \<times> queue_op) list" where
  "demo_sched = [(0, Create_cycle ''c'' 0 None 2 ''open''),
     (1, Enqueue_tasks [demo_task ''t1'' 50, demo_task ''t2'' 0]),
     (2, Claim_tasks [] ''SNMP'' ''w1'' 60 1 None)]"

definition demo_leased :: task_row where
  "demo_leased = grant_task ''w1'' 60 2 (task_row_of 1 (demo_task ''t2'' 0))"

definition demo_db :: queue_db where
  "demo_db = \<lparr>cycles = [\<lparr>pc_id = ''c'', pc_scheduled = 0, pc_status = ''open'', pc_config = None,
       pc_target = 2, pc_updated = 0\<rparr>],
     tasks = [task_row_of 1 (demo_task ''t1'' 50), demo_leased], results = []\<rparr>"

lemma demo_run: "run_ops demo_sched empty_queue = Inr demo_db"
  by code_simp

lemma demo_reachable: "\<exists>t. queue_reachable t demo_db"
  by (rule run_ops_reachable [OF queue_reachable.start [of 0] _ demo_run])
    (simp add: demo_sched_def)

definition demo_results_db :: queue_db where
  "demo_results_db = demo_db\<lparr>results := [result_row_of 3 (demo_result ''r1'' ''k1''),
                                       result_row_of 3 (demo_result ''r2'' ''k2'')]\<rparr>"

subsection \<open>Properties\<close>

text \<open>
  C1: in every state the queue can reach, by any interleaving of its operations at
  non-decreasing instants, a row is leased exactly when it has an owner and an expiry, task
  ids, result ids and idempotency keys are unique, and every row belongs to a recorded cycle.
\<close>

theorem queue_invariant: "queue_reachable t db \<Longrightarrow> queue_inv db"
  by (rule reachable_inv)

theorem queue_invariant_witness: "queue_inv demo_db"
proof -
  obtain t where "queue_reachable t demo_db" using demo_reachable by blast
  then show ?thesis by (rule queue_invariant)
qed

text \<open>
  C2: while a task's lease has not expired, no schedule of operations that are not aimed at
  that task (claims by any worker, lease expiry sweeps, enqueuing, everything done to other
  tasks and to results) changes the leased row.
\<close>

theorem lease_exclusive:
  assumes "queue_reachable t db" "r \<in> set (tasks db)" "tq_status r = Leased"
    and "tq_expires r = Some e"
    and "\<forall>(now, op) \<in> set sched. now < e \<and> \<not> targets (tq_id r) op \<and> \<not> enqueues_leased op"
    and "run_ops sched db = Inr db'"
  shows "r \<in> set (tasks db')"
proof -
  let ?I = "\<lambda>d. queue_inv d \<and> r \<in> set (tasks d)"
  have "?I db'"
    using assms(6) unfolding run_ops_def
  proof (rule foldR_invariant)
    show "?I db" using assms(1,2) reachable_inv by blast
  next
    fix x d d'
    assume "x \<in> set sched" "?I d" "(case x of (now, op) \<Rightarrow> exec_op now op) d = Inr d'"
    moreover obtain now op where "x = (now, op)" by (rule prod.exhaust)
    ultimately show "?I d'"
      using assms(3-5) exec_op_inv [of d op now d'] exec_op_keeps_lease [of d r e now op d']
      by auto
  qed
  then show ?thesis by simp
qed

theorem lease_exclusive_witness:
  "\<exists>db'. run_ops [(3, Claim_tasks [] ''SNMP'' ''w2'' 60 5 None), (4, Expire_task_leases)] demo_db
           = Inr db' \<and> demo_leased \<in> set (tasks db')"
proof -
  let ?sched = "[(3, Claim_tasks [] ''SNMP'' ''w2'' 60 5 None), (4, Expire_task_leases)]"
  obtain t where t: "queue_reachable t demo_db" using demo_reachable by blast
  obtain db' where db': "run_ops ?sched demo_db = Inr db'" by (simp add: run_ops_def)
  have "demo_leased \<in> set (tasks db')"
    by (rule lease_exclusive [OF t _ _ _ _ db', where e = 60000002])
      (simp_all add: demo_db_def demo_leased_def grant_task_def seconds_def)
  with db' show ?thesis by blast
qed

text \<open>
  C3: a claim of tasks serves exactly as many tasks as are eligible, up to the batch size; it
  serves only eligible rows of the worker's protocol and partitions, as leases of that worker;
  and no task it passes over ranks before one it serves in the order priority, eligibility
  instant, id.
\<close>

theorem claim_tasks_best_first:
  assumes "distinct (map tq_id (tasks db))"
    and "claim_tasks now locked p w ttl n ps db = (db', got)"
    and "elig = (\<lambda>r. task_claimable now r \<and> tq_protocol r = p \<and> in_partitions ps (tq_partition r)
                     \<and> tq_id r \<notin> set locked)"
  shows "length got = min n (length (filter elig (tasks db))) \<and>
    (\<forall>g \<in> set got. \<exists>r \<in> set (tasks db). elig r \<and> g = grant_task w ttl now r \<and>
      (\<forall>s \<in> set (tasks db). elig s \<and> tq_id s \<notin> tq_id ` set got \<longrightarrow> task_order r \<le> task_order s))"
proof (intro conjI ballI)
  let ?claim = "claim_rows tq_id elig task_order n (grant_task w ttl now) (tasks db)"
  have got: "got = snd ?claim"
    using assms(2) by (simp add: claim_tasks_def assms(3) split: prod.splits)
  then show "length got = min n (length (filter elig (tasks db)))"
    by (simp add: task_lease.no_fewer)
  fix g assume "g \<in> set got"
  then obtain r where r: "r \<in> set (take n (sort_key task_order (filter elig (tasks db))))"
      "g = grant_task w ttl now r"
    by (auto simp: got claim_rows_def Let_def)
  moreover have "r \<in> set (tasks db)" "elig r"
    using r(1) task_lease.picked_subset by blast+
  moreover have "task_order r \<le> task_order s"
    if "s \<in> set (tasks db)" "elig s" "tq_id s \<notin> tq_id ` set got" for s
    using task_lease.best_first [OF assms(1) that(1,2) _ r(1)] that(3) got by blast
  ultimately show "\<exists>r \<in> set (tasks db). elig r \<and> g = grant_task w ttl now r \<and>
      (\<forall>s \<in> set (tasks db). elig s \<and> tq_id s \<notin> tq_id ` set got \<longrightarrow> task_order r \<le> task_order s)"
    by blast
qed

theorem claim_tasks_best_first_witness:
  "length (snd (claim_tasks 70000000 [] ''SNMP'' ''w2'' 60 1 None demo_db)) = 1"
proof -
  define elig where "elig = (\<lambda>r. task_claimable 70000000 r \<and> tq_protocol r = ''SNMP''
      \<and> in_partitions None (tq_partition r) \<and> tq_id r \<notin> set [])"
  have "distinct (map tq_id (tasks demo_db))" by code_simp
  from claim_tasks_best_first [OF this prod.collapse [symmetric] elig_def]
  have "length (snd (claim_tasks 70000000 [] ''SNMP'' ''w2'' 60 1 None demo_db)) =
      min 1 (length (filter elig (tasks demo_db)))"
    by blast
  also have "length (filter elig (tasks demo_db)) = 2"
    unfolding elig_def by code_simp
  finally show ?thesis by simp
qed

text \<open>
  two claims of results by any two writers, the second made before the first one's leases
  expire, never serve the same result, whatever batch sizes and partitions they ask for.
\<close>

theorem claim_results_disjoint:
  assumes "claim_results now locked w ttl n ps db = (db1, got1)"
    and "claim_results now' locked' v ttl' m qs db1 = (db2, got2)"
    and "now' < now + seconds ttl"
  shows "rq_id ` set got1 \<inter> rq_id ` set got2 = {}"
proof -
  obtain rows1 where 1: "claim_rows rq_id (\<lambda>r. result_claimable now r
        \<and> in_partitions ps (rq_partition r) \<and> rq_id r \<notin> set locked)
      result_order n (grant_result w ttl now) (results db) = (rows1, got1)"
    and db1: "db1 = db\<lparr>results := rows1\<rparr>"
    using assms(1) by (auto simp: claim_results_def split: prod.splits)
  obtain rows2 where 2: "claim_rows rq_id (\<lambda>r. result_claimable now' r
        \<and> in_partitions qs (rq_partition r) \<and> rq_id r \<notin> set locked')
      result_order m (grant_result v ttl' now') rows1 = (rows2, got2)"
    using assms(2) by (auto simp: claim_results_def db1 split: prod.splits)
  show ?thesis
    by (rule result_lease.claims_disjoint [OF 1 2 assms(3)]) simp
qed

theorem claim_results_disjoint_witness:
  "rq_id ` set (snd (claim_results 5 [] ''w'' 60 1 None demo_results_db)) \<inter>
   rq_id ` set (snd (claim_results 6 [] ''v'' 60 1 None
       (fst (claim_results 5 [] ''w'' 60 1 None demo_results_db)))) = {}"
  by (rule claim_results_disjoint [OF prod.collapse [symmetric] prod.collapse [symmetric]])
    (simp add: seconds_def)

text \<open>
  C4: enqueuing is idempotent: once a batch of results has been enqueued, enqueuing it again,
  at any later time and even after other batches, changes nothing (\<open>ON CONFLICT
  (idempotency_key) DO NOTHING\<close>).
\<close>

theorem enqueue_results_idempotent:
  assumes "enqueue_results now ts db = Inr db1" "enqueue_results now' us db1 = Inr db2"
  shows "enqueue_results now'' ts db2 = Inr db2"
proof -
  have keys: "rq_key ` set (results d) \<subseteq> rq_key ` set (results d')"
    if "enqueue_results n vs d = Inr d'" for n vs d d'
    using that unfolding enqueue_results_def
    by (rule foldR_invariant [where P = "\<lambda>x. rq_key ` set (results d) \<subseteq> rq_key ` set (results x)"])
      (auto simp: insert_result_def insert_absent_def split: if_splits)
  have "nr_key ` set ts \<subseteq> rq_key ` set (results db1)"
    using assms(1)
  proof (induction ts arbitrary: db)
    case Nil
    then show ?case by simp
  next
    case (Cons t ts)
    then obtain d where d: "insert_result (result_row_of now t) db = Inr d"
        "enqueue_results now ts d = Inr db1"
      by (auto simp: enqueue_results_def bindR_eq_Inr)
    then have "nr_key t \<in> rq_key ` set (results d)"
      by (auto simp: insert_result_def insert_absent_def result_row_of_def split: if_splits)
    with keys [OF d(2)] Cons.IH [OF d(2)] show ?case by auto
  qed
  with keys [OF assms(2)] have "nr_key ` set ts \<subseteq> rq_key ` set (results db2)" by blast
  then show ?thesis
    unfolding enqueue_results_def
    by (induction ts) (auto simp: insert_result_def result_row_of_def)
qed

theorem enqueue_results_idempotent_witness:
  "enqueue_results 9 [demo_result ''r1'' ''k1'', demo_result ''r2'' ''k1'']
     demo_results_db = Inr demo_results_db"
proof (rule enqueue_results_idempotent)
  show "enqueue_results 3 [demo_result ''r1'' ''k1'', demo_result ''r2'' ''k1''] demo_db =
      Inr (demo_db\<lparr>results := [result_row_of 3 (demo_result ''r1'' ''k1'')]\<rparr>)"
    by code_simp
  show "enqueue_results 3 [demo_result ''r2'' ''k2'']
      (demo_db\<lparr>results := [result_row_of 3 (demo_result ''r1'' ''k1'')]\<rparr>) = Inr demo_results_db"
    by code_simp
qed

text \<open>
  a retried task stays out of every claim until its back-off has passed. A retried result
  does not: \<open>retry_result\<close> writes its back-off into \<open>received_at\<close>, which the claim of
  results only orders by, so the row is claimable again at once.
\<close>

theorem retry_backoff:
  assumes "r \<in> set (tasks (retry_task now tid eligible c m db))" "tq_id r = tid"
    and "q \<in> set (results (retry_result now rid eligible c m db))" "rq_id q = rid"
  shows "(task_claimable later r \<longleftrightarrow> eligible \<le> later) \<and> result_claimable later q"
proof
  obtain r0 where "r = (unlease_task now Retry_wait r0)\<lparr>tq_eligible := eligible,
      tq_execute_attempts := tq_execute_attempts r0 + 1, tq_error_code := c, tq_error_message := m\<rparr>"
    using updated_row [of r tq_id tid] assms(1,2) by (auto simp: retry_task_def on_task_def)
  then show "task_claimable later r \<longleftrightarrow> eligible \<le> later"
    by (simp add: unlease_task_def task_claimable_def)
  obtain q0 where "q = (unlease_result now R_retry_wait q0)\<lparr>rq_received := eligible,
      rq_error_code := c, rq_error_message := m\<rparr>"
    using updated_row [of q rq_id rid] assms(3,4) by (auto simp: retry_result_def on_result_def)
  then show "result_claimable later q"
    by (simp add: unlease_result_def result_claimable_def)
qed

theorem retry_backoff_witness:
  "\<exists>q \<in> set (results (retry_result 6 ''r1'' 30000006 None None demo_results_db)).
     result_claimable 7 q"
proof -
  let ?t = "(unlease_task 6 Retry_wait demo_leased)\<lparr>tq_eligible := 30000006,
      tq_execute_attempts := 1, tq_error_code := None, tq_error_message := None\<rparr>"
  let ?q = "(unlease_result 6 R_retry_wait (result_row_of 3 (demo_result ''r1'' ''k1'')))
      \<lparr>rq_received := 30000006, rq_error_code := None, rq_error_message := None\<rparr>"
  have q: "?q \<in> set (results (retry_result 6 ''r1'' 30000006 None None demo_results_db))"
    by code_simp
  have t: "?t \<in> set (tasks (retry_task 6 ''t2'' 30000006 None None demo_results_db))"
    by code_simp
  have "result_claimable 7 ?q"
    by (rule retry_backoff [OF t _ q, THEN conjunct2]) (simp_all add: unlease_task_def demo_leased_def
        grant_task_def task_row_of_def demo_task_def unlease_result_def result_row_of_def
        demo_result_def)
  with q show ?thesis by blast
qed

text \<open>
  only the renewal is fenced by the lease's owner. Once a task is completed, a renewal
  by any worker changes nothing; a retry that arrives late, from a worker whose lease was lost,
  still rewrites the row and takes the completed task back into the queue.
\<close>

theorem late_worker:
  assumes "queue_inv db" "r \<in> set (tasks db)" "tq_status r = Completed"
  shows "renew_task_lease now (tq_id r) w ttl db = db \<and>
     (\<exists>r' \<in> set (tasks (retry_task now (tq_id r) now c m db)).
        tq_id r' = tq_id r \<and> tq_status r' = Retry_wait \<and> task_claimable now r')"
proof
  have "tq_owner r = None" "distinct (map tq_id (tasks db))"
    using assms by (auto simp: queue_inv_def task_ok_def)
  then have "update_where (\<lambda>s. tq_id s = tq_id r \<and> tq_owner s = Some w) f (tasks db) = tasks db" for f
    using assms(2) by (intro update_where_none) (metis distinct_key_eq option.distinct(1))
  then show "renew_task_lease now (tq_id r) w ttl db = db"
    by (simp add: renew_task_lease_def)
  show "\<exists>r' \<in> set (tasks (retry_task now (tq_id r) now c m db)).
        tq_id r' = tq_id r \<and> tq_status r' = Retry_wait \<and> task_claimable now r'"
  proof (rule bexI)
    let ?f = "\<lambda>r. (unlease_task now Retry_wait r)\<lparr>tq_eligible := now,
      tq_execute_attempts := tq_execute_attempts r + 1, tq_error_code := c, tq_error_message := m\<rparr>"
    show "?f r \<in> set (tasks (retry_task now (tq_id r) now c m db))"
      unfolding retry_task_def on_task_def using assms(2) by (auto intro: updated_in)
    show "tq_id (?f r) = tq_id r \<and> tq_status (?f r) = Retry_wait \<and> task_claimable now (?f r)"
      by (simp add: unlease_task_def task_claimable_def)
  qed
qed

theorem late_worker_witness:
  "\<exists>r' \<in> set (tasks (retry_task 9 ''t2'' 9 None None (complete_task 8 ''t2'' demo_db))).
     tq_id r' = ''t2'' \<and> tq_status r' = Retry_wait \<and> task_claimable 9 r'"
proof -
  obtain t where "queue_reachable t demo_db" using demo_reachable by blast
  then have "queue_inv (complete_task 8 ''t2'' demo_db)"
    by (intro queue_inv_task_ops reachable_inv)
  moreover have "unlease_task 8 Completed demo_leased \<in> set (tasks (complete_task 8 ''t2'' demo_db))"
    by code_simp
  ultimately show ?thesis
    using late_worker [of "complete_task 8 ''t2'' demo_db" "unlease_task 8 Completed demo_leased"
        9 "''w1''" 60 None None]
    by (simp add: unlease_task_def demo_leased_def grant_task_def task_row_of_def demo_task_def)
qed

end
