(* ===== verification/Backpressure.thy ===== *)
theory Backpressure
  imports Queue_Properties
begin

section \<open>Backpressure and retry policy (polling/backpressure.py)\<close>

text \<open>
  The pure policy (allow or defer under pressure; retry, open the circuit or dead-letter after a
  failure) and its application to the task queue. A task is the part of a queue row the policy
  reads; an absent attribute and an attribute that is \<open>None\<close> are told apart where the code
  does.
\<close>

record bp_config =
  max_task_queue_depth :: int
  max_task_queue_age_seconds :: int
  max_result_queue_age_seconds :: int
  max_writer_lag_seconds :: int
  max_db_latency_ms :: int
  max_protocol_failure_rate :: pyfloat
  max_worker_saturation :: pyfloat
  retry_base_seconds :: int
  retry_max_seconds :: int
  retry_max_attempts :: int
  circuit_failure_threshold :: int
  circuit_cooldown_seconds :: int
  pressure_defer_seconds :: int

definition default_bp_config :: bp_config where
  "default_bp_config = \<lparr>max_task_queue_depth = 100000, max_task_queue_age_seconds = 900,
     max_result_queue_age_seconds = 300, max_writer_lag_seconds = 120, max_db_latency_ms = 2000,
     max_protocol_failure_rate = Fin (1 / 2), max_worker_saturation = Fin (9 / 10),
     retry_base_seconds = 60, retry_max_seconds = 900, retry_max_attempts = 5,
     circuit_failure_threshold = 3, circuit_cooldown_seconds = 300, pressure_defer_seconds = 60\<rparr>"

text \<open>\<open>from_settings\<close>: three attributes of the settings override the defaults when present.\<close>

record bp_settings =
  s_max_task_queue_depth :: "int option"
  s_max_writer_lag_seconds :: "int option"
  s_retry_max_attempts :: "int option"

definition bp_from_settings :: "bp_settings \<Rightarrow> bp_config" where
  "bp_from_settings s = default_bp_config
     \<lparr>max_task_queue_depth := opt (s_max_task_queue_depth s) (max_task_queue_depth default_bp_config),
      max_writer_lag_seconds :=
        opt (s_max_writer_lag_seconds s) (max_writer_lag_seconds default_bp_config),
      retry_max_attempts := opt (s_retry_max_attempts s) (retry_max_attempts default_bp_config)\<rparr>"

record bp_signals =
  task_queue_depth :: int
  oldest_task_age_seconds :: int
  result_queue_age_seconds :: int
  writer_lag_seconds :: int
  db_write_latency_ms :: int
  protocol_failure_rate :: pyfloat
  worker_saturation :: pyfloat

record bp_reason =
  r_code :: string
  r_message :: string
  r_value :: "pyfloat option"
  r_threshold :: "pyfloat option"

datatype bp_action = Allow | Defer | Retry_after | Circuit_open | To_dead_letter

record bp_decision =
  d_action :: bp_action
  d_reasons :: "bp_reason list"
  d_next :: "instant option"
  d_dead_reason :: "string option"
  d_error_code :: "string option"
  d_error_message :: "string option"
  d_protected :: bool

definition decision :: "bp_action \<Rightarrow> bp_decision" where
  "decision a = \<lparr>d_action = a, d_reasons = [], d_next = None, d_dead_reason = None,
     d_error_code = None, d_error_message = None, d_protected = False\<rparr>"

text \<open>
  What the policy reads of a task. An attribute is \<open>None\<close> when absent and \<open>Some None\<close> when
  present with the value \<open>None\<close>.
\<close>

record bp_task =
  bp_protocol :: "polling_protocol enum_or_str"
  bp_priority :: "int option"
  bp_execute_attempts :: "int option option"
  bp_write_attempts :: "int option option"
  bp_last_error_code :: "string option"

fun task_protocol :: "polling_protocol enum_or_str \<Rightarrow> string" where
  "task_protocol (Member p) = protocol_value p"
| "task_protocol (Raw s) = upper s"

definition bp_task_priority :: "bp_task \<Rightarrow> int" where
  "bp_task_priority t = opt (bp_priority t) (priority_value NORMAL)"

definition is_icmp_protected :: "bp_task \<Rightarrow> bool" where
  "is_icmp_protected t =
     (task_protocol (bp_protocol t) = protocol_value ICMP \<or>
      bp_task_priority t = priority_value ICMP_AVAILABILITY)"

definition pressure_checks :: "bp_signals \<Rightarrow> bp_config \<Rightarrow> (string \<times> pyfloat \<times> pyfloat) list" where
  "pressure_checks s c =
    [(''task_queue_depth'', Fin (of_int (task_queue_depth s)), Fin (of_int (max_task_queue_depth c))),
     (''task_queue_age'', Fin (of_int (oldest_task_age_seconds s)),
        Fin (of_int (max_task_queue_age_seconds c))),
     (''result_queue_age'', Fin (of_int (result_queue_age_seconds s)),
        Fin (of_int (max_result_queue_age_seconds c))),
     (''writer_lag'', Fin (of_int (writer_lag_seconds s)), Fin (of_int (max_writer_lag_seconds c))),
     (''db_latency'', Fin (of_int (db_write_latency_ms s)), Fin (of_int (max_db_latency_ms c))),
     (''protocol_failure_rate'', protocol_failure_rate s, max_protocol_failure_rate c),
     (''worker_saturation'', worker_saturation s, max_worker_saturation c)]"

definition pressure_reasons :: "bp_signals \<Rightarrow> bp_config \<Rightarrow> bp_reason list" where
  "pressure_reasons s c =
     map (\<lambda>(code, v, th). \<lparr>r_code = code, r_message = code @ '' exceeded threshold'',
                            r_value = Some v, r_threshold = Some th\<rparr>)
       (filter (\<lambda>(code, v, th). f_gt v th) (pressure_checks s c))"

definition evaluate_backpressure :: "bp_task \<Rightarrow> bp_signals \<Rightarrow> bp_config \<Rightarrow> instant \<Rightarrow> bp_decision" where
  "evaluate_backpressure t s c now =
     (let reasons = pressure_reasons s c in
      if reasons = [] then decision Allow
      else if is_icmp_protected t \<and> ''protocol_failure_rate'' \<notin> r_code ` set reasons
      then (decision Allow)
        \<lparr>d_reasons := reasons @ [\<lparr>r_code = ''icmp_priority_protected'',
            r_message = ''ICMP/PING-CHECK protected under pressure'', r_value = None,
            r_threshold = None\<rparr>],
         d_protected := True\<rparr>
      else (decision Defer)
        \<lparr>d_reasons := reasons, d_next := Some (now + seconds (pressure_defer_seconds c)),
         d_error_code := Some ''backpressure'',
         d_error_message := Some (join '', '' (map r_code reasons))\<rparr>)"

text \<open>\<open>int(task.execute_attempts, or else task.write_attempts, or 0)\<close>.\<close>

definition attempts_of :: "bp_task \<Rightarrow> int" where
  "attempts_of t = opt (opt (bp_execute_attempts t) (opt (bp_write_attempts t) (Some 0))) 0"

definition str_or :: "string option \<Rightarrow> string \<Rightarrow> string" where
  "str_or x d = (case x of Some s \<Rightarrow> if s = [] then d else s | None \<Rightarrow> d)"

definition retry_decision ::
    "bp_task \<Rightarrow> bp_config \<Rightarrow> instant \<Rightarrow> string option \<Rightarrow> string option \<Rightarrow> bp_decision" where
  "retry_decision t c now error_code error_message =
     (let attempts = attempts_of t;
          code = str_or error_code (str_or (bp_last_error_code t) ''error'')
      in if attempts \<ge> retry_max_attempts c then (decision To_dead_letter)
           \<lparr>d_dead_reason := Some (''max_attempts_exceeded:'' @ code), d_error_code := Some code,
            d_error_message := error_message\<rparr>
         else if attempts \<ge> circuit_failure_threshold c then (decision Circuit_open)
           \<lparr>d_next := Some (now + seconds (circuit_cooldown_seconds c)),
            d_error_code := Some ''circuit_open'',
            d_error_message := Some (str_or error_message
               (''Circuit opened after '' @ show_int attempts @ '' attempts''))\<rparr>
         else (decision Retry_after)
           \<lparr>d_next := Some (now + seconds (min (retry_max_seconds c)
                              (retry_base_seconds c * 2 ^ nat (max attempts 0)))),
            d_error_code := Some code, d_error_message := error_message\<rparr>)"

definition apply_task_decision :: "instant \<Rightarrow> string \<Rightarrow> bp_decision \<Rightarrow> queue_db \<Rightarrow> queue_db" where
  "apply_task_decision now tid d db =
     (case d_action d of
        Defer \<Rightarrow> defer_task now tid (opt (d_next d) now) (d_error_code d) (d_error_message d) db
      | Retry_after \<Rightarrow> retry_task now tid (opt (d_next d) now) (d_error_code d) (d_error_message d) db
      | Circuit_open \<Rightarrow> retry_task now tid (opt (d_next d) now) (d_error_code d) (d_error_message d) db
      | To_dead_letter \<Rightarrow> dead_letter_task now tid (str_or (d_dead_reason d) ''backpressure_dead_letter'')
          (d_error_code d) (d_error_message d) db
      | Allow \<Rightarrow> db)"

subsection \<open>The retry ladder\<close>

text \<open>The task the policy sees when a queue row is passed to it.\<close>

definition bp_of_row :: "task_row \<Rightarrow> bp_task" where
  "bp_of_row r = \<lparr>bp_protocol = Raw (tq_protocol r), bp_priority = Some (tq_priority r),
     bp_execute_attempts = Some (Some (int (tq_execute_attempts r))), bp_write_attempts = None,
     bp_last_error_code = tq_error_code r\<rparr>"

text \<open>One failed execution of a task: the decision on its row, applied to the queue.\<close>

definition fail_task :: "bp_config \<Rightarrow> instant \<Rightarrow> string option \<Rightarrow> string \<Rightarrow> queue_db \<Rightarrow> queue_db" where
  "fail_task c now code tid db =
     (case find (\<lambda>r. tq_id r = tid) (tasks db) of
        None \<Rightarrow> db
      | Some r \<Rightarrow> apply_task_decision now tid (retry_decision (bp_of_row r) c now code None) db)"

fun fail_times :: "bp_config \<Rightarrow> instant list \<Rightarrow> string option \<Rightarrow> string \<Rightarrow> queue_db \<Rightarrow> queue_db" where
  "fail_times c [] code tid db = db"
| "fail_times c (now # nows) code tid db = fail_times c nows code tid (fail_task c now code tid db)"

lemma attempts_of_row [simp]: "attempts_of (bp_of_row r) = int (tq_execute_attempts r)"
  by (simp add: attempts_of_def bp_of_row_def opt_def)

lemma retry_decision_action:
  "d_action (retry_decision t c now code msg) =
     (if attempts_of t \<ge> retry_max_attempts c then To_dead_letter
      else if attempts_of t \<ge> circuit_failure_threshold c then Circuit_open else Retry_after)"
  by (simp add: retry_decision_def Let_def decision_def)

text \<open>The row a failed task is left with.\<close>

lemma find_key_unique:
  "distinct (map k xs) \<Longrightarrow> x \<in> set xs \<Longrightarrow> find (\<lambda>y. k y = k x) xs = Some x"
  by (induction xs) (auto simp: rev_image_eqI)

lemma on_task_hit:
  assumes "r \<in> set (tasks db)" "Q (f r)"
  shows "\<exists>r' \<in> set (tasks (on_task (tq_id r) f db)). Q r'"
proof (rule bexI)
  show "f r \<in> set (tasks (on_task (tq_id r) f db))"
    using assms(1) by (simp add: on_task_def updated_in)
qed (rule assms(2))

lemma fail_task_row:
  assumes "distinct (map tq_id (tasks db))" "r \<in> set (tasks db)"
  shows "\<exists>r' \<in> set (tasks (fail_task c now code (tq_id r) db)). tq_id r' = tq_id r \<and>
    (if int (tq_execute_attempts r) \<ge> retry_max_attempts c
     then tq_status r' = Dead_letter \<and> tq_execute_attempts r' = tq_execute_attempts r
     else tq_status r' = Retry_wait \<and> tq_execute_attempts r' = Suc (tq_execute_attempts r))"
proof -
  let ?d = "retry_decision (bp_of_row r) c now code None"
  have f: "fail_task c now code (tq_id r) db = apply_task_decision now (tq_id r) ?d db"
    using find_key_unique [OF assms] by (simp add: fail_task_def)
  show ?thesis
  proof (cases "int (tq_execute_attempts r) \<ge> retry_max_attempts c")
    case True
    then show ?thesis
      unfolding f apply_task_decision_def retry_decision_action attempts_of_row
      by (simp add: dead_letter_task_def) (rule on_task_hit [OF assms(2)], simp add: unlease_task_def)
  next
    case False
    then have "apply_task_decision now (tq_id r) ?d db = retry_task now (tq_id r)
        (opt (d_next ?d) now) (d_error_code ?d) (d_error_message ?d) db"
      by (simp add: apply_task_decision_def retry_decision_action)
    with False show ?thesis
      unfolding f by (simp add: retry_task_def)
        (rule on_task_hit [OF assms(2)], simp add: unlease_task_def)
  qed
qed

lemma fail_task_distinct:
  "distinct (map tq_id (tasks db)) \<Longrightarrow> distinct (map tq_id (tasks (fail_task c now code tid db)))"
  by (auto simp: fail_task_def apply_task_decision_def queue_ops unlease_task_def
      update_where_keys split: option.splits bp_action.splits)



text \<open>
  the three rungs of the ladder. A failure is dead-lettered exactly when the attempts have
  reached the maximum, opens the circuit exactly when they have reached the circuit threshold
  but not the maximum, and is otherwise retried; a retry is scheduled no later than
  \<open>retry_max_seconds\<close> after now, after the doubled base delay when that is shorter, and never
  in the past.
\<close>

theorem retry_rungs:
  assumes "0 \<le> retry_base_seconds c" "0 \<le> retry_max_seconds c" "0 \<le> attempts_of t"
    and "d = retry_decision t c now code msg"
  shows "(d_action d = To_dead_letter \<longleftrightarrow> retry_max_attempts c \<le> attempts_of t) \<and>
    (d_action d = Circuit_open \<longleftrightarrow>
       circuit_failure_threshold c \<le> attempts_of t \<and> attempts_of t < retry_max_attempts c) \<and>
    (case d_next d of
       None \<Rightarrow> d_action d = To_dead_letter
     | Some at_time \<Rightarrow>
         (if d_action d = Circuit_open then at_time = now + seconds (circuit_cooldown_seconds c)
          else now \<le> at_time \<and> at_time \<le> now + seconds (retry_max_seconds c) \<and>
               (at_time = now + seconds (retry_max_seconds c) \<or>
                at_time = now + seconds (retry_base_seconds c * 2 ^ nat (attempts_of t)))))"
  using assms by (auto simp: retry_decision_def Let_def decision_def min_def)

definition demo_bp_task :: bp_task where
  "demo_bp_task = \<lparr>bp_protocol = Raw ''snmp'', bp_priority = Some 50,
     bp_execute_attempts = Some (Some 3), bp_write_attempts = None, bp_last_error_code = None\<rparr>"

theorem retry_rungs_witness:
  "d_action (retry_decision demo_bp_task default_bp_config 0 None None) = Circuit_open"
proof -
  have "0 \<le> retry_base_seconds default_bp_config" "0 \<le> retry_max_seconds default_bp_config"
    "0 \<le> attempts_of demo_bp_task"
    by code_simp+
  note rungs = retry_rungs [OF this refl, of 0 None None]
  have "circuit_failure_threshold default_bp_config \<le> attempts_of demo_bp_task \<and>
      attempts_of demo_bp_task < retry_max_attempts default_bp_config"
    by code_simp
  with rungs show ?thesis by blast
qed

text \<open>
  work is deferred only under pressure and never dropped: a task is deferred exactly when
  some signal exceeds its threshold and the task is not ICMP-protected, or the protocol failure
  rate is among the exceeded signals; the decision is otherwise to allow it, and a deferral
  names every exceeded signal and comes back after the configured delay.
\<close>

theorem backpressure_decision:
  "d_action (evaluate_backpressure t s c now) =
     (if (\<exists>(code, v, th) \<in> set (pressure_checks s c). f_gt v th) \<and>
         (if is_icmp_protected t then f_gt (protocol_failure_rate s) (max_protocol_failure_rate c) else True)
      then Defer else Allow) \<and>
   (d_action (evaluate_backpressure t s c now) = Defer \<longleftrightarrow>
      d_next (evaluate_backpressure t s c now) = Some (now + seconds (pressure_defer_seconds c)))"
proof -
  let ?rs = "pressure_reasons s c"
  have nonempty: "?rs \<noteq> [] \<longleftrightarrow> (\<exists>(code, v, th) \<in> set (pressure_checks s c). f_gt v th)"
    by (auto simp: pressure_reasons_def filter_empty_conv)
  have rate: "''protocol_failure_rate'' \<in> r_code ` set ?rs \<longleftrightarrow>
      f_gt (protocol_failure_rate s) (max_protocol_failure_rate c)"
    by (simp add: pressure_reasons_def pressure_checks_def)
  have "d_action (evaluate_backpressure t s c now) =
      (if ?rs \<noteq> [] \<and> (\<not> is_icmp_protected t \<or> ''protocol_failure_rate'' \<in> r_code ` set ?rs)
       then Defer else Allow)"
    by (simp add: evaluate_backpressure_def Let_def decision_def)
  moreover have "d_action (evaluate_backpressure t s c now) = Defer \<longleftrightarrow>
      d_next (evaluate_backpressure t s c now) = Some (now + seconds (pressure_defer_seconds c))"
    by (simp add: evaluate_backpressure_def Let_def decision_def)
  ultimately show ?thesis unfolding nonempty rate by (cases "is_icmp_protected t") simp_all
qed

end
