(* ===== verification/Metadata_Cache.thy ===== *)
theory Metadata_Cache
  imports Py_Values
begin

section \<open>Metadata cache (polling/metadata_cache.py)\<close>

text \<open>
  A cache of metadata snapshots with a time to live and a version. Snapshots are stripped of
  everything stored under a key that looks like a secret before they enter the cache; a task may
  use a snapshot only while it is fresh and of the version the task was planned with.
\<close>

definition secret_markers :: "string list" where
  "secret_markers = [''password'', ''secret'', ''token'', ''community'']"

definition secret_key :: "string \<Rightarrow> bool" where
  "secret_key k = list_ex (\<lambda>m. contains m (lower k)) secret_markers"

text \<open>Keys of a dictionary are distinct, so filling \<open>safe\<close> key by key keeps their order.\<close>

fun safe_value :: "pyval \<Rightarrow> pyval"
  and safe_items :: "pyval list \<Rightarrow> pyval list"
  and safe_metadata :: "pydict \<Rightarrow> pydict" where
  "safe_value (PDict d) = PDict (safe_metadata d)"
| "safe_value (PList xs) = PList (safe_items xs)"
| "safe_value v = v"
| "safe_items [] = []"
| "safe_items (x # xs) = safe_value x # safe_items xs"
| "safe_metadata [] = []"
| "safe_metadata ((k, v) # d) =
     (if secret_key k then safe_metadata d else (k, safe_value v) # safe_metadata d)"

text \<open>No secret key at any depth.\<close>

fun secret_free :: "pyval \<Rightarrow> bool"
  and secret_free_items :: "pyval list \<Rightarrow> bool"
  and secret_free_dict :: "pydict \<Rightarrow> bool" where
  "secret_free (PDict d) = secret_free_dict d"
| "secret_free (PList xs) = secret_free_items xs"
| "secret_free v = True"
| "secret_free_items [] = True"
| "secret_free_items (x # xs) = (secret_free x \<and> secret_free_items xs)"
| "secret_free_dict [] = True"
| "secret_free_dict ((k, v) # d) = (\<not> secret_key k \<and> secret_free v \<and> secret_free_dict d)"

lemma safe_secret_free:
  "secret_free (safe_value v)" "secret_free_items (safe_items xs)"
  "secret_free_dict (safe_metadata d)"
  by (induction v and xs and d rule: safe_value_safe_items_safe_metadata.induct) simp_all

lemma safe_keeps_rest:
  "secret_free v \<Longrightarrow> safe_value v = v"
  "secret_free_items xs \<Longrightarrow> safe_items xs = xs"
  "secret_free_dict d \<Longrightarrow> safe_metadata d = d"
  by (induction v and xs and d rule: safe_value_safe_items_safe_metadata.induct) simp_all

lemma map_of_safe_metadata:
  "map_of (safe_metadata d) k = (if secret_key k then None else map_option safe_value (map_of d k))"
  by (induction d) auto

subsection \<open>The cache\<close>

record cache_config =
  cc_ttl_seconds :: int
  cc_defer_on_mismatch :: bool

definition default_cache_config :: cache_config where
  "default_cache_config = \<lparr>cc_ttl_seconds = 300, cc_defer_on_mismatch = True\<rparr>"

definition cache_config_from_settings :: "int option \<Rightarrow> cache_config" where
  "cache_config_from_settings ttl =
     default_cache_config\<lparr>cc_ttl_seconds := (case ttl of None \<Rightarrow> 300 | Some n \<Rightarrow> n)\<rparr>"

datatype entry_status = Hit | Miss | Expired

record cache_entry =
  ce_kind :: string
  ce_key :: string
  ce_value :: "pydict option"
  ce_version :: "string option"
  ce_expires :: "instant option"
  ce_status :: entry_status

type_synonym meta_cache = "((string \<times> string) \<times> cache_entry) list"

definition cache_put :: "cache_config \<Rightarrow> string \<Rightarrow> string \<Rightarrow> pydict \<Rightarrow> string option \<Rightarrow> instant \<Rightarrow>
    int option \<Rightarrow> meta_cache \<Rightarrow> cache_entry \<times> meta_cache" where
  "cache_put cfg kind key v version now ttl c =
     (let e = \<lparr>ce_kind = kind, ce_key = key, ce_value = Some (safe_metadata v),
               ce_version = version,
               ce_expires = Some (now + seconds (case ttl of None \<Rightarrow> cc_ttl_seconds cfg | Some n \<Rightarrow> n)),
               ce_status = Hit\<rparr>
      in (e, AList.update (kind, key) e c))"

definition cache_get :: "string \<Rightarrow> string \<Rightarrow> instant \<Rightarrow> meta_cache \<Rightarrow> cache_entry" where
  "cache_get kind key now c =
     (case map_of c (kind, key) of
        None \<Rightarrow> \<lparr>ce_kind = kind, ce_key = key, ce_value = None, ce_version = None,
                 ce_expires = None, ce_status = Miss\<rparr>
      | Some e \<Rightarrow>
          (case ce_expires e of
             Some x \<Rightarrow>
               if x \<le> now
               then \<lparr>ce_kind = kind, ce_key = key, ce_value = ce_value e, ce_version = ce_version e,
                     ce_expires = ce_expires e, ce_status = Expired\<rparr>
               else e
           | None \<Rightarrow> e))"

definition cache_invalidate :: "string \<Rightarrow> string \<Rightarrow> meta_cache \<Rightarrow> meta_cache" where
  "cache_invalidate kind key c = AList.delete (kind, key) c"

definition cache_invalidate_kind :: "string \<Rightarrow> meta_cache \<Rightarrow> meta_cache" where
  "cache_invalidate_kind kind c =
     fold AList.delete (filter (\<lambda>k. fst k = kind) (map fst c)) c"

subsection \<open>The decision for a task\<close>

record metadata_decision =
  md_action :: string
  md_reason :: "string option"
  md_value :: "pydict option"
  md_cache_version :: "string option"
  md_task_version :: "string option"

definition non_empty :: "string option \<Rightarrow> bool" where
  "non_empty s = (case s of None \<Rightarrow> False | Some t \<Rightarrow> t \<noteq> [])"

definition task_kind :: "(pyval \<Rightarrow> string) \<Rightarrow> pydict \<Rightarrow> string" where
  "task_kind fmt t = py_str fmt (por (get t ''metadata_kind'') (PStr ''metric''))"

definition task_key :: "(pyval \<Rightarrow> string) \<Rightarrow> pydict \<Rightarrow> string" where
  "task_key fmt t = py_str fmt (por (get t ''metadata_key'')
     (por (get t ''metric_id'') (por (get t ''ci_id'') (PStr []))))"

definition task_version :: "(pyval \<Rightarrow> string) \<Rightarrow> pydict \<Rightarrow> string option" where
  "task_version fmt t =
     (if get t ''metadata_version'' = PNone then None
      else Some (py_str fmt (get t ''metadata_version'')))"

definition assess_task_metadata ::
    "(pyval \<Rightarrow> string) \<Rightarrow> cache_config \<Rightarrow> pydict \<Rightarrow> instant \<Rightarrow> meta_cache \<Rightarrow> metadata_decision" where
  "assess_task_metadata fmt cfg t now c =
     (let tv = task_version fmt t;
          e = cache_get (task_kind fmt t) (task_key fmt t) now c
      in case ce_status e of
           Miss \<Rightarrow> \<lparr>md_action = ''refresh'', md_reason = Some ''metadata_missing'', md_value = None,
                    md_cache_version = None, md_task_version = tv\<rparr>
         | Expired \<Rightarrow> \<lparr>md_action = ''refresh'', md_reason = Some ''metadata_expired'',
                    md_value = ce_value e, md_cache_version = ce_version e, md_task_version = tv\<rparr>
         | Hit \<Rightarrow>
             if non_empty tv \<and> non_empty (ce_version e) \<and> tv \<noteq> ce_version e
             then \<lparr>md_action = (if cc_defer_on_mismatch cfg then ''defer'' else ''refresh''),
                   md_reason = Some ''metadata_version_mismatch'', md_value = ce_value e,
                   md_cache_version = ce_version e, md_task_version = tv\<rparr>
             else \<lparr>md_action = ''use'', md_reason = None, md_value = ce_value e,
                   md_cache_version = ce_version e, md_task_version = tv\<rparr>)"

subsection \<open>Runs of the cache\<close>

datatype cache_op =
    Put string string pydict "string option" instant "int option"
  | Invalidate string string
  | Invalidate_kind string

fun exec_cache_op :: "cache_config \<Rightarrow> cache_op \<Rightarrow> meta_cache \<Rightarrow> meta_cache" where
  "exec_cache_op cfg (Put kind key v ver now ttl) c = snd (cache_put cfg kind key v ver now ttl c)"
| "exec_cache_op cfg (Invalidate kind key) c = cache_invalidate kind key c"
| "exec_cache_op cfg (Invalidate_kind kind) c = cache_invalidate_kind kind c"

definition cache_after :: "cache_config \<Rightarrow> cache_op list \<Rightarrow> meta_cache" where
  "cache_after cfg ops = fold (exec_cache_op cfg) ops []"

text \<open>
  The abstract cache: the last snapshot put under a key since it was last invalidated.
\<close>

fun last_put :: "cache_config \<Rightarrow> cache_op list \<Rightarrow> string \<times> string \<Rightarrow>
    (pydict \<times> string option \<times> instant) option" where
  "last_put cfg [] k = None"
| "last_put cfg (Put kind key v ver now ttl # ops) k =
     (if k = (kind, key)
      then Some (v, ver, now + seconds (case ttl of None \<Rightarrow> cc_ttl_seconds cfg | Some n \<Rightarrow> n))
      else last_put cfg ops k)"
| "last_put cfg (Invalidate kind key # ops) k =
     (if k = (kind, key) then None else last_put cfg ops k)"
| "last_put cfg (Invalidate_kind kind # ops) k =
     (if fst k = kind then None else last_put cfg ops k)"

definition entry_of :: "string \<times> string \<Rightarrow> pydict \<times> string option \<times> instant \<Rightarrow> cache_entry" where
  "entry_of k p = \<lparr>ce_kind = fst k, ce_key = snd k, ce_value = Some (safe_metadata (fst p)),
     ce_version = fst (snd p), ce_expires = Some (snd (snd p)), ce_status = Hit\<rparr>"

lemma map_of_fold_delete:
  "map_of (fold AList.delete ks c) k = (if k \<in> set ks then None else map_of c k)"
  by (induction ks arbitrary: c) (auto simp: map_of_delete)

lemma map_of_invalidate_kind:
  "map_of (cache_invalidate_kind kind c) k = (if fst k = kind then None else map_of c k)"
proof -
  have "k \<notin> fst ` set c \<Longrightarrow> map_of c k = None"
    by (simp add: map_of_eq_None_iff)
  then show ?thesis by (auto simp: cache_invalidate_kind_def map_of_fold_delete)
qed

lemma cache_snoc: "cache_after cfg (ops @ [op]) = exec_cache_op cfg op (cache_after cfg ops)"
  by (simp add: cache_after_def)

lemma cache_refines:
  "map_of (cache_after cfg ops) k = map_option (entry_of k) (last_put cfg (rev ops) k)"
proof (induction ops rule: rev_induct)
  case Nil
  then show ?case by (simp add: cache_after_def)
next
  case (snoc op ops)
  then show ?case
    by (cases op; cases k)
      (auto simp: cache_snoc cache_put_def Let_def map_of_update cache_invalidate_def map_of_delete
        map_of_invalidate_kind entry_of_def)
qed

lemma cache_get_after:
  "cache_get kind key now (cache_after cfg ops) =
     (case last_put cfg (rev ops) (kind, key) of
        None \<Rightarrow> \<lparr>ce_kind = kind, ce_key = key, ce_value = None, ce_version = None,
                 ce_expires = None, ce_status = Miss\<rparr>
      | Some p \<Rightarrow> (entry_of (kind, key) p)
          \<lparr>ce_status := if snd (snd p) \<le> now then Expired else Hit\<rparr>)"
  by (simp add: cache_get_def cache_refines entry_of_def split: option.split)

subsection \<open>Properties\<close>

text \<open>
  C7: whatever is put into the cache and however it is invalidated, no value a worker is handed
  for a task, fresh or stale, contains a secret key at any depth, and nothing else is lost: the
  value is the last snapshot put under the task's key with its secret entries dropped.
\<close>

theorem metadata_never_leaks:
  "case md_value (assess_task_metadata fmt cfg t now (cache_after cfg ops)) of
     None \<Rightarrow> last_put cfg (rev ops) (task_kind fmt t, task_key fmt t) = None
   | Some v \<Rightarrow> secret_free_dict v \<and>
       (\<exists>raw ver e. last_put cfg (rev ops) (task_kind fmt t, task_key fmt t) = Some (raw, ver, e) \<and>
          (\<forall>k. map_of v k = (if secret_key k then None else map_option safe_value (map_of raw k))))"
  by (auto simp: assess_task_metadata_def cache_get_after Let_def entry_of_def safe_secret_free
      map_of_safe_metadata split: option.split)

text \<open>
  a task is told to use cached metadata exactly when a snapshot was put under its key, not
  invalidated since, not yet expired, and not of another version than the task's when both
  versions are known; a fresh snapshot of another version is deferred or refreshed as the
  configuration says, everything else is refreshed.
\<close>

theorem metadata_decision_exact:
  "md_action (assess_task_metadata fmt cfg t now (cache_after cfg ops)) =
     (case last_put cfg (rev ops) (task_kind fmt t, task_key fmt t) of
        None \<Rightarrow> ''refresh''
      | Some (raw, ver, expires) \<Rightarrow>
          if expires \<le> now then ''refresh''
          else if non_empty (task_version fmt t) \<and> non_empty ver \<and> task_version fmt t \<noteq> ver
          then (if cc_defer_on_mismatch cfg then ''defer'' else ''refresh'')
          else ''use'')"
  by (auto simp add: assess_task_metadata_def cache_get_after Let_def entry_of_def split: option.split)

end
