(* ===== verification/Scheduler.thy ===== *)
theory Scheduler
  imports Lease_Queue Icmp_Measurements "HOL-Library.Multiset"
begin

section \<open>Protocol payloads and the scheduler (polling/protocol_contracts.py, polling/scheduler.py)\<close>

text \<open>
  Metric definition records are expanded into the task rows of a poll cycle: each record's
  protocol and source, its payload, its priority and its identity; ICMP latency and jitter
  records are not polled, one availability task per CI and address is synthesised for them when
  no record asks for it. A record's \<open>protocol\<close> entry that is an enum member is its value, the
  text both branches of the code end up with. The runtime's SHA-256, UUIDv5 and text of
  unusual values are those of \<open>runtime\<close>.
\<close>

subsection \<open>Payloads\<close>

definition required :: "pydict \<Rightarrow> string \<Rightarrow> pyval result" where
  "required r k =
     (if get r k = PNone \<or> get r k = PStr []
      then Inl (ValueError (''Missing required protocol payload field: '' @ k))
      else Inr (get r k))"

definition mqtt_error :: "py_exc" where
  "mqtt_error = ValueError ''Production MQTT is out of scope; use MQTT_STUB for roadmap sizing''"

definition protocol_of_text :: "py_exc \<Rightarrow> string \<Rightarrow> polling_protocol result" where
  "protocol_of_text mqtt raw =
     (if raw = ''MQTT'' then Inl mqtt
      else case enum_lookup protocol_value protocols raw of
          Some p \<Rightarrow> Inr p
        | None \<Rightarrow> Inl (ValueError (''Unsupported polling protocol: '' @ raw)))"

definition payload_protocol :: "runtime \<Rightarrow> pydict \<Rightarrow> polling_protocol result" where
  "payload_protocol rt r =
     bindR (required r ''protocol'') (\<lambda>v.
       protocol_of_text mqtt_error (upper (strip (text_of rt v))))"

definition int_entry :: "pydict \<Rightarrow> string list \<Rightarrow> int \<Rightarrow> pyval result" where
  "int_entry r ks dflt = bindR (py_int (get_or r ks (PInt dflt))) (\<lambda>i. Inr (PInt i))"

definition icmp_payload :: "pydict \<Rightarrow> pydict result" where
  "icmp_payload r =
     bindR (required r ''ip'') (\<lambda>target.
     bindR (int_entry r [''timeout_ms'', ''icmp_timeout_ms''] 3000) (\<lambda>timeout.
     bindR (int_entry r [''retries'', ''icmp_retries''] 2) (\<lambda>retries.
       Inr [(''kind'', PStr ''icmp_ping''), (''target'', target), (''timeout_ms'', timeout),
            (''retries'', retries)])))"

definition snmp_payload :: "pydict \<Rightarrow> pydict result" where
  "snmp_payload r =
     bindR (required r ''ip'') (\<lambda>target.
     bindR (required r ''oid'') (\<lambda>oid.
     bindR (int_entry r [''port'', ''snmp_port''] 161) (\<lambda>port.
     bindR (py_float (get_or r [''timeout_seconds'', ''snmp_timeout_seconds''] (PFloat (Fin 2)))) (\<lambda>timeout.
     bindR (int_entry r [''retries'', ''snmp_retries''] 1) (\<lambda>retries.
       Inr [(''kind'', PStr ''snmp_get''), (''target'', target), (''oid'', oid),
            (''community'', get_or r [''community'', ''snmp_community''] (PStr ''public'')),
            (''port'', port), (''timeout_seconds'', PFloat timeout), (''retries'', retries)])))))"

definition cli_payload :: "runtime \<Rightarrow> pydict \<Rightarrow> pydict result" where
  "cli_payload rt r =
     (let transport = upper (text_of rt (get_or r [''cli_protocol''] (PStr ''SSH'')))
      in if transport \<noteq> ''SSH'' \<and> transport \<noteq> ''TELNET''
         then Inl (ValueError ''cli_protocol must be SSH or Telnet'')
         else
           bindR (if truthy (get r ''cli_target'') then Inr (get r ''cli_target'') else required r ''ip'') (\<lambda>target.
           bindR (required r ''cli_command'') (\<lambda>command.
           bindR (required r ''cli_credential_ref'') (\<lambda>cred.
           bindR (int_entry r [''cli_timeout''] 30) (\<lambda>timeout.
             Inr [(''kind'', PStr ''cli_command''), (''target'', target), (''command'', command),
                  (''credential_ref'', cred),
                  (''value_extractor'', get_or r [''cli_value_extractor''] (PStr ''regex:(.*)'')),
                  (''transport'', PStr (if transport = ''TELNET'' then ''Telnet'' else ''SSH'')),
                  (''timeout_seconds'', timeout),
                  (''escalation_script'', get r ''cli_escalation_script'')])))))"

definition rest_payload :: "runtime \<Rightarrow> pydict \<Rightarrow> pydict result" where
  "rest_payload rt r =
     bindR (required r ''endpoint'') (\<lambda>endpoint.
     bindR (int_entry r [''expected_status''] 200) (\<lambda>expected.
     bindR (int_entry r [''timeout_seconds'', ''rest_timeout''] 30) (\<lambda>timeout.
       Inr [(''kind'', PStr ''rest_request''),
            (''method'', PStr (upper (text_of rt (get_or r [''method''] (PStr ''GET''))))),
            (''endpoint'', endpoint),
            (''credential_ref'', por (get r ''credential_ref'') (get r ''rest_credential_ref'')),
            (''expected_status'', expected), (''timeout_seconds'', timeout),
            (''parser'', por (get r ''parser'') (get r ''rest_parser'')),
            (''rate_limit_bucket'', get r ''rate_limit_bucket'')])))"

definition build_protocol_payload :: "runtime \<Rightarrow> pydict \<Rightarrow> pydict result" where
  "build_protocol_payload rt r =
     bindR (payload_protocol rt r) (\<lambda>p.
       case p of
         ICMP \<Rightarrow> icmp_payload r
       | SNMP \<Rightarrow> snmp_payload r
       | CLI \<Rightarrow> cli_payload rt r
       | REST \<Rightarrow> rest_payload rt r
       | MQTT_STUB \<Rightarrow> Inr [(''kind'', PStr ''mqtt_stub''),
           (''source'', get_or r [''source'', ''topic''] (PStr ''mqtt_stub''))])"

subsection \<open>Cycles and tasks\<close>

record cycle =
  cy_id :: string
  cy_scheduled :: instant
  cy_version :: "string option"
  cy_target :: int

definition build_cycle ::
    "runtime \<Rightarrow> instant \<Rightarrow> string option \<Rightarrow> int \<Rightarrow> string option \<Rightarrow> cycle" where
  "build_cycle rt scheduled version target cid =
     \<lparr>cy_id = (case cid of Some i \<Rightarrow> i
        | None \<Rightarrow> rt_uuid5 rt (''next-gen|poll-cycle|'' @ rt_iso rt scheduled @ ''|'' @ opt version [])),
      cy_scheduled = scheduled, cy_version = version, cy_target = target\<rparr>"

definition sched_protocol :: "runtime \<Rightarrow> pydict \<Rightarrow> polling_protocol result" where
  "sched_protocol rt r =
     protocol_of_text (ValueError ''Production MQTT is out of scope; use MQTT_STUB'')
       (upper (strip (text_of rt (por (get r ''protocol'') (PStr [])))))"

definition sched_source :: "runtime \<Rightarrow> pydict \<Rightarrow> polling_protocol \<Rightarrow> string" where
  "sched_source rt r p =
     (case p of
        SNMP \<Rightarrow> text_of rt (get r ''ip'') @ '':'' @ text_of rt (get_or r [''port'', ''snmp_port''] (PInt 161))
                 @ ''/'' @ text_of rt (get r ''oid'')
      | ICMP \<Rightarrow> text_of rt (get_or r [''ip'', ''ip_address'', ''source''] (PStr []))
      | CLI \<Rightarrow> text_of rt (get r ''ip'') @ '':'' @ text_of rt (get r ''cli_command'')
      | REST \<Rightarrow> text_of rt (get_or r [''endpoint'', ''source''] (PStr []))
      | MQTT_STUB \<Rightarrow> text_of rt (get_or r [''source'', ''topic''] (PStr ''mqtt_stub'')))"

definition hex_value :: "string \<Rightarrow> int" where
  "hex_value s = foldl (\<lambda>n c. 16 * n + (let k = of_char c :: int in if k \<le> 57 then k - 48 else k - 87)) 0 s"

definition partition_key :: "runtime \<Rightarrow> pyval list \<Rightarrow> int" where
  "partition_key rt parts =
     hex_value (take 8 (rt_sha rt (join ''|'' (map (\<lambda>v. text_of rt (por v (PStr []))) parts)))) mod 1024"

definition sched_task_id ::
    "runtime \<Rightarrow> cycle \<Rightarrow> string \<Rightarrow> string \<Rightarrow> polling_protocol \<Rightarrow> string \<Rightarrow> string" where
  "sched_task_id rt c ci m p source =
     rt_uuid5 rt (''next-gen|poll-task|'' @ cy_id c @ ''|'' @ ci @ ''|'' @ m @ ''|'' @
       protocol_value p @ ''|'' @ source)"

definition sched_priority :: "runtime \<Rightarrow> pydict \<Rightarrow> polling_protocol \<Rightarrow> polling_priority result" where
  "sched_priority rt r p =
     (if p = ICMP \<or> upper (text_of rt (get_or r [''metric_id'', ''id''] (PStr []))) = ''PING-CHECK''
      then Inr ICMP_AVAILABILITY
      else bindR (py_int (por (get r ''criticality'') (PInt 0))) (\<lambda>c.
        Inr (if c \<ge> 3 then HIGH_CRITICALITY else NORMAL)))"

record sched_task =
  st_id :: string
  st_cycle :: string
  st_ci :: string
  st_metric :: string
  st_protocol :: polling_protocol
  st_priority :: polling_priority
  st_due :: instant
  st_eligible :: instant
  st_partition :: int
  st_site :: pyval
  st_subnet :: pyval
  st_ip :: pyval
  st_credential :: pyval
  st_endpoint :: pyval
  st_source :: string
  st_payload :: pydict
  st_version :: pyval
  st_kind :: pyval
  st_avail_source :: pyval
  st_internal :: bool

definition make_task ::
    "runtime \<Rightarrow> cycle \<Rightarrow> pydict \<Rightarrow> polling_protocol \<Rightarrow> string \<Rightarrow> string \<Rightarrow> sched_task result" where
  "make_task rt c r p ci m =
     (let source = sched_source rt r p in
      bindR (build_protocol_payload rt
               (put ''source'' (PStr source) (put ''protocol'' (PStr (protocol_value p)) r))) (\<lambda>payload.
      bindR (sched_priority rt r p) (\<lambda>prio.
        Inr \<lparr>st_id = sched_task_id rt c ci m p source, st_cycle = cy_id c, st_ci = ci, st_metric = m,
             st_protocol = p, st_priority = prio, st_due = cy_scheduled c,
             st_eligible = cy_scheduled c,
             st_partition = partition_key rt
               [PStr (protocol_value p), get r ''site_id'', get r ''subnet'', PStr ci],
             st_site = por (get r ''site_id'') (get r ''location_name''),
             st_subnet = get r ''subnet'', st_ip = por (get r ''ip'') (get r ''ip_address''),
             st_credential = por (get r ''credential_ref'') (get r ''cli_credential_ref''),
             st_endpoint = por (get r ''endpoint'')
               (if p = SNMP then PStr (text_of rt (get r ''ip'') @ '':'' @
                                   text_of rt (por (get r ''port'') (PInt 161)))
                else PNone),
             st_source = source,
             st_payload = (if truthy (get r ''internal'') then put ''internal'' (PBool True) payload
                           else payload),
             st_version = por (get r ''metadata_version'')
               (case cy_version c of None \<Rightarrow> PNone | Some v \<Rightarrow> PStr v),
             st_kind = get r ''metric_kind'', st_avail_source = get r ''availability_source'',
             st_internal = truthy (get r ''internal'')\<rparr>)))"

definition rec_ci :: "runtime \<Rightarrow> pydict \<Rightarrow> string" where
  "rec_ci rt r = text_of rt (get_or r [''node_id'', ''ci_id''] (PStr []))"

definition rec_metric :: "runtime \<Rightarrow> pydict \<Rightarrow> string" where
  "rec_metric rt r = text_of rt (get_or r [''metric_id'', ''id''] (PStr []))"

definition rec_ip :: "pydict \<Rightarrow> pyval" where
  "rec_ip r = por (get r ''ip'') (get r ''ip_address'')"

text \<open>The three collections of the loop: tasks, sidecar records by (CI, source), availability keys.\<close>

record sched_state =
  ss_tasks :: "sched_task list"
  ss_sidecars :: "((string \<times> string) \<times> pydict) list"
  ss_available :: "(string \<times> string) list"

definition setdefault :: "'k \<Rightarrow> 'v \<Rightarrow> ('k \<times> 'v) list \<Rightarrow> ('k \<times> 'v) list" where
  "setdefault k v d = (if map_of d k = None then AList.update k v d else d)"

definition schedule_record :: "runtime \<Rightarrow> cycle \<Rightarrow> pydict \<Rightarrow> sched_state \<Rightarrow> sched_state result" where
  "schedule_record rt c r s =
     bindR (sched_protocol rt r) (\<lambda>p.
       let ci = rec_ci rt r; m = rec_metric rt r; key = (ci, sched_source rt r p) in
       if ci = [] \<or> m = []
       then Inl (ValueError ''Scheduler records require node_id/ci_id and metric_id/id'')
       else if p = ICMP \<and> is_icmp_telemetry_metric m (Some r)
       then Inr (if truthy (rec_ip r)
                 then s\<lparr>ss_sidecars := setdefault key (put ''ip'' (rec_ip r) r) (ss_sidecars s)\<rparr>
                 else s)
       else bindR (make_task rt c r p ci m) (\<lambda>t.
         Inr (s\<lparr>ss_tasks := ss_tasks s @ [t],
               ss_available := (if p = ICMP \<and> is_icmp_availability_metric m (Some r)
                                then key # ss_available s else ss_available s)\<rparr>)))"

definition synthetic_record :: "string \<Rightarrow> pydict \<Rightarrow> pydict" where
  "synthetic_record ci r = merge_dict r
     [(''node_id'', PStr ci), (''metric_id'', PStr ''icmp_availability''),
      (''protocol'', PStr (protocol_value ICMP)), (''metric_kind'', PStr ''availability''),
      (''availability_source'', PStr ''ICMP''), (''internal'', PBool True)]"

definition synthesise :: "runtime \<Rightarrow> cycle \<Rightarrow> (string \<times> string) list \<Rightarrow>
    (string \<times> string) \<times> pydict \<Rightarrow> sched_task list \<Rightarrow> sched_task list result" where
  "synthesise rt c av e ts =
     (case e of (key, r) \<Rightarrow>
        if key \<in> set av then Inr ts
        else bindR (make_task rt c (synthetic_record (fst key) r) ICMP (fst key) ''icmp_availability'')
               (\<lambda>t. Inr (ts @ [t])))"

definition sched_order :: "sched_task \<Rightarrow> int \<times> string \<times> string" where
  "sched_order t = (priority_value (st_priority t), protocol_value (st_protocol t), st_metric t)"

definition build_tasks_from_records :: "runtime \<Rightarrow> pydict list \<Rightarrow> cycle \<Rightarrow> sched_task list result" where
  "build_tasks_from_records rt recs c =
     bindR (foldR (schedule_record rt c) recs
              \<lparr>ss_tasks = [], ss_sidecars = [], ss_available = []\<rparr>) (\<lambda>s.
     bindR (foldR (synthesise rt c (ss_available s)) (ss_sidecars s) (ss_tasks s)) (\<lambda>ts.
       Inr (sort_key sched_order ts)))"

definition group_tasks_by_protocol :: "sched_task list \<Rightarrow> (string \<times> sched_task list) list" where
  "group_tasks_by_protocol ts =
     fold (\<lambda>t g. AList.update (protocol_value (st_protocol t))
                   (dict_get g (protocol_value (st_protocol t)) [] @ [t]) g) ts []"

definition has_stale_metadata :: "runtime \<Rightarrow> pydict \<Rightarrow> string option \<Rightarrow> bool" where
  "has_stale_metadata rt r current =
     (truthy (get r ''metadata_version'') \<and>
      (case current of None \<Rightarrow> False
       | Some v \<Rightarrow> v \<noteq> [] \<and> text_of rt (get r ''metadata_version'') \<noteq> v))"

text \<open>A value bound to a nullable text column.\<close>

definition text_column :: "runtime \<Rightarrow> pyval \<Rightarrow> string option" where
  "text_column rt v = (if v = PNone then None else Some (text_of rt v))"

definition queue_task :: "runtime \<Rightarrow> sched_task \<Rightarrow> new_task" where
  "queue_task rt t = \<lparr>nt_id = st_id t, nt_cycle = st_cycle t, nt_ci = st_ci t, nt_metric = st_metric t,
     nt_protocol = protocol_value (st_protocol t), nt_priority = Some (priority_value (st_priority t)),
     nt_due = st_due t, nt_eligible = Some (st_eligible t), nt_partition = Some (st_partition t),
     nt_site = text_column rt (st_site t), nt_subnet = text_column rt (st_subnet t),
     nt_ip = text_column rt (st_ip t), nt_credential = text_column rt (st_credential t),
     nt_endpoint = text_column rt (st_endpoint t), nt_source = Some (st_source t),
     nt_payload = Some (st_payload t), nt_version = text_column rt (st_version t)\<rparr>"

definition enqueue_cycle_tasks ::
    "runtime \<Rightarrow> instant \<Rightarrow> cycle \<Rightarrow> sched_task list \<Rightarrow> queue_db \<Rightarrow> queue_db result" where
  "enqueue_cycle_tasks rt now c ts db =
     enqueue_tasks now (map (queue_task rt) ts)
       (create_cycle now (cy_id c) (cy_scheduled c) (cy_version c) (int (length ts)) ''open'' db)"

subsection \<open>What a record and a task are about\<close>

definition is_sidecar :: "runtime \<Rightarrow> pydict \<Rightarrow> bool" where
  "is_sidecar rt r =
     (sched_protocol rt r = Inr ICMP \<and> is_icmp_telemetry_metric (rec_metric rt r) (Some r))"

definition wants_icmp :: "runtime \<Rightarrow> pydict \<Rightarrow> bool" where
  "wants_icmp rt r = (is_sidecar rt r \<and> truthy (rec_ip r))"

definition asks_icmp :: "runtime \<Rightarrow> pydict \<Rightarrow> bool" where
  "asks_icmp rt r =
     (\<not> is_sidecar rt r \<and> sched_protocol rt r = Inr ICMP \<and>
      is_icmp_availability_metric (rec_metric rt r) (Some r))"

definition icmp_key :: "runtime \<Rightarrow> pydict \<Rightarrow> string \<times> string" where
  "icmp_key rt r = (rec_ci rt r, sched_source rt r ICMP)"

definition rec_ident :: "runtime \<Rightarrow> pydict \<Rightarrow> string \<times> string \<times> polling_protocol result" where
  "rec_ident rt r = (rec_ci rt r, rec_metric rt r, sched_protocol rt r)"

definition task_ident :: "sched_task \<Rightarrow> string \<times> string \<times> polling_protocol result" where
  "task_ident t = (st_ci t, st_metric t, Inr (st_protocol t))"

definition task_target :: "sched_task \<Rightarrow> string \<times> string" where
  "task_target t = (st_ci t, st_source t)"

definition synthetic_task :: "sched_task \<Rightarrow> bool" where
  "synthetic_task t = (st_metric t = ''icmp_availability'' \<and> st_protocol t = ICMP \<and>
     st_priority t = ICMP_AVAILABILITY \<and> st_internal t)"

lemma make_task_fields:
  assumes "make_task rt c r p ci m = Inr t"
  shows "st_ci t = ci" "st_metric t = m" "st_protocol t = p" "st_source t = sched_source rt r p"
    "st_internal t = truthy (get r ''internal'')" "sched_priority rt r p = Inr (st_priority t)"
    "st_cycle t = cy_id c" "st_id t = sched_task_id rt c ci m p (sched_source rt r p)"
  using assms by (auto simp: make_task_def Let_def bindR_eq_Inr)

lemma get_synthetic:
  "get (synthetic_record ci r) ''ip'' = get r ''ip''"
  "get (synthetic_record ci r) ''ip_address'' = get r ''ip_address''"
  "get (synthetic_record ci r) ''source'' = get r ''source''"
  "get (synthetic_record ci r) ''internal'' = PBool True"
  by (simp_all add: synthetic_record_def get_put del: AList.update.simps)

lemma synthetic_source: "sched_source rt (synthetic_record ci r) ICMP = sched_source rt r ICMP"
  by (simp add: sched_source_def get_synthetic)

lemma source_with_ip:
  assumes "truthy (rec_ip r)"
  shows "sched_source rt (put ''ip'' (rec_ip r) r) ICMP = sched_source rt r ICMP"
  using assms
  by (cases "truthy (get r ''ip'')")
    (simp_all add: sched_source_def rec_ip_def get_put del: AList.update.simps)

lemma keys_setdefault: "fst ` set (setdefault k v d) = insert k (fst ` set d)"
  by (auto simp: setdefault_def map_of_eq_None_iff dom_update)

lemma distinct_setdefault: "distinct (map fst d) \<Longrightarrow> distinct (map fst (setdefault k v d))"
  by (simp add: setdefault_def distinct_update)

lemma set_setdefault: "x \<in> set (setdefault k v d) \<Longrightarrow> x \<in> set d \<or> x = (k, v)"
  by (auto simp: setdefault_def split: if_splits dest: set_dict_update)

subsection \<open>The loop over the records\<close>

text \<open>What the loop has collected after the records \<open>rs\<close>.\<close>

definition collected :: "runtime \<Rightarrow> pydict list \<Rightarrow> sched_state \<Rightarrow> bool" where
  "collected rt rs s \<longleftrightarrow>
     map task_ident (ss_tasks s) = map (rec_ident rt) (filter (\<lambda>r. \<not> is_sidecar rt r) rs) \<and>
     distinct (map fst (ss_sidecars s)) \<and>
     fst ` set (ss_sidecars s) = icmp_key rt ` {r \<in> set rs. wants_icmp rt r} \<and>
     set (ss_available s) = icmp_key rt ` {r \<in> set rs. asks_icmp rt r} \<and>
     (\<forall>e \<in> set (ss_sidecars s). sched_source rt (snd e) ICMP = snd (fst e))"

lemma schedule_record_cases:
  assumes "schedule_record rt c r s = Inr s'"
  shows "is_sidecar rt r \<and> \<not> truthy (rec_ip r) \<and> s' = s \<or>
    wants_icmp rt r \<and> s' = s\<lparr>ss_sidecars :=
        setdefault (icmp_key rt r) (put ''ip'' (rec_ip r) r) (ss_sidecars s)\<rparr> \<or>
    \<not> is_sidecar rt r \<and> (\<exists>t. task_ident t = rec_ident rt r \<and>
      s' = s\<lparr>ss_tasks := ss_tasks s @ [t],
             ss_available := (if asks_icmp rt r then icmp_key rt r # ss_available s
                              else ss_available s)\<rparr>)"
proof -
  obtain p where p: "sched_protocol rt r = Inr p"
    using assms by (auto simp: schedule_record_def bindR_eq_Inr)
  show ?thesis
  proof (cases "is_sidecar rt r")
    case True
    then have "p = ICMP" "is_icmp_telemetry_metric (rec_metric rt r) (Some r)"
      using p by (simp_all add: is_sidecar_def)
    with assms p True show ?thesis
      by (simp add: schedule_record_def Let_def wants_icmp_def icmp_key_def split: if_splits)
  next
    case False
    then have no: "\<not> (p = ICMP \<and> is_icmp_telemetry_metric (rec_metric rt r) (Some r))"
      using p by (simp add: is_sidecar_def)
    then obtain t where t: "make_task rt c r p (rec_ci rt r) (rec_metric rt r) = Inr t"
      and s': "s' = s\<lparr>ss_tasks := ss_tasks s @ [t],
        ss_available := (if p = ICMP \<and> is_icmp_availability_metric (rec_metric rt r) (Some r)
          then (rec_ci rt r, sched_source rt r p) # ss_available s else ss_available s)\<rparr>"
      using assms p by (auto simp: schedule_record_def Let_def bindR_eq_Inr split: if_splits)
    have "task_ident t = rec_ident rt r"
      using make_task_fields [OF t] p by (simp add: task_ident_def rec_ident_def)
    moreover have "p = ICMP \<and> is_icmp_availability_metric (rec_metric rt r) (Some r) \<longleftrightarrow> asks_icmp rt r"
      using p False by (auto simp: asks_icmp_def)
    moreover have "asks_icmp rt r \<Longrightarrow> (rec_ci rt r, sched_source rt r p) = icmp_key rt r"
      using p by (simp add: asks_icmp_def icmp_key_def)
    ultimately show ?thesis using False s' by auto
  qed
qed

lemma schedule_record_collected:
  assumes "collected rt rs s" "schedule_record rt c r s = Inr s'"
  shows "collected rt (rs @ [r]) s'"
  using schedule_record_cases [OF assms(2)]
proof (elim disjE conjE exE)
  assume "is_sidecar rt r" "\<not> truthy (rec_ip r)" "s' = s"
  then show ?thesis
    using assms(1) by (auto simp: collected_def wants_icmp_def asks_icmp_def)
next
  let ?sc = "setdefault (icmp_key rt r) (put ''ip'' (rec_ip r) r) (ss_sidecars s)"
  assume w: "wants_icmp rt r" and s': "s' = s\<lparr>ss_sidecars := ?sc\<rparr>"
  then have side: "is_sidecar rt r" "truthy (rec_ip r)" by (simp_all add: wants_icmp_def)
  have "\<forall>e \<in> set ?sc. sched_source rt (snd e) ICMP = snd (fst e)"
    using assms(1) source_with_ip [OF side(2)]
    by (auto simp: collected_def icmp_key_def dest!: set_setdefault)
  moreover have "fst ` set ?sc = icmp_key rt ` {q \<in> set (rs @ [r]). wants_icmp rt q}"
    using assms(1) w by (auto simp: collected_def keys_setdefault)
  moreover have "distinct (map fst ?sc)"
    using assms(1) by (simp add: collected_def distinct_setdefault)
  moreover have "{q \<in> set (rs @ [r]). asks_icmp rt q} = {q \<in> set rs. asks_icmp rt q}"
    using side(1) by (auto simp: asks_icmp_def)
  ultimately show ?thesis
    using assms(1) side(1) s' by (simp add: collected_def)
next
  fix t
  assume "\<not> is_sidecar rt r" "task_ident t = rec_ident rt r"
    "s' = s\<lparr>ss_tasks := ss_tasks s @ [t], ss_available :=
       (if asks_icmp rt r then icmp_key rt r # ss_available s else ss_available s)\<rparr>"
  then show ?thesis
    using assms(1) by (auto simp: collected_def wants_icmp_def)
qed

lemma schedule_records_collected:
  "foldR (schedule_record rt c) recs \<lparr>ss_tasks = [], ss_sidecars = [], ss_available = []\<rparr> = Inr s
     \<Longrightarrow> collected rt recs s"
proof (induction recs arbitrary: s rule: rev_induct)
  case Nil
  then show ?case by (auto simp: collected_def)
next
  case (snoc r rs)
  then show ?case
    by (auto simp: foldR_append bindR_eq_Inr intro: schedule_record_collected)
qed

lemma synthesise_pair:
  "synthesise rt c av (key, r) ts =
     (if key \<in> set av then Inr ts
      else bindR (make_task rt c (synthetic_record (fst key) r) ICMP (fst key) ''icmp_availability'')
             (\<lambda>t. Inr (ts @ [t])))"
  by (simp add: synthesise_def)

lemma synthesise_all:
  assumes "foldR (synthesise rt c av) es ts = Inr ts'"
    and "\<forall>e \<in> set es. sched_source rt (snd e) ICMP = snd (fst e)"
  shows "\<exists>syn. ts' = ts @ syn \<and> map task_target syn = filter (\<lambda>k. k \<notin> set av) (map fst es) \<and>
    list_all synthetic_task syn"
  using assms
proof (induction es arbitrary: ts)
  case Nil
  then show ?case by simp
next
  case (Cons e es)
  obtain key r where e: "e = (key, r)" by fastforce
  show ?case
  proof (cases "key \<in> set av")
    case True
    with Cons e show ?thesis by (simp add: synthesise_pair)
  next
    case False
    with Cons.prems(1) e obtain t where
      t: "make_task rt c (synthetic_record (fst key) r) ICMP (fst key) ''icmp_availability'' = Inr t"
      and rest: "foldR (synthesise rt c av) es (ts @ [t]) = Inr ts'"
      by (auto simp: synthesise_pair bindR_eq_Inr)
    obtain syn where syn: "ts' = (ts @ [t]) @ syn"
      "map task_target syn = filter (\<lambda>k. k \<notin> set av) (map fst es)" "list_all synthetic_task syn"
      using Cons.IH [OF rest] Cons.prems(2) by auto
    have "synthetic_task t" "task_target t = key"
      using make_task_fields [OF t] Cons.prems(2) e
      by (auto simp: synthetic_task_def task_target_def synthetic_source get_synthetic
          sched_priority_def)
    with syn False e show ?thesis
      by (intro exI [of _ "t # syn"]) simp
  qed
qed

subsection \<open>Enqueuing a cycle\<close>

text \<open>A row whose task id is present is passed over.\<close>

lemma insert_task_keeps_id:
  "insert_task r db = Inr db' \<Longrightarrow>
     tq_id ` set (tasks db') = insert (tq_id r) (tq_id ` set (tasks db))"
  by (auto simp: insert_task_def insert_absent_def split: if_splits)

lemma enqueue_tasks_ids:
  "enqueue_tasks now ts db = Inr db' \<Longrightarrow>
     tq_id ` set (tasks db') = nt_id ` set ts \<union> tq_id ` set (tasks db)"
proof (induction ts arbitrary: db)
  case Nil
  then show ?case by (simp add: enqueue_tasks_def)
next
  case (Cons t ts)
  then obtain d where "insert_task (task_row_of now t) db = Inr d" "enqueue_tasks now ts d = Inr db'"
    by (auto simp: enqueue_tasks_def bindR_eq_Inr)
  with Cons.IH [of d] insert_task_keeps_id [of "task_row_of now t" db d] show ?case
    by (auto simp: task_row_of_def)
qed

lemma enqueue_tasks_known:
  "nt_id ` set ts \<subseteq> tq_id ` set (tasks db) \<Longrightarrow> enqueue_tasks now ts db = Inr db"
  by (induction ts) (simp_all add: enqueue_tasks_def insert_task_def task_row_of_def)

lemma create_cycle_tasks: "tasks (create_cycle now cid sch cfg n st db) = tasks db"
  by (simp add: create_cycle_def Let_def)

lemma group_tasks_append:
  "group_tasks_by_protocol (ts @ [t]) =
     AList.update (protocol_value (st_protocol t))
       (dict_get (group_tasks_by_protocol ts) (protocol_value (st_protocol t)) [] @ [t])
       (group_tasks_by_protocol ts)"
  by (simp add: group_tasks_by_protocol_def)

subsection \<open>Properties\<close>

text \<open>
  C8: the tasks built for a cycle are exactly one task per record that is not ICMP telemetry, in
  its protocol, and one internal ICMP availability task of the highest priority for each CI and
  address that has a telemetry record with an address and no availability record; they come out
  ordered by priority, protocol and metric.
\<close>

theorem scheduled_tasks:
  assumes "build_tasks_from_records rt recs c = Inr ts"
  shows "sorted (map sched_order ts) \<and>
    (\<exists>polled syn. mset ts = mset (polled @ syn) \<and>
       map task_ident polled = map (rec_ident rt) (filter (\<lambda>r. \<not> is_sidecar rt r) recs) \<and>
       list_all synthetic_task syn \<and> distinct (map task_target syn) \<and>
       set (map task_target syn) =
         icmp_key rt ` {r \<in> set recs. wants_icmp rt r} -
         icmp_key rt ` {r \<in> set recs. asks_icmp rt r})"
proof -
  obtain s us where s: "foldR (schedule_record rt c) recs
        \<lparr>ss_tasks = [], ss_sidecars = [], ss_available = []\<rparr> = Inr s"
    and us: "foldR (synthesise rt c (ss_available s)) (ss_sidecars s) (ss_tasks s) = Inr us"
    and ts: "ts = sort_key sched_order us"
    using assms by (auto simp: build_tasks_from_records_def bindR_eq_Inr)
  have col: "collected rt recs s" by (rule schedule_records_collected [OF s])
  then obtain syn where syn: "us = ss_tasks s @ syn"
    "map task_target syn = filter (\<lambda>k. k \<notin> set (ss_available s)) (map fst (ss_sidecars s))"
    "list_all synthetic_task syn"
    using synthesise_all [OF us] by (auto simp: collected_def)
  have polled: "map task_ident (ss_tasks s) = map (rec_ident rt) (filter (\<lambda>r. \<not> is_sidecar rt r) recs)"
    and dist: "distinct (map fst (ss_sidecars s))"
    and keys: "set (map fst (ss_sidecars s)) = icmp_key rt ` {r \<in> set recs. wants_icmp rt r}"
      "set (ss_available s) = icmp_key rt ` {r \<in> set recs. asks_icmp rt r}"
    using col by (simp_all add: collected_def)
  have "distinct (map task_target syn)"
    using dist unfolding syn(2) by simp
  moreover have "set (map task_target syn) = icmp_key rt ` {r \<in> set recs. wants_icmp rt r} -
      icmp_key rt ` {r \<in> set recs. asks_icmp rt r}"
    unfolding syn(2) keys [symmetric] by auto
  moreover have "mset ts = mset (ss_tasks s @ syn)" "sorted (map sched_order ts)"
    by (simp_all add: ts syn(1))
  ultimately show ?thesis
    using polled syn(3) by blast
qed

definition demo_runtime :: runtime where
  "demo_runtime = \<lparr>rt_fmt = (\<lambda>_. []), rt_sha = (\<lambda>_. ''00000010''), rt_uuid5 = (\<lambda>s. s),
     rt_iso = (\<lambda>_. ''t''),
     rt_parse_iso = (\<lambda>_. None)\<rparr>"

definition demo_records :: "pydict list" where
  "demo_records =
    [[(''protocol'', PStr ''snmp''), (''node_id'', PStr ''n1''), (''metric_id'', PStr ''cpu''),
      (''ip'', PStr ''10.0.0.1''), (''oid'', PStr ''1.3'')],
     [(''protocol'', PStr ''icmp''), (''node_id'', PStr ''n1''),
      (''metric_id'', PStr ''icmp_latency_ms''), (''ip'', PStr ''10.0.0.1'')]]"

definition demo_cycle :: cycle where
  "demo_cycle = build_cycle demo_runtime 0 None 900 (Some ''c'')"

definition demo_tasks :: "sched_task list" where
  "demo_tasks = (case build_tasks_from_records demo_runtime demo_records demo_cycle of
     Inr ts \<Rightarrow> ts | Inl _ \<Rightarrow> [])"

lemma demo_built: "build_tasks_from_records demo_runtime demo_records demo_cycle = Inr demo_tasks"
proof -
  have "is_ok (build_tasks_from_records demo_runtime demo_records demo_cycle)"
    by code_simp
  then show ?thesis
    by (auto simp: demo_tasks_def is_ok_def split: sum.splits)
qed

theorem scheduled_tasks_witness:
  "sorted (map sched_order demo_tasks) \<and> map st_metric demo_tasks = [''icmp_availability'', ''cpu'']"
proof -
  have "map st_metric demo_tasks = [''icmp_availability'', ''cpu'']"
    by code_simp
  with scheduled_tasks [OF demo_built] show ?thesis by blast
qed

text \<open>
  scheduling a cycle is repeatable: enqueuing the tasks of a cycle again, at any later time
  and whatever happened to the rows in between as long as none was removed, adds no task and
  changes no task row.
\<close>

theorem enqueue_cycle_repeatable:
  assumes "enqueue_cycle_tasks rt now c ts db = Inr db1"
    and "tq_id ` set (tasks db1) \<subseteq> tq_id ` set (tasks db2)"
  shows "\<exists>db3. enqueue_cycle_tasks rt now' c ts db2 = Inr db3 \<and> tasks db3 = tasks db2"
proof -
  have "nt_id ` set (map (queue_task rt) ts) \<subseteq> tq_id ` set (tasks db1)"
    using enqueue_tasks_ids assms(1) unfolding enqueue_cycle_tasks_def by blast
  with assms(2) show ?thesis
    by (simp add: enqueue_cycle_tasks_def enqueue_tasks_known create_cycle_tasks)
qed

definition demo_queue :: queue_db where
  "demo_queue = (case enqueue_cycle_tasks demo_runtime 5 demo_cycle demo_tasks
       \<lparr>cycles = [], tasks = [], results = []\<rparr> of Inr db \<Rightarrow> db | Inl _ \<Rightarrow> \<lparr>cycles = [], tasks = [], results = []\<rparr>)"

theorem enqueue_cycle_repeatable_witness:
  "(\<exists>db3. enqueue_cycle_tasks demo_runtime 9 demo_cycle demo_tasks demo_queue = Inr db3 \<and>
      tasks db3 = tasks demo_queue) \<and> length (tasks demo_queue) = 2"
proof -
  have ok: "is_ok (enqueue_cycle_tasks demo_runtime 5 demo_cycle demo_tasks
      \<lparr>cycles = [], tasks = [], results = []\<rparr>)" and len: "length (tasks demo_queue) = 2"
    by code_simp+
  from ok have "enqueue_cycle_tasks demo_runtime 5 demo_cycle demo_tasks
      \<lparr>cycles = [], tasks = [], results = []\<rparr> = Inr demo_queue"
    by (auto simp: demo_queue_def is_ok_def split: sum.splits)
  from enqueue_cycle_repeatable [OF this subset_refl, of 9] len show ?thesis by blast
qed

text \<open>
  a scheduled task has the highest priority exactly when it is an ICMP task or its metric is
  \<open>PING-CHECK\<close> in any letter case, otherwise the priority is high exactly from criticality three
  on; grouping splits a batch by protocol without losing or reordering a task.
\<close>

theorem schedule_priority:
  assumes "make_task rt c r p (rec_ci rt r) (rec_metric rt r) = Inr t"
  shows "(st_priority t = ICMP_AVAILABILITY \<longleftrightarrow> st_protocol t = ICMP \<or> upper (st_metric t) = ''PING-CHECK'') \<and>
    (st_priority t = HIGH_CRITICALITY \<longleftrightarrow>
       st_priority t \<noteq> ICMP_AVAILABILITY \<and>
       (\<exists>k. py_int (por (get r ''criticality'') (PInt 0)) = Inr k \<and> 3 \<le> k)) \<and>
    dict_get (group_tasks_by_protocol ts) (protocol_value q) [] = filter (\<lambda>u. st_protocol u = q) ts"
proof (intro conjI)
  note f = make_task_fields [OF assms]
  show "st_priority t = ICMP_AVAILABILITY \<longleftrightarrow> st_protocol t = ICMP \<or> upper (st_metric t) = ''PING-CHECK''"
    "st_priority t = HIGH_CRITICALITY \<longleftrightarrow> st_priority t \<noteq> ICMP_AVAILABILITY \<and>
       (\<exists>k. py_int (por (get r ''criticality'') (PInt 0)) = Inr k \<and> 3 \<le> k)"
    using f(2,3,6)
    by (auto simp: sched_priority_def rec_metric_def bindR_eq_Inr split: if_splits)
  show "dict_get (group_tasks_by_protocol ts) (protocol_value q) [] = filter (\<lambda>u. st_protocol u = q) ts"
  proof (induction ts rule: rev_induct)
    case Nil
    then show ?case by (simp add: group_tasks_by_protocol_def)
  next
    case (snoc u ts)
    have "protocol_value q = protocol_value (st_protocol u) \<longleftrightarrow> st_protocol u = q"
      using protocol_enum.val_inj by metis
    with snoc show ?case by (auto simp: group_tasks_append dict_get_update)
  qed
qed

theorem schedule_priority_witness:
  "\<exists>t. make_task demo_runtime demo_cycle (hd demo_records) SNMP ''n1'' ''cpu'' = Inr t \<and>
     st_priority t \<noteq> ICMP_AVAILABILITY"
proof -
  have "is_ok (make_task demo_runtime demo_cycle (hd demo_records) SNMP ''n1'' ''cpu'')"
    and ids: "rec_ci demo_runtime (hd demo_records) = ''n1''"
      "rec_metric demo_runtime (hd demo_records) = ''cpu''" "upper ''cpu'' \<noteq> ''PING-CHECK''"
    by code_simp+
  then obtain t where t: "make_task demo_runtime demo_cycle (hd demo_records) SNMP ''n1'' ''cpu'' = Inr t"
    by (auto simp: is_ok_def split: sum.splits)
  with schedule_priority [of demo_runtime demo_cycle "hd demo_records" SNMP t] ids
    make_task_fields(2,3) [OF t]
  show ?thesis by simp
qed

end
