(* ===== verification/Safety_Limits.thy ===== *)
theory Safety_Limits
  imports Py_Values
begin

section \<open>In-process safety counters (polling/safety_limits.py)\<close>

text \<open>
  A worker counts the polls in flight per target dimension (CI, address, site, subnet,
  credential, protocol, endpoint, source) and refuses a task when one of its counters is at its
  limit. The counters are refined against the list of tasks that hold a slot.
\<close>

record safety_config =
  per_ci :: "int option"
  per_ip :: "int option"
  per_site :: "int option"
  per_subnet :: "int option"
  per_credential :: "int option"
  per_protocol :: "int option"
  per_endpoint :: "int option"
  per_source :: "int option"

definition default_safety_config :: safety_config where
  "default_safety_config = \<lparr>per_ci = Some 1, per_ip = Some 1, per_site = None, per_subnet = None,
     per_credential = None, per_protocol = Some 8, per_endpoint = None, per_source = None\<rparr>"

record safety_decision =
  sd_allowed :: bool
  sd_reason :: "string option"
  sd_error_code :: "string option"
  sd_dimension :: "string option"
  sd_key :: "string option"
  sd_current :: int
  sd_limit :: "int option"

definition allowed_decision :: safety_decision where
  "allowed_decision = \<lparr>sd_allowed = True, sd_reason = None, sd_error_code = None,
     sd_dimension = None, sd_key = None, sd_current = 0, sd_limit = None\<rparr>"

text \<open>A dimension with the attribute of the configuration that limits it.\<close>

definition dimensions :: "(string \<times> (safety_config \<Rightarrow> int option)) list" where
  "dimensions = [(''ci_id'', per_ci), (''ip_address'', per_ip), (''site_id'', per_site),
     (''subnet'', per_subnet), (''credential_ref'', per_credential), (''protocol'', per_protocol),
     (''endpoint'', per_endpoint), (''source'', per_source)]"

text \<open>
  The dimensions present on a task; a dimension occurs once in \<open>dimensions\<close>, so each key of the
  dictionary is written once. \<open>fmt\<close> is the text of values that are not plain (\<open>py_str\<close>).
\<close>

definition safety_keys :: "(pyval \<Rightarrow> string) \<Rightarrow> pydict \<Rightarrow> (string \<times> string) list" where
  "safety_keys fmt task =
     map (\<lambda>(dm, _). (dm, py_str fmt (get task dm)))
       (filter (\<lambda>(dm, _). get task dm \<noteq> PNone \<and> get task dm \<noteq> PStr []) dimensions)"

type_synonym active = "((string \<times> string) \<times> int) list"

definition limit_for :: "safety_config \<Rightarrow> (safety_config \<Rightarrow> int option) \<Rightarrow> int option" where
  "limit_for c field =
     (case field c of None \<Rightarrow> None | Some l \<Rightarrow> if l > 0 then Some l else None)"

definition denial :: "string \<Rightarrow> string \<Rightarrow> int \<Rightarrow> int \<Rightarrow> safety_decision" where
  "denial dm key current cap = \<lparr>sd_allowed = False,
     sd_reason = Some (''Safety limit reached for '' @ dm @ ''='' @ key),
     sd_error_code = Some ''safety_limit'', sd_dimension = Some dm, sd_key = Some key,
     sd_current = current, sd_limit = Some cap\<rparr>"

fun first_denial :: "safety_config \<Rightarrow> active \<Rightarrow> (string \<times> string) list \<Rightarrow>
    (string \<times> (safety_config \<Rightarrow> int option)) list \<Rightarrow> safety_decision option" where
  "first_denial c act keys [] = None"
| "first_denial c act keys ((dm, field) # ds) =
     (case (limit_for c field, map_of keys dm) of
        (Some cap, Some key) \<Rightarrow>
          let current = dict_get act (dm, key) 0
          in if current \<ge> cap then Some (denial dm key current cap)
             else first_denial c act keys ds
      | _ \<Rightarrow> first_denial c act keys ds)"

definition count_up :: "string \<times> string \<Rightarrow> active \<Rightarrow> active" where
  "count_up k act = AList.update k (dict_get act k 0 + 1) act"

definition count_down :: "string \<times> string \<Rightarrow> active \<Rightarrow> active" where
  "count_down k act =
     (let current = dict_get act k 0
      in if current \<le> 1 then AList.delete k act else AList.update k (current - 1) act)"

definition acquire :: "(pyval \<Rightarrow> string) \<Rightarrow> safety_config \<Rightarrow> pydict \<Rightarrow> active \<Rightarrow>
    safety_decision \<times> active" where
  "acquire fmt c task act =
     (let keys = safety_keys fmt task
      in case first_denial c act keys dimensions of
           Some d \<Rightarrow> (d, act)
         | None \<Rightarrow> (allowed_decision, fold count_up keys act))"

definition release :: "(pyval \<Rightarrow> string) \<Rightarrow> pydict \<Rightarrow> active \<Rightarrow> active" where
  "release fmt task act = fold count_down (safety_keys fmt task) act"

subsection \<open>Counters against held tasks\<close>

text \<open>
  The abstract state: the tasks that hold a slot. \<open>uses\<close> counts those on one target.
\<close>

definition uses :: "(pyval \<Rightarrow> string) \<Rightarrow> pydict list \<Rightarrow> string \<times> string \<Rightarrow> int" where
  "uses fmt held k = int (length (filter (\<lambda>t. k \<in> set (safety_keys fmt t)) held))"

definition counts :: "(pyval \<Rightarrow> string) \<Rightarrow> pydict list \<Rightarrow> active \<Rightarrow> bool" where
  "counts fmt held act \<longleftrightarrow> (\<forall>k. dict_get act k 0 = uses fmt held k)"

lemma distinct_dimensions: "distinct (map fst dimensions)"
  by (simp add: dimensions_def)

lemma distinct_safety_keys: "distinct (map fst (safety_keys fmt t))"
proof -
  have "map fst (safety_keys fmt t) = map fst (filter (\<lambda>(dm, _).
      get t dm \<noteq> PNone \<and> get t dm \<noteq> PStr []) dimensions)"
    by (simp add: safety_keys_def case_prod_beta)
  then show ?thesis by (simp add: distinct_map_filter [OF distinct_dimensions])
qed

lemma dict_get_count_up:
  "dict_get (count_up k act) k' 0 = dict_get act k' 0 + (if k' = k then 1 else 0)"
  by (simp add: count_up_def dict_get_update)

lemma dict_get_count_down:
  "dict_get act k 0 \<ge> 0 \<Longrightarrow>
     dict_get (count_down k act) k' 0 = (if k' = k then max 0 (dict_get act k 0 - 1) else dict_get act k' 0)"
  by (simp add: count_down_def Let_def dict_get_update dict_get_delete)

lemma dict_get_fold_up:
  "distinct ks \<Longrightarrow>
     dict_get (fold count_up ks act) k 0 = dict_get act k 0 + (if k \<in> set ks then 1 else 0)"
  by (induction ks arbitrary: act) (auto simp: dict_get_count_up)

lemma dict_get_fold_down:
  "distinct ks \<Longrightarrow> (\<And>k. 0 \<le> dict_get act k 0) \<Longrightarrow>
     dict_get (fold count_down ks act) k 0 =
       (if k \<in> set ks then max 0 (dict_get act k 0 - 1) else dict_get act k 0)"
proof (induction ks arbitrary: act)
  case Nil
  then show ?case by simp
next
  case (Cons j ks)
  have "0 \<le> dict_get (count_down j act) i 0" for i
    using Cons.prems(2) by (simp add: dict_get_count_down)
  with Cons show ?case by (auto simp: dict_get_count_down)
qed

lemma distinct_keys: "distinct (safety_keys fmt t)"
  using distinct_safety_keys [of fmt t] by (simp add: distinct_map)

lemma uses_Cons: "uses fmt (t # held) k = uses fmt held k + (if k \<in> set (safety_keys fmt t) then 1 else 0)"
  by (simp add: uses_def)

lemma uses_remove1:
  "t \<in> set held \<Longrightarrow>
     uses fmt (remove1 t held) k = uses fmt held k - (if k \<in> set (safety_keys fmt t) then 1 else 0)"
  by (induction held) (auto simp: uses_Cons)

lemma uses_pos: "t \<in> set held \<Longrightarrow> k \<in> set (safety_keys fmt t) \<Longrightarrow> 1 \<le> uses fmt held k"
  using uses_remove1 [of t held fmt k] by (simp add: uses_def) 

lemma counts_acquire:
  "counts fmt held act \<Longrightarrow>
     counts fmt (t # held) (fold count_up (safety_keys fmt t) act)"
  by (simp add: counts_def uses_Cons dict_get_fold_up distinct_keys)

lemma counts_release:
  assumes "counts fmt held act" "t \<in> set held"
  shows "counts fmt (remove1 t held) (release fmt t act)"
proof -
  have nonneg: "0 \<le> dict_get act k 0" for k
    using assms(1) unfolding counts_def uses_def by (metis of_nat_0_le_iff)
  have "max 0 (uses fmt held k - 1) = uses fmt held k - 1" if "k \<in> set (safety_keys fmt t)" for k
    using uses_pos [OF assms(2) that] by simp
  with nonneg show ?thesis
    using assms
    by (simp add: counts_def release_def dict_get_fold_down distinct_keys uses_remove1)
qed

text \<open>The limits, stated over the held tasks.\<close>

definition at_limit :: "(pyval \<Rightarrow> string) \<Rightarrow> safety_config \<Rightarrow> pydict list \<Rightarrow> pydict \<Rightarrow> bool" where
  "at_limit fmt c held t \<longleftrightarrow>
     (\<exists>(dm, field) \<in> set dimensions. \<exists>cap key. limit_for c field = Some cap \<and>
        (dm, key) \<in> set (safety_keys fmt t) \<and> cap \<le> uses fmt held (dm, key))"

definition within_limits :: "(pyval \<Rightarrow> string) \<Rightarrow> safety_config \<Rightarrow> pydict list \<Rightarrow> bool" where
  "within_limits fmt c held \<longleftrightarrow>
     (\<forall>(dm, field) \<in> set dimensions. \<forall>cap key.
        limit_for c field = Some cap \<longrightarrow> uses fmt held (dm, key) \<le> cap)"

lemma first_denial_None:
  "first_denial c act keys ds = None \<longleftrightarrow>
     (\<forall>(dm, field) \<in> set ds. \<forall>cap key. limit_for c field = Some cap \<longrightarrow>
        map_of keys dm = Some key \<longrightarrow> dict_get act (dm, key) 0 < cap)"
  by (induction ds) (auto simp: Let_def not_le split: option.splits if_splits)

lemma denied_iff_at_limit:
  assumes "counts fmt held act"
  shows "first_denial c act (safety_keys fmt t) dimensions \<noteq> None \<longleftrightarrow> at_limit fmt c held t"
proof -
  have key: "map_of (safety_keys fmt t) dm = Some key \<longleftrightarrow> (dm, key) \<in> set (safety_keys fmt t)" for dm key
    by (simp add: map_of_eq_Some_iff distinct_safety_keys)
  show ?thesis
    unfolding first_denial_None at_limit_def key assms [unfolded counts_def, rule_format]
    by (force simp: not_less)
qed

lemma first_denial_shape:
  "first_denial c act keys ds = Some d \<Longrightarrow> \<not> sd_allowed d \<and> sd_error_code d = Some ''safety_limit''"
  by (induction ds) (auto simp: Let_def denial_def split: option.splits if_splits)

text \<open>
  The two operations as a worker runs them: a task is released only after it was admitted.
\<close>

inductive limiter_run ::
    "(pyval \<Rightarrow> string) \<Rightarrow> safety_config \<Rightarrow> pydict list \<Rightarrow> active \<Rightarrow> bool"
  for fmt c where
  idle: "limiter_run fmt c [] []"
| admit: "limiter_run fmt c held act \<Longrightarrow> acquire fmt c t act = (d, act') \<Longrightarrow> sd_allowed d \<Longrightarrow>
    limiter_run fmt c (t # held) act'"
| refuse: "limiter_run fmt c held act \<Longrightarrow> acquire fmt c t act = (d, act') \<Longrightarrow> \<not> sd_allowed d \<Longrightarrow>
    limiter_run fmt c held act'"
| finish: "limiter_run fmt c held act \<Longrightarrow> t \<in> set held \<Longrightarrow>
    limiter_run fmt c (remove1 t held) (release fmt t act)"

lemma acquire_cases:
  "acquire fmt c t act = (d, act') \<Longrightarrow>
     sd_allowed d \<and> first_denial c act (safety_keys fmt t) dimensions = None \<and>
       act' = fold count_up (safety_keys fmt t) act \<or>
     \<not> sd_allowed d \<and> first_denial c act (safety_keys fmt t) dimensions = Some d \<and> act' = act"
  by (auto simp: acquire_def Let_def allowed_decision_def dest: first_denial_shape
      split: option.splits)

lemma limiter_counts: "limiter_run fmt c held act \<Longrightarrow> counts fmt held act"
proof (induction rule: limiter_run.induct)
  case idle
  then show ?case by (simp add: counts_def uses_def)
next
  case (admit held act t d act')
  with acquire_cases [OF admit.hyps(2)] show ?case by (auto intro: counts_acquire)
next
  case (refuse held act t d act')
  with acquire_cases [OF refuse.hyps(2)] show ?case by auto
next
  case (finish held act t)
  then show ?case by (blast intro: counts_release)
qed

lemma admit_within:
  assumes "within_limits fmt c held" "\<not> at_limit fmt c held t"
  shows "within_limits fmt c (t # held)"
  using assms unfolding within_limits_def at_limit_def
  by (fastforce simp: uses_Cons)

lemma uses_remove1_le: "uses fmt (remove1 t held) k \<le> uses fmt held k"
  by (cases "t \<in> set held") (simp_all add: uses_remove1 remove1_idem)

lemma finish_within:
  "within_limits fmt c held \<Longrightarrow> t \<in> set held \<Longrightarrow> within_limits fmt c (remove1 t held)"
  unfolding within_limits_def using order_trans [OF uses_remove1_le] by blast

lemma idle_within: "within_limits fmt c []"
  by (auto simp: within_limits_def uses_def limit_for_def split: option.splits if_splits)

lemma limiter_within: "limiter_run fmt c held act \<Longrightarrow> within_limits fmt c held"
proof (induction rule: limiter_run.induct)
  case idle
  then show ?case by (rule idle_within)
next
  case (admit held act t d act')
  have "\<not> at_limit fmt c held t"
    using acquire_cases [OF admit.hyps(2)] admit.hyps(3)
      denied_iff_at_limit [OF limiter_counts [OF admit.hyps(1)], of c t] by auto
  with admit.IH show ?case by (rule admit_within)
next
  case (refuse held act t d act')
  then show ?case by simp
next
  case (finish held act t)
  then show ?case by (blast intro: finish_within)
qed

subsection \<open>Properties\<close>

text \<open>
  C6: in every run of admissions, refusals and releases the counters are exactly the numbers of
  admitted tasks per target, and no configured positive limit is ever exceeded.
\<close>

theorem limits_hold:
  assumes "limiter_run fmt c held act"
  shows "(\<forall>k. dict_get act k 0 = uses fmt held k) \<and> within_limits fmt c held"
  using limiter_counts [OF assms] limiter_within [OF assms] by (simp add: counts_def)

definition demo_target :: pydict where
  "demo_target = [(''ci_id'', PStr ''a''), (''protocol'', PStr ''SNMP''), (''site_id'', PStr [])]"

theorem limits_hold_witness:
  "dict_get (snd (acquire (\<lambda>_. []) default_safety_config demo_target [])) (''ci_id'', ''a'') 0 = 1"
proof -
  let ?f = "\<lambda>_::pyval. ''''"
  have ok: "sd_allowed (fst (acquire ?f default_safety_config demo_target []))"
    by code_simp
  have run: "limiter_run ?f default_safety_config [demo_target]
      (snd (acquire ?f default_safety_config demo_target []))"
    by (rule limiter_run.admit [OF limiter_run.idle prod.collapse [symmetric] ok])
  have "uses ?f [demo_target] (''ci_id'', ''a'') = 1"
    by code_simp
  with limits_hold [OF run] show ?thesis by metis
qed

text \<open>
  a task is refused exactly when one of its targets is at its limit, a refusal changes no
  counter and carries the error code \<open>safety_limit\<close>, and releasing an admitted task at once
  restores every counter.
\<close>

theorem acquire_decision:
  assumes "limiter_run fmt c held act"
  shows "(sd_allowed (fst (acquire fmt c t act)) \<longleftrightarrow> \<not> at_limit fmt c held t) \<and>
    (if sd_allowed (fst (acquire fmt c t act))
     then \<forall>k. dict_get (release fmt t (snd (acquire fmt c t act))) k 0 = dict_get act k 0
     else snd (acquire fmt c t act) = act \<and>
          sd_error_code (fst (acquire fmt c t act)) = Some ''safety_limit'')"
proof -
  obtain d act' where a: "acquire fmt c t act = (d, act')" by fastforce
  note cnt = limiter_counts [OF assms]
  have "\<forall>k. dict_get (release fmt t act') k 0 = dict_get act k 0" if "sd_allowed d"
  proof -
    have "counts fmt (t # held) act'"
      using acquire_cases [OF a] that counts_acquire [OF cnt] by auto
    then have "counts fmt (remove1 t (t # held)) (release fmt t act')"
      by (rule counts_release) simp
    with cnt show ?thesis by (simp add: counts_def)
  qed
  then show ?thesis
    using acquire_cases [OF a] denied_iff_at_limit [OF cnt, of c t]
    by (cases "sd_allowed d") (auto simp: a dest: first_denial_shape)
qed

theorem acquire_decision_witness:
  "\<not> sd_allowed (fst (acquire (\<lambda>_. []) default_safety_config demo_target
      (snd (acquire (\<lambda>_. []) default_safety_config demo_target []))))"
proof -
  let ?f = "\<lambda>_::pyval. ''''" and ?c = default_safety_config
  have ok: "sd_allowed (fst (acquire ?f ?c demo_target []))"
    by code_simp
  have run: "limiter_run ?f ?c [demo_target] (snd (acquire ?f ?c demo_target []))"
    by (rule limiter_run.admit [OF limiter_run.idle prod.collapse [symmetric] ok])
  have "(''ci_id'', per_ci) \<in> set dimensions" "limit_for ?c per_ci = Some 1"
    "(''ci_id'', ''a'') \<in> set (safety_keys ?f demo_target)"
    "1 \<le> uses ?f [demo_target] (''ci_id'', ''a'')"
    by (simp_all add: dimensions_def limit_for_def default_safety_config_def safety_keys_def
        demo_target_def uses_def)
  then have "at_limit ?f ?c [demo_target] demo_target"
    unfolding at_limit_def by blast
  with acquire_decision [OF run, of demo_target] show ?thesis by simp
qed

end
