(* ===== verification/Snmp_Worker.thy ===== *)
theory Snmp_Worker
  imports Scheduler Event_Rows Safety_Limits
begin

section \<open>The leased worker (polling/snmp_executor.py, polling/snmp_worker.py)\<close>

text \<open>
  A worker claims ICMP and SNMP tasks, refuses those over a safety limit, executes the others and
  queues their results. Reaching the network is a parameter (the two fetchers), as are the text of
  an exception, the parser of a payload kept as text, and the clock readings of one execution.
\<close>

datatype snmp_raw = Snmp_triple pyval pyval pyval | Snmp_plain pyval

record worker_env =
  we_rt :: runtime
  we_icmp :: "pyval \<Rightarrow> int \<Rightarrow> int \<Rightarrow> ping_raw result"
  we_snmp :: "pyval \<Rightarrow> pyval \<Rightarrow> pyval \<Rightarrow> int \<Rightarrow> snmp_raw result"
  we_loads :: "string \<Rightarrow> pydict result"
  we_exc_text :: "py_exc \<Rightarrow> string"
  we_timing :: "string \<Rightarrow> instant \<times> pydict"

subsection \<open>Executing a task\<close>

definition task_payload :: "worker_env \<Rightarrow> pydict \<Rightarrow> pydict result" where
  "task_payload env task =
     (case por (get task ''payload'') (PDict []) of
        PDict d \<Rightarrow> Inr d
      | PStr s \<Rightarrow> we_loads env s
      | _ \<Rightarrow> Inl (TypeError ''object is not iterable''))"

definition exec_protocol :: "worker_env \<Rightarrow> pydict \<Rightarrow> polling_protocol result" where
  "exec_protocol env task =
     (let raw = upper (strip (text_of (we_rt env) (get task ''protocol'')))
      in case enum_lookup protocol_value protocols raw of
           Some p \<Rightarrow> Inr p
         | None \<Rightarrow> Inl (ValueError (raw @ '' is not a valid PollingProtocol'')))"

definition task_metadata_of :: "pydict \<Rightarrow> pydict" where
  "task_metadata_of task = (case get task ''metadata'' of PDict d \<Rightarrow> d | _ \<Rightarrow> [])"

definition value_entry :: "pyval \<Rightarrow> pyval \<Rightarrow> pydict" where
  "value_entry numeric raw = [(''numeric'', numeric), (''text'', PNone), (''raw'', raw)]"

definition error_entry :: "pyval \<Rightarrow> pyval \<Rightarrow> bool \<Rightarrow> pydict" where
  "error_entry code msg retryable =
     [(''code'', code), (''message'', msg), (''retryable'', PBool retryable)]"

definition no_error :: pydict where
  "no_error = error_entry PNone PNone False"

record outcome =
  oc_status :: result_status
  oc_value :: pydict
  oc_error :: pydict
  oc_ping :: "ping_measurement option"

definition outcome_of :: "result_status \<Rightarrow> pydict \<Rightarrow> pydict \<Rightarrow> outcome" where
  "outcome_of st v e = \<lparr>oc_status = st, oc_value = v, oc_error = e, oc_ping = None\<rparr>"

definition empty_value :: pydict where
  "empty_value = value_entry PNone PNone"

definition execute_icmp :: "worker_env \<Rightarrow> pydict \<Rightarrow> pydict \<Rightarrow> string \<Rightarrow> outcome result" where
  "execute_icmp env task payload metric =
     (let md = merge_dict (task_metadata_of task)
            (if truthy (get task ''metric_kind'') then [(''metric_kind'', get task ''metric_kind'')] else [])
      in if \<not> is_icmp_availability_metric metric (Some md)
         then Inr (outcome_of OK empty_value (error_entry
             (PStr (if is_icmp_telemetry_metric metric (Some md) then ''skipped_icmp_telemetry''
                    else ''unsupported_icmp_metric''))
             (PStr ''ICMP telemetry sidecars are derived from availability polls'') False))
         else
           bindR (py_int (por (get payload ''timeout_ms'') (PInt 3000))) (\<lambda>timeout.
           bindR (py_int (por (get payload ''retries'') (PInt 2))) (\<lambda>retries.
           bindR (we_icmp env (por (get payload ''target'') (get task ''source'')) timeout retries) (\<lambda>raw.
           bindR (coerce_ping_measurement raw) (\<lambda>m.
             let numeric = availability_value m in
             Inr \<lparr>oc_status = (if f_gt numeric (Fin 0) then OK else CRITICAL),
                  oc_value = value_entry (PFloat numeric) (PFloat numeric),
                  oc_error = no_error, oc_ping = Some m\<rparr>)))))"

definition execute_snmp :: "worker_env \<Rightarrow> pydict \<Rightarrow> outcome result" where
  "execute_snmp env payload =
     bindR (py_int (por (get payload ''port'') (PInt 161))) (\<lambda>port.
     bindR (we_snmp env (get payload ''target'') (por (get payload ''community'') (PStr ''public''))
              (get payload ''oid'') port) (\<lambda>raw.
       case raw of
         Snmp_triple v st err \<Rightarrow>
           (let nst = upper (text_of (we_rt env) (por st (PStr ''ERROR'')));
                failed = (\<lambda>code dflt. error_entry (PStr code) (por err (PStr dflt)) True) in
            if nst = ''OK'' \<and> v \<noteq> PNone
            then bindR (py_float v) (\<lambda>x. Inr (outcome_of OK (value_entry (PFloat x) v) no_error))
            else if nst = ''TIMEOUT''
            then Inr (outcome_of TIMEOUT empty_value (failed ''timeout'' ''SNMP request timed out''))
            else if nst = ''NO_DATA''
            then Inr (outcome_of NO_DATA empty_value (failed ''no_data'' ''SNMP returned no data''))
            else if nst = ''ERROR'' \<and> is_snmp_no_response_failure (we_rt env) (PStr ''SNMP'') (PStr nst)
                                        [(''message'', err)]
            then (let msg = por err (PStr ''SNMP request timed out'') in
                  if contains ''no data'' (lower (text_of (we_rt env) msg))
                  then Inr (outcome_of NO_DATA empty_value (error_entry (PStr ''no_data'') msg True))
                  else Inr (outcome_of TIMEOUT empty_value (error_entry (PStr ''timeout'') msg True)))
            else Inr (outcome_of ERROR empty_value (failed ''snmp_error'' ''SNMP collection failed'')))
       | Snmp_plain v \<Rightarrow>
           if v = PNone
           then Inr (outcome_of NO_DATA empty_value
                  (error_entry (PStr ''no_data'') (PStr ''SNMP returned no data'') True))
           else bindR (py_float v) (\<lambda>x. Inr (outcome_of OK (value_entry (PFloat x) v) no_error))))"

text \<open>The \<open>try\<close> block: any exception becomes a retryable error outcome.\<close>

definition execute_outcome ::
    "worker_env \<Rightarrow> pydict \<Rightarrow> pydict \<Rightarrow> string \<Rightarrow> polling_protocol \<Rightarrow> outcome" where
  "execute_outcome env task payload metric p =
     (case (case p of
              ICMP \<Rightarrow> execute_icmp env task payload metric
            | SNMP \<Rightarrow> execute_snmp env payload
            | _ \<Rightarrow> Inl (ValueError (''Unsupported SNMP leased worker protocol: '' @ protocol_value p))) of
        Inr oc \<Rightarrow> oc
      | Inl e \<Rightarrow> outcome_of ERROR empty_value
          (error_entry (PStr ''executor_error'') (PStr (we_exc_text env e)) True))"

definition icmp_result_metadata ::
    "worker_env \<Rightarrow> pydict \<Rightarrow> pydict \<Rightarrow> string \<Rightarrow> polling_protocol \<Rightarrow> outcome \<Rightarrow> pydict" where
  "icmp_result_metadata env task payload metric p oc =
     (if p \<noteq> ICMP then []
      else
        let tm = task_metadata_of task;
            src = por (get task ''availability_source'') (get tm ''availability_source'');
            base = (case oc_ping oc of
                Some m \<Rightarrow>
                  [(''metric_kind'', PStr ''availability''), (''icmp'', PDict (icmp_metadata m))] @
                  (if truthy src then [(''availability_source'', PStr (upper (text_of (we_rt env) src)))] else [])
              | None \<Rightarrow> if is_icmp_telemetry_metric metric (Some tm)
                        then [(''metric_kind'', PStr ''telemetry'')] else [])
        in if truthy (get task ''internal'') \<or> truthy (get tm ''internal'') \<or> truthy (get payload ''internal'')
           then base @ [(''internal'', PBool True)] else base)"

record poll_result =
  pr_id :: string
  pr_task :: pyval
  pr_cycle :: pyval
  pr_key :: string
  pr_ci :: string
  pr_metric :: string
  pr_protocol :: polling_protocol
  pr_source :: string
  pr_observed :: instant
  pr_received :: instant
  pr_status :: result_status
  pr_worker :: string
  pr_value :: pydict
  pr_error :: pydict
  pr_metadata :: pydict
  pr_timing :: pydict

definition exec_result_id :: "runtime \<Rightarrow> pyval \<Rightarrow> instant \<Rightarrow> result_status \<Rightarrow> string" where
  "exec_result_id rt tid observed st = rt_uuid5 rt (''next-gen|poll-result|'' @ text_of rt tid @ ''|'' @
     rt_iso rt observed @ ''|'' @ result_status_value st)"

definition bucket_text :: "runtime \<Rightarrow> int \<Rightarrow> string" where
  "bucket_text rt b = replace_str ''+00:00'' ''Z'' (rt_iso rt (seconds b))"

definition execute_poll_task ::
    "worker_env \<Rightarrow> pydict \<Rightarrow> string \<Rightarrow> instant \<Rightarrow> poll_result result" where
  "execute_poll_task env task worker observed =
     (let rt = we_rt env in
      bindR (exec_protocol env task) (\<lambda>p.
      bindR (task_payload env task) (\<lambda>payload.
        let metric = text_of rt (get task ''metric_id'');
            tm = task_metadata_of task;
            oc = execute_outcome env task payload metric p;
            ci = text_of rt (get task ''ci_id'');
            source = text_of rt (por (get task ''source'') (por (get payload ''target'') (PStr [])));
            (finished, timing) = we_timing env (text_of rt (get task ''task_id''))
        in bindR (generate_idempotency_key (rt_sha rt) (bucket_text rt)
             \<lparr>i_ci = ci, i_metric = metric, i_protocol = Member p, i_source = source,
              i_observed = observed, i_cycle = text_of rt (get task ''cycle_id''),
              i_kind = lower (result_status_value (oc_status oc)), i_bucket = 60\<rparr>) (\<lambda>key.
          Inr \<lparr>pr_id = exec_result_id rt (get task ''task_id'') observed (oc_status oc),
               pr_task = get task ''task_id'', pr_cycle = get task ''cycle_id'', pr_key = key,
               pr_ci = ci, pr_metric = metric, pr_protocol = p, pr_source = source,
               pr_observed = observed, pr_received = finished, pr_status = oc_status oc,
               pr_worker = worker, pr_value = oc_value oc, pr_error = oc_error oc,
               pr_metadata = merge_dict (icmp_result_metadata env task payload metric p oc)
                 [(''site_id'', get task ''site_id''), (''subnet'', get task ''subnet''),
                  (''ip_address'', get task ''ip_address''),
                  (''credential_ref'', get task ''credential_ref''),
                  (''endpoint'', get task ''endpoint''),
                  (''metadata_version'', get task ''metadata_version''),
                  (''availability_source'', por (get task ''availability_source'') (get tm ''availability_source'')),
                  (''worker_id'', PStr worker)],
               pr_timing = timing\<rparr>))))"

subsection \<open>The row of a result\<close>

fun jsonable :: "runtime \<Rightarrow> pyval \<Rightarrow> pyval"
  and jsonable_items :: "runtime \<Rightarrow> pyval list \<Rightarrow> pyval list"
  and jsonable_dict :: "runtime \<Rightarrow> pydict \<Rightarrow> pydict" where
  "jsonable rt (PTime t) = PStr (rt_iso rt t)"
| "jsonable rt (PDict d) = PDict (jsonable_dict rt d)"
| "jsonable rt (PList xs) = PList (jsonable_items rt xs)"
| "jsonable rt v = v"
| "jsonable_items rt [] = []"
| "jsonable_items rt (x # xs) = jsonable rt x # jsonable_items rt xs"
| "jsonable_dict rt [] = []"
| "jsonable_dict rt ((k, v) # d) = (k, jsonable rt v) # jsonable_dict rt d"

definition result_dict :: "poll_result \<Rightarrow> pydict" where
  "result_dict r = [(''result_id'', PStr (pr_id r)), (''task_id'', pr_task r), (''cycle_id'', pr_cycle r),
     (''idempotency_key'', PStr (pr_key r)), (''ci_id'', PStr (pr_ci r)), (''metric_id'', PStr (pr_metric r)),
     (''protocol'', PStr (protocol_value (pr_protocol r))), (''source'', PStr (pr_source r)),
     (''observed_at'', PTime (pr_observed r)), (''received_at'', PTime (pr_received r)),
     (''status'', PStr (result_status_value (pr_status r))), (''worker_id'', PStr (pr_worker r)),
     (''value'', PDict (pr_value r)), (''error'', PDict (pr_error r)),
     (''metadata'', PDict (pr_metadata r)), (''timing'', PDict (pr_timing r))]"

text \<open>
  \<open>result_to_queue_row\<close> followed by the reading of \<open>enqueue_results\<close>: the row's status is the
  value of the result's status.
\<close>

definition result_to_queue_row :: "runtime \<Rightarrow> poll_result \<Rightarrow> int \<Rightarrow> int \<Rightarrow> new_result" where
  "result_to_queue_row rt r prio part = \<lparr>nr_id = pr_id r, nr_task = text_of rt (pr_task r),
     nr_cycle = text_of rt (pr_cycle r), nr_key = pr_key r,
     nr_protocol = protocol_value (pr_protocol r), nr_ci = pr_ci r, nr_metric = pr_metric r,
     nr_observed = pr_observed r, nr_received = pr_received r,
     nr_status = Some (queue_status_of (result_status_value (pr_status r))),
     nr_priority = Some prio, nr_partition = Some part, nr_envelope = jsonable_dict rt (result_dict r)\<rparr>"

subsection \<open>One iteration of the worker\<close>

definition opt_entry :: "string \<Rightarrow> string option \<Rightarrow> pydict" where
  "opt_entry k v = (case v of None \<Rightarrow> [] | Some s \<Rightarrow> [(k, PStr s)])"

text \<open>\<open>_task_dict\<close>: fifteen columns, those that are null left out.\<close>

definition task_dict :: "task_row \<Rightarrow> pydict" where
  "task_dict r = [(''task_id'', PStr (tq_id r)), (''cycle_id'', PStr (tq_cycle r)), (''ci_id'', PStr (tq_ci r)),
     (''metric_id'', PStr (tq_metric r)), (''protocol'', PStr (tq_protocol r)),
     (''priority'', PInt (tq_priority r))] @ opt_entry ''source'' (tq_source r) @
     [(''partition_key'', PInt (tq_partition r)), (''payload'', PDict (tq_payload r))] @
     opt_entry ''site_id'' (tq_site r) @ opt_entry ''subnet'' (tq_subnet r) @
     opt_entry ''ip_address'' (tq_ip r) @ opt_entry ''credential_ref'' (tq_credential r) @
     opt_entry ''endpoint'' (tq_endpoint r) @ opt_entry ''metadata_version'' (tq_version r)"

record worker_stats =
  wk_claimed :: nat
  wk_enqueued :: nat
  wk_deferred :: nat
  wk_retried :: nat
  wk_completed :: nat

record worker_state =
  wk_db :: queue_db
  wk_active :: active
  wk_stats :: worker_stats

definition value_text :: "runtime \<Rightarrow> pyval \<Rightarrow> string option" where
  "value_text rt v = (if v = PNone then None else Some (text_of rt v))"

definition finish_task :: "runtime \<Rightarrow> instant \<Rightarrow> instant \<Rightarrow> task_row \<Rightarrow> poll_result \<Rightarrow> worker_state \<Rightarrow> worker_state" where
  "finish_task rt now observed row r s =
     (if pr_status r \<in> {OK, CRITICAL}
      then s\<lparr>wk_db := complete_task now (tq_id row) (wk_db s),
            wk_stats := (wk_stats s)\<lparr>wk_completed := wk_completed (wk_stats s) + 1\<rparr>\<rparr>
      else s\<lparr>wk_db := retry_task now (tq_id row) (observed + seconds 60)
               (value_text rt (get (pr_error r) ''code'')) (value_text rt (get (pr_error r) ''message'')) (wk_db s),
            wk_stats := (wk_stats s)\<lparr>wk_retried := wk_retried (wk_stats s) + 1\<rparr>\<rparr>)"

definition process_task :: "worker_env \<Rightarrow> safety_config \<Rightarrow> string \<Rightarrow> instant \<Rightarrow> instant \<Rightarrow> task_row \<Rightarrow>
    worker_state \<Rightarrow> worker_state \<times> py_exc option" where
  "process_task env cfg worker now observed row s =
     (let rt = we_rt env; task = task_dict row; (d, act) = acquire (rt_fmt rt) cfg task (wk_active s) in
      if \<not> sd_allowed d
      then (s\<lparr>wk_db := defer_task now (tq_id row) (observed + seconds 30) (sd_error_code d) (sd_reason d) (wk_db s),
             wk_active := act,
             wk_stats := (wk_stats s)\<lparr>wk_deferred := wk_deferred (wk_stats s) + 1\<rparr>\<rparr>, None)
      else
        let rel = release (rt_fmt rt) task act in
        case execute_poll_task env task worker observed of
          Inl e \<Rightarrow> (s\<lparr>wk_active := rel\<rparr>, Some e)
        | Inr r \<Rightarrow>
            (case enqueue_results now [result_to_queue_row rt r (tq_priority row) (tq_partition row)] (wk_db s) of
               Inl e \<Rightarrow> (s\<lparr>wk_active := rel\<rparr>, Some e)
             | Inr db \<Rightarrow>
                 (finish_task rt now observed row r
                    (s\<lparr>wk_db := db, wk_active := rel,
                      wk_stats := (wk_stats s)\<lparr>wk_enqueued := wk_enqueued (wk_stats s) + 1\<rparr>\<rparr>), None)))"

text \<open>A loop whose body may raise: what was done before stays done.\<close>

fun each :: "('a \<Rightarrow> 's \<Rightarrow> 's \<times> py_exc option) \<Rightarrow> 'a list \<Rightarrow> 's \<Rightarrow> 's \<times> py_exc option" where
  "each f [] s = (s, None)"
| "each f (x # xs) s = (case f x s of (s', None) \<Rightarrow> each f xs s' | (s', Some e) \<Rightarrow> (s', Some e))"

definition claim_and_process :: "worker_env \<Rightarrow> safety_config \<Rightarrow> string \<Rightarrow> int \<Rightarrow> nat \<Rightarrow> instant \<Rightarrow> instant \<Rightarrow>
    polling_protocol \<Rightarrow> worker_state \<Rightarrow> worker_state \<times> py_exc option" where
  "claim_and_process env cfg worker ttl n now observed p s =
     (let (db, rows) = claim_tasks now [] (protocol_value p) worker ttl n None (wk_db s)
      in each (process_task env cfg worker now observed) rows
           (s\<lparr>wk_db := db,
             wk_stats := (wk_stats s)\<lparr>wk_claimed := wk_claimed (wk_stats s) + length rows\<rparr>\<rparr>))"

definition zero_stats :: worker_stats where
  "zero_stats = \<lparr>wk_claimed = 0, wk_enqueued = 0, wk_deferred = 0, wk_retried = 0, wk_completed = 0\<rparr>"

definition run_leased_snmp_worker_once :: "worker_env \<Rightarrow> bool \<Rightarrow> safety_config \<Rightarrow> string \<Rightarrow> int \<Rightarrow> nat \<Rightarrow>
    instant \<Rightarrow> instant \<Rightarrow> active \<Rightarrow> queue_db \<Rightarrow> worker_state \<times> py_exc option" where
  "run_leased_snmp_worker_once env enabled cfg worker ttl n now observed act db =
     (let s = \<lparr>wk_db = db, wk_active = act, wk_stats = zero_stats\<rparr>
      in if \<not> enabled then (s, None)
         else each (claim_and_process env cfg worker ttl n now observed) [ICMP, SNMP] s)"

subsection \<open>What one iteration keeps\<close>

lemma each_invariant:
  assumes "P s" "\<And>x s. x \<in> set xs \<Longrightarrow> P s \<Longrightarrow> P (fst (f x s))"
  shows "P (fst (each f xs s))"
  using assms
proof (induction xs arbitrary: s)
  case Nil
  then show ?case by simp
next
  case (Cons x xs)
  obtain s' e where f: "f x s = (s', e)" by fastforce
  with Cons.prems(2) [of x s] Cons.prems(1) have "P s'" by simp
  with Cons.IH [of s'] Cons.prems(2) f show ?case by (cases e) simp_all
qed

lemma counts_after_process:
  assumes "counts (rt_fmt (we_rt env)) held (wk_active s)"
  shows "counts (rt_fmt (we_rt env)) held (wk_active (fst (process_task env cfg w now obs row s)))"
proof -
  let ?f = "rt_fmt (we_rt env)" and ?t = "task_dict row"
  obtain d act where a: "acquire ?f cfg ?t (wk_active s) = (d, act)" by fastforce
  show ?thesis
  proof (cases "sd_allowed d")
    case False
    with acquire_cases [OF a] a assms show ?thesis by (simp add: process_task_def Let_def)
  next
    case True
    then have "counts ?f (?t # held) act"
      using acquire_cases [OF a] counts_acquire [OF assms] by auto
    then have "counts ?f held (release ?f ?t act)"
      using counts_release [of ?f "?t # held" act ?t] by simp
    with a True show ?thesis
      by (auto simp: process_task_def Let_def finish_task_def split: sum.split)
  qed
qed

text \<open>The result rows the worker adds carry a result status, which is none of the queue's own.\<close>

definition stranded :: "result_row \<Rightarrow> bool" where
  "stranded r = (\<exists>st. rq_status r = R_text (result_status_value st))"

lemma queue_status_of_result: "queue_status_of (result_status_value st) = R_text (result_status_value st)"
  by (cases st) (simp_all add: queue_status_of_def)

lemma result_row_stranded: "stranded (result_row_of now (result_to_queue_row rt r prio part))"
  by (auto simp: stranded_def result_row_of_def result_to_queue_row_def queue_status_of_result opt_def)

definition only_stranded_added :: "result_row set \<Rightarrow> queue_db \<Rightarrow> bool" where
  "only_stranded_added R db = (\<forall>r \<in> set (results db). r \<in> R \<or> stranded r)"

lemma results_on_task [simp]: "results (on_task tid f db) = results db"
  by (simp add: on_task_def)

lemma results_claim_tasks [simp]: "results (fst (claim_tasks now lk p w ttl n ps db)) = results db"
  by (simp add: claim_tasks_def case_prod_beta Let_def)

lemma finish_task_results: "results (wk_db (finish_task rt now obs row r s)) = results (wk_db s)"
  by (simp add: finish_task_def complete_task_def retry_task_def)

lemma added_by_process:
  assumes "only_stranded_added R (wk_db s)"
  shows "only_stranded_added R (wk_db (fst (process_task env cfg w now obs row s)))"
proof -
  have "only_stranded_added R db"
    if "enqueue_results now [result_to_queue_row rt r prio part] (wk_db s) = Inr db" for rt r prio part db
    using that assms result_row_stranded
    by (auto simp: enqueue_results_def insert_result_def insert_absent_def only_stranded_added_def
        split: if_splits)
  with assms show ?thesis
    by (auto simp: process_task_def Let_def case_prod_beta finish_task_results defer_task_def
        only_stranded_added_def split: sum.split)
qed

text \<open>Statistics of one task, and over the claimed rows.\<close>

definition stats_ok :: "worker_stats \<Rightarrow> bool" where
  "stats_ok k = (wk_enqueued k = wk_completed k + wk_retried k)"

definition handled :: "worker_state \<Rightarrow> nat" where
  "handled s = wk_enqueued (wk_stats s) + wk_deferred (wk_stats s)"

lemma process_stats:
  "stats_ok (wk_stats s) \<Longrightarrow> stats_ok (wk_stats (fst (process_task env cfg w now obs row s)))"
  "snd (process_task env cfg w now obs row s) = None \<Longrightarrow>
     handled (fst (process_task env cfg w now obs row s)) = Suc (handled s)"
  "wk_claimed (wk_stats (fst (process_task env cfg w now obs row s))) = wk_claimed (wk_stats s)"
  by (auto simp: process_task_def Let_def case_prod_beta finish_task_def stats_ok_def handled_def
      split: sum.splits)

lemma each_process_handled:
  "each (process_task env cfg w now obs) rows s = (s', None) \<Longrightarrow>
     handled s' = handled s + length rows \<and> wk_claimed (wk_stats s') = wk_claimed (wk_stats s)"
proof (induction rows arbitrary: s)
  case Nil
  then show ?case by simp
next
  case (Cons row rows)
  obtain s1 where s1: "process_task env cfg w now obs row s = (s1, None)"
    and rest: "each (process_task env cfg w now obs) rows s1 = (s', None)"
    using Cons.prems by (auto split: prod.splits option.splits)
  from Cons.IH [OF rest] process_stats(2,3) [of env cfg w now obs row s] s1 show ?case by simp
qed

lemma claim_and_process_balance:
  assumes "claim_and_process env cfg w ttl n now obs p s = (s', None)"
    and "handled s = wk_claimed (wk_stats s)"
  shows "handled s' = wk_claimed (wk_stats s')"
proof -
  obtain db rows where "claim_tasks now [] (protocol_value p) w ttl n None (wk_db s) = (db, rows)"
    by fastforce
  with assms each_process_handled show ?thesis
    by (fastforce simp: claim_and_process_def handled_def)
qed

subsection \<open>Properties\<close>

text \<open>
  C10: an iteration of the worker gives back every safety slot it takes, whether its tasks
  succeed, fail, are refused or raise; every queued result belongs to a task that was completed or
  sent to retry; and an iteration that ends without exception has queued a result for, or
  deferred, every task it claimed.
\<close>

theorem worker_iteration:
  assumes "counts (rt_fmt (we_rt env)) held act"
    and "run_leased_snmp_worker_once env enabled cfg w ttl n now obs act db = (s, e)"
  shows "counts (rt_fmt (we_rt env)) held (wk_active s) \<and>
    wk_enqueued (wk_stats s) = wk_completed (wk_stats s) + wk_retried (wk_stats s) \<and>
    (e = None \<longrightarrow> wk_claimed (wk_stats s) = wk_enqueued (wk_stats s) + wk_deferred (wk_stats s))"
proof -
  let ?s = "\<lparr>wk_db = db, wk_active = act, wk_stats = zero_stats\<rparr>"
  let ?step = "claim_and_process env cfg w ttl n now obs"
  let ?P = "\<lambda>s. counts (rt_fmt (we_rt env)) held (wk_active s) \<and> stats_ok (wk_stats s)"
  have start: "?P ?s" using assms(1) by (simp add: stats_ok_def zero_stats_def)
  have step: "?P (fst (?step p s))" if "?P s" for p s
    unfolding claim_and_process_def case_prod_beta Let_def
    by (rule each_invariant) (use that counts_after_process process_stats(1) in \<open>auto simp: stats_ok_def\<close>)
  have inv: "?P (fst (each ?step [ICMP, SNMP] ?s))"
    by (rule each_invariant) (use start step in auto)
  have all: "handled s = wk_claimed (wk_stats s)" if ok: "each ?step [ICMP, SNMP] ?s = (s, None)"
  proof -
    obtain s1 where s1: "?step ICMP ?s = (s1, None)" "?step SNMP s1 = (s, None)"
      using ok by (auto split: prod.splits option.splits)
    then show ?thesis
      using claim_and_process_balance [OF s1(1)] claim_and_process_balance [OF s1(2)]
      by (simp add: handled_def zero_stats_def)
  qed
  have zero: "handled ?s = wk_claimed (wk_stats ?s)" by (simp add: handled_def zero_stats_def)
  show ?thesis
  proof (cases enabled)
    case True
    then have "each ?step [ICMP, SNMP] ?s = (s, e)"
      using assms(2) by (simp add: run_leased_snmp_worker_once_def Let_def del: each.simps)
    with inv all show ?thesis by (simp add: stats_ok_def handled_def del: each.simps)
  next
    case False
    then have "s = ?s" using assms(2) by (simp add: run_leased_snmp_worker_once_def Let_def)
    with start zero show ?thesis by (simp add: stats_ok_def handled_def)
  qed
qed

definition demo_env :: worker_env where
  "demo_env = \<lparr>we_rt = demo_rt, we_icmp = (\<lambda>_ _ _. Inr (Tuple [PBool True, PFloat (Fin 3)])),
     we_snmp = (\<lambda>_ _ _ _. Inr (Snmp_plain (PInt 7))), we_loads = (\<lambda>_. Inl (ValueError [])),
     we_exc_text = (\<lambda>_. []), we_timing = (\<lambda>_. (9, []))\<rparr>"

definition demo_task_db :: queue_db where
  "demo_task_db = \<lparr>cycles = [\<lparr>pc_id = ''c'', pc_scheduled = 0, pc_status = ''open'', pc_config = None,
       pc_target = 1, pc_updated = 0\<rparr>],
     tasks = [task_row_of 0 \<lparr>nt_id = ''t1'', nt_cycle = ''c'', nt_ci = ''n1'', nt_metric = ''cpu'',
       nt_protocol = ''SNMP'', nt_priority = None, nt_due = 0, nt_eligible = None, nt_partition = None,
       nt_site = None, nt_subnet = None, nt_ip = None, nt_credential = None, nt_endpoint = None,
       nt_source = Some ''src'', nt_payload = None, nt_version = None\<rparr>], results = []\<rparr>"

definition demo_run :: "worker_state \<times> py_exc option" where
  "demo_run = run_leased_snmp_worker_once demo_env True default_safety_config ''w'' 60 10 1 1 [] demo_task_db"

theorem worker_iteration_witness:
  "wk_claimed (wk_stats (fst demo_run)) = 1 \<and> wk_enqueued (wk_stats (fst demo_run)) = 1 \<and>
   counts (rt_fmt (we_rt demo_env)) [] (wk_active (fst demo_run))"
proof -
  have "counts (rt_fmt (we_rt demo_env)) [] []" by (simp add: counts_def uses_def)
  from worker_iteration [OF this, of True default_safety_config "''w''" 60 10 1 1 demo_task_db
      "fst demo_run" "snd demo_run"]
  have "counts (rt_fmt (we_rt demo_env)) [] (wk_active (fst demo_run))"
    by (simp add: demo_run_def)
  moreover have "wk_claimed (wk_stats (fst demo_run)) = 1" "wk_enqueued (wk_stats (fst demo_run)) = 1"
    by code_simp+
  ultimately show ?thesis by blast
qed

text \<open>
  no result the worker queues can ever be claimed by a writer: its row carries the result's
  status (\<open>OK\<close>, \<open>CRITICAL\<close>, \<open>TIMEOUT\<close>, ...) in the queue's status column, which a claim
  compares with \<open>ready\<close>, \<open>retry_wait\<close> and \<open>leased\<close>.
\<close>

theorem worker_results_stranded:
  assumes "run_leased_snmp_worker_once env enabled cfg w ttl n now obs act db = (s, e)"
    and "r \<in> set (results (wk_db s))" "r \<notin> set (results db)"
  shows "\<not> result_claimable t r"
proof -
  let ?P = "\<lambda>s. only_stranded_added (set (results db)) (wk_db s)"
  have "?P (fst (run_leased_snmp_worker_once env enabled cfg w ttl n now obs act db))"
  proof (cases enabled)
    case False
    then show ?thesis by (simp add: run_leased_snmp_worker_once_def only_stranded_added_def)
  next
    case True
    have step: "?P (fst (claim_and_process env cfg w ttl n now obs p s))" if "?P s" for p s
      unfolding claim_and_process_def case_prod_beta Let_def
      by (rule each_invariant) (use that added_by_process in \<open>auto simp: only_stranded_added_def\<close>)
    have "?P (fst (each (claim_and_process env cfg w ttl n now obs) [ICMP, SNMP]
        \<lparr>wk_db = db, wk_active = act, wk_stats = zero_stats\<rparr>))"
    proof (rule each_invariant)
      show "?P \<lparr>wk_db = db, wk_active = act, wk_stats = zero_stats\<rparr>"
        by (simp add: only_stranded_added_def)
    qed (rule step)
    with True show ?thesis
      by (simp add: run_leased_snmp_worker_once_def Let_def del: each.simps)
  qed
  with assms have "stranded r" by (auto simp: only_stranded_added_def)
  then show ?thesis by (auto simp: stranded_def result_claimable_def)
qed

theorem worker_results_stranded_witness:
  "length (results (wk_db (fst demo_run))) = 1 \<and>
   list_all (\<lambda>r. \<not> result_claimable 1000000000 r) (results (wk_db (fst demo_run)))"
proof -
  have "length (results (wk_db (fst demo_run))) = 1" by code_simp
  moreover have "\<not> result_claimable 1000000000 r" if "r \<in> set (results (wk_db (fst demo_run)))" for r
    using worker_results_stranded [of demo_env True default_safety_config "''w''" 60 10 1 1 "[]"
        demo_task_db "fst demo_run" "snd demo_run" r 1000000000] that
    by (simp add: demo_run_def demo_task_db_def)
  ultimately show ?thesis by (simp add: list_all_iff)
qed

end
