(* ===== verification/Writer_Pool.thy ===== *)
theory Writer_Pool
  imports Snmp_Worker
begin

section \<open>The result writer (polling/writer_pool.py)\<close>

text \<open>
  A writer claims queued results, turns each into telemetry samples and event envelopes, stores
  samples and idempotency receipts in one transaction, hands the envelopes to the event writer
  and moves the results on. A failing database and a failing graph driver are parameters
  (\<open>wx_persist\<close>, \<open>wx_events\<close>): the exception they raise, or none.
\<close>

record ts_sample =
  sm_node :: pyval
  sm_metric :: pyval
  sm_time :: instant
  sm_value :: pyfloat

record receipt =
  rc_key :: string
  rc_result :: string
  rc_cycle :: string
  rc_ci :: pyval
  rc_metric :: pyval
  rc_protocol :: pyval
  rc_source :: pyval
  rc_observed :: pyval
  rc_status :: pyval

record ts_db =
  ts_samples :: "ts_sample list"
  ts_receipts :: "receipt list"

text \<open>A sample as built, its time still any value.\<close>

record new_sample =
  ns_node :: pyval
  ns_metric :: pyval
  ns_time :: pyval
  ns_value :: pyfloat

record icmp_settings =
  is_latency_warning :: pyfloat
  is_latency_critical :: pyfloat
  is_jitter_warning :: pyfloat
  is_jitter_critical :: pyfloat
  is_loss_warning :: pyfloat
  is_loss_critical :: pyfloat

subsection \<open>Envelopes and samples\<close>

definition row_envelope :: "result_row \<Rightarrow> pydict" where
  "row_envelope r =
     setdefault ''observed_at'' (PTime (rq_observed r))
      (setdefault ''protocol'' (PStr (rq_protocol r))
        (setdefault ''metric_id'' (PStr (rq_metric r))
          (setdefault ''ci_id'' (PStr (rq_ci r))
            (setdefault ''idempotency_key'' (PStr (rq_key r)) (rq_envelope r)))))"

definition timestamp :: "runtime \<Rightarrow> pyval \<Rightarrow> pyval result" where
  "timestamp rt v =
     (case v of
        PStr s \<Rightarrow> (case rt_parse_iso rt (zulu_offset s) of
            None \<Rightarrow> Inl (ValueError ''Invalid isoformat string'') | Some t \<Rightarrow> Inr (PTime t))
      | _ \<Rightarrow> Inr v)"

definition is_internal_icmp_availability :: "runtime \<Rightarrow> pydict \<Rightarrow> bool result" where
  "is_internal_icmp_availability rt env =
     (if upper (text_of rt (por (get env ''protocol'') (PStr []))) = ''ICMP'' \<and>
         get env ''metric_id'' = PStr ''icmp_availability''
      then bindR (sub_dict env ''metadata'') (\<lambda>m. Inr (truthy (get m ''internal'')))
      else Inr False)"

definition envelope_sample :: "runtime \<Rightarrow> pydict \<Rightarrow> new_sample option result" where
  "envelope_sample rt env =
     bindR (is_internal_icmp_availability rt env) (\<lambda>internal.
       if internal then Inr None
       else bindR (num env) (\<lambda>n. case n of
           None \<Rightarrow> Inr None
         | Some x \<Rightarrow> bindR (timestamp rt (get env ''observed_at'')) (\<lambda>t.
             Inr (Some \<lparr>ns_node = get env ''ci_id'', ns_metric = get env ''metric_id'', ns_time = t,
                       ns_value = x\<rparr>))))"

definition previous_metric_value :: "ts_db \<Rightarrow> pyval \<Rightarrow> pyval \<Rightarrow> pyval \<Rightarrow> pyfloat option" where
  "previous_metric_value ts node metric before =
     (case before of
        PTime b \<Rightarrow>
          (let xs = filter (\<lambda>s. sm_node s = node \<and> sm_metric s = metric \<and> sm_time s < b) (ts_samples ts)
           in if xs = [] then None else Some (sm_value (last (sort_key sm_time xs))))
      | _ \<Rightarrow> None)"

definition icmp_of :: "pydict \<Rightarrow> pydict result" where
  "icmp_of env = bindR (sub_dict env ''metadata'') (\<lambda>m. sub_dict m ''icmp'')"

definition sidecar_ids :: "pydict \<Rightarrow> pyval list result" where
  "sidecar_ids icmp =
     (case por (get icmp ''sidecar_metric_ids'') (PList []) of
        PList xs \<Rightarrow> Inr xs
      | PStr s \<Rightarrow> Inr (map (\<lambda>c. PStr [c]) s)
      | PDict d \<Rightarrow> Inr (map (\<lambda>e. PStr (fst e)) d)
      | _ \<Rightarrow> Inl (TypeError ''object is not iterable''))"

definition icmp_latency :: "pydict \<Rightarrow> pyfloat option result" where
  "icmp_latency icmp =
     (if has_key icmp ''latency_ms'' then bindR (py_float (get icmp ''latency_ms'')) (\<lambda>x. Inr (Some x))
      else Inr None)"

definition loss_of :: "pyfloat \<Rightarrow> pyfloat" where
  "loss_of numeric = (if f_gt numeric (Fin 0) then Fin 0 else Fin 100)"

definition sidecar_samples :: "runtime \<Rightarrow> ts_db \<Rightarrow> pydict \<Rightarrow> new_sample list result" where
  "sidecar_samples rt ts env =
     bindR (icmp_of env) (\<lambda>icmp.
     bindR (sidecar_ids icmp) (\<lambda>ids.
       if ids = [] then Inr []
       else
         bindR (timestamp rt (get env ''observed_at'')) (\<lambda>t.
         bindR (num env) (\<lambda>n.
         bindR (if PStr ''icmp_latency_ms'' \<in> set ids then icmp_latency icmp else Inr None) (\<lambda>lat.
           let one = (\<lambda>m x. \<lparr>ns_node = get env ''ci_id'', ns_metric = PStr m, ns_time = t, ns_value = x\<rparr>);
               prev = (case lat of None \<Rightarrow> None
                 | Some _ \<Rightarrow> previous_metric_value ts (get env ''ci_id'') (PStr ''icmp_latency_ms'') t)
           in Inr
             ((case lat of None \<Rightarrow> [] | Some l \<Rightarrow> [one ''icmp_latency_ms'' l]) @
              (case (lat, prev) of
                 (Some l, Some p) \<Rightarrow> if PStr ''icmp_jitter_ms'' \<in> set ids
                                     then [one ''icmp_jitter_ms'' (f_absdiff l p)] else []
               | _ \<Rightarrow> []) @
              (case n of None \<Rightarrow> []
               | Some x \<Rightarrow> if PStr ''packet_loss_pct'' \<in> set ids
                           then [one ''packet_loss_pct'' (loss_of x)] else [])))))))"

subsection \<open>Derived event envelopes\<close>

definition derived :: "pydict \<Rightarrow> string \<Rightarrow> string \<Rightarrow> pyfloat \<Rightarrow> pydict \<Rightarrow> pydict" where
  "derived env metric status x metadata =
     merge_dict env [(''metric_id'', PStr metric), (''status'', PStr status),
       (''value'', PDict [(''numeric'', PFloat x), (''raw'', PFloat x)]), (''metadata'', PDict metadata)]"

definition icmp_latency_event_envelope :: "icmp_settings \<Rightarrow> pydict \<Rightarrow> pydict option result" where
  "icmp_latency_event_envelope cfg env =
     bindR (icmp_of env) (\<lambda>icmp.
     bindR (icmp_latency icmp) (\<lambda>lat. Inr (case lat of
         None \<Rightarrow> None
       | Some l \<Rightarrow> Some (derived env ''icmp_latency_ms''
           (evaluate_latency_status (Some l) (is_latency_warning cfg) (is_latency_critical cfg)) l
           (latency_threshold_metadata (is_latency_warning cfg) (is_latency_critical cfg))))))"

definition icmp_jitter_event_envelope ::
    "runtime \<Rightarrow> icmp_settings \<Rightarrow> ts_db \<Rightarrow> pydict \<Rightarrow> pydict option result" where
  "icmp_jitter_event_envelope rt cfg ts env =
     bindR (icmp_of env) (\<lambda>icmp.
     bindR (icmp_latency icmp) (\<lambda>lat. case lat of
         None \<Rightarrow> Inr None
       | Some l \<Rightarrow>
           bindR (timestamp rt (get env ''observed_at'')) (\<lambda>t.
             Inr (case previous_metric_value ts (get env ''ci_id'') (PStr ''icmp_latency_ms'') t of
                 None \<Rightarrow> None
               | Some p \<Rightarrow>
                   (let st = evaluate_jitter_status (Some (f_absdiff l p)) (is_jitter_warning cfg) (is_jitter_critical cfg)
                    in if st = ''OK'' then None
                       else Some (derived env ''icmp_jitter_ms'' st (f_absdiff l p)
                         (jitter_threshold_metadata (is_jitter_warning cfg) (is_jitter_critical cfg))))))))"

definition icmp_packet_loss_event_envelope :: "icmp_settings \<Rightarrow> pydict \<Rightarrow> pydict option result" where
  "icmp_packet_loss_event_envelope cfg env =
     bindR (icmp_of env) (\<lambda>icmp.
     bindR (sidecar_ids icmp) (\<lambda>ids.
       if PStr ''packet_loss_pct'' \<notin> set ids then Inr None
       else bindR (num env) (\<lambda>n. Inr (case n of
           None \<Rightarrow> None
         | Some x \<Rightarrow>
             (let st = evaluate_packet_loss_status (Some (loss_of x)) (is_loss_warning cfg) (is_loss_critical cfg)
              in if st = ''OK'' then None
                 else Some (derived env ''packet_loss_pct'' st (loss_of x)
                   (packet_loss_threshold_metadata (is_loss_warning cfg) (is_loss_critical cfg))))))))"

subsection \<open>Payloads, receipts and persistence\<close>

record payload =
  pl_row :: result_row
  pl_envelope :: pydict
  pl_sample :: "new_sample option"
  pl_pending :: bool

definition result_payload :: "runtime \<Rightarrow> result_row \<Rightarrow> payload result" where
  "result_payload rt r =
     bindR (envelope_sample rt (row_envelope r)) (\<lambda>s.
       Inr \<lparr>pl_row = r, pl_envelope = row_envelope r, pl_sample = s,
            pl_pending = (rq_error_code r = Some ''neo4j_pending'')\<rparr>)"

definition receipt_exists :: "ts_db \<Rightarrow> string \<Rightarrow> bool" where
  "receipt_exists ts k = (k \<in> rc_key ` set (ts_receipts ts))"

definition receipt_of :: "runtime \<Rightarrow> payload \<Rightarrow> receipt" where
  "receipt_of rt p = \<lparr>rc_key = rq_key (pl_row p), rc_result = rq_id (pl_row p), rc_cycle = rq_cycle (pl_row p),
     rc_ci = get (pl_envelope p) ''ci_id'', rc_metric = get (pl_envelope p) ''metric_id'',
     rc_protocol = get (pl_envelope p) ''protocol'', rc_source = get (pl_envelope p) ''source'',
     rc_observed = get (pl_envelope p) ''observed_at'',
     rc_status = dict_get (pl_envelope p) ''status'' (PStr ''OK'')\<rparr>"

definition stored_sample :: "new_sample \<Rightarrow> ts_sample result" where
  "stored_sample s =
     (case ns_time s of
        PTime t \<Rightarrow> Inr \<lparr>sm_node = ns_node s, sm_metric = ns_metric s, sm_time = t, sm_value = ns_value s\<rparr>
      | _ \<Rightarrow> Inl (IntegrityError ''metric_values.time''))"

definition persist_samples_and_receipts ::
    "runtime \<Rightarrow> py_exc option \<Rightarrow> payload list \<Rightarrow> new_sample list \<Rightarrow> ts_db \<Rightarrow> ts_db result" where
  "persist_samples_and_receipts rt failure ps samples ts =
     bindR (mapR stored_sample samples) (\<lambda>stored.
       case failure of
         Some e \<Rightarrow> Inl e
       | None \<Rightarrow> Inr \<lparr>ts_samples = ts_samples ts @ stored,
                      ts_receipts = fold (\<lambda>p. insert_absent rc_key (receipt_of rt p)) ps (ts_receipts ts)\<rparr>)"

subsection \<open>One run\<close>

record writer_stats =
  ws_claimed :: nat
  ws_inserted :: nat
  ws_duplicates :: nat
  ws_written :: nat
  ws_retried :: nat

definition zero_writer_stats :: writer_stats where
  "zero_writer_stats = \<lparr>ws_claimed = 0, ws_inserted = 0, ws_duplicates = 0, ws_written = 0, ws_retried = 0\<rparr>"

record writer_env =
  wx_rt :: runtime
  wx_cfg :: icmp_settings
  wx_persist :: "py_exc option"
  wx_events :: "py_exc option"
  wx_exc_text :: "py_exc \<Rightarrow> string"

text \<open>
  What a run leaves behind: the two stores, its statistics, an exception that escapes it, the
  keys whose samples it stored and the envelopes it handed to the event writer.
\<close>

record writer_out =
  wo_queue :: queue_db
  wo_ts :: ts_db
  wo_stats :: writer_stats
  wo_error :: "py_exc option"
  wo_persisted :: "string list"
  wo_events :: "pydict list"

definition new_item_samples :: "runtime \<Rightarrow> ts_db \<Rightarrow> payload list \<Rightarrow> new_sample list result" where
  "new_item_samples rt ts ps =
     bindR (mapR (\<lambda>p. bindR (sidecar_samples rt ts (pl_envelope p)) (\<lambda>ss.
        Inr ((case pl_sample p of None \<Rightarrow> [] | Some s \<Rightarrow> [s]) @ ss))) ps) (\<lambda>xs. Inr (concat xs))"

definition item_events :: "writer_env \<Rightarrow> ts_db \<Rightarrow> payload \<Rightarrow> (payload \<times> pydict) list result" where
  "item_events wx ts p =
     (let env = pl_envelope p; rt = wx_rt wx; cfg = wx_cfg wx in
      bindR (is_internal_icmp_availability rt env) (\<lambda>internal.
      bindR (icmp_latency_event_envelope cfg env) (\<lambda>a.
      bindR (icmp_jitter_event_envelope rt cfg ts env) (\<lambda>b.
      bindR (icmp_packet_loss_event_envelope cfg env) (\<lambda>c.
        Inr (map (Pair p) ((if internal then [] else [env]) @ List.map_filter id [a, b, c])))))))"

definition written_event_rows :: "runtime \<Rightarrow> pydict list \<Rightarrow> event_row list result" where
  "written_event_rows rt envs = bindR (build_event_rows rt envs) dedupe_idempotent_rows"

definition event_failure :: "writer_env \<Rightarrow> pydict list \<Rightarrow> py_exc option" where
  "event_failure wx envs =
     (case written_event_rows (wx_rt wx) envs of Inl e \<Rightarrow> Some e | Inr _ \<Rightarrow> wx_events wx)"

definition complete_all :: "instant \<Rightarrow> string list \<Rightarrow> queue_db \<Rightarrow> queue_db" where
  "complete_all now ids q = fold (complete_result now) ids q"

definition retry_all :: "instant \<Rightarrow> instant \<Rightarrow> string \<Rightarrow> string \<Rightarrow> string list \<Rightarrow> queue_db \<Rightarrow> queue_db" where
  "retry_all now at_time code msg ids q =
     fold (\<lambda>i. retry_result now i at_time (Some code) (Some msg)) ids q"

definition item_id :: "payload \<Rightarrow> string" where
  "item_id p = rq_id (pl_row p)"

definition write_events :: "writer_env \<Rightarrow> instant \<Rightarrow> instant \<Rightarrow> payload list \<Rightarrow> writer_out \<Rightarrow> writer_out" where
  "write_events wx now clock items out =
     (case mapR (item_events wx (wo_ts out)) items of
        Inl e \<Rightarrow> out\<lparr>wo_error := Some e\<rparr>
      | Inr xs \<Rightarrow>
          (let evs = concat xs; envs = map snd evs; k = wo_stats out in
           case event_failure wx envs of
             Some e \<Rightarrow>
               (let ids = rev (remdups (rev (map (\<lambda>x. item_id (fst x)) evs)))
                in out\<lparr>wo_queue := retry_all now (clock + seconds 30) ''neo4j_pending'' (wx_exc_text wx e) ids (wo_queue out),
                      wo_stats := k\<lparr>ws_retried := ws_retried k + length ids\<rparr>\<rparr>)
           | None \<Rightarrow>
               out\<lparr>wo_queue := complete_all now (map item_id items) (wo_queue out),
                   wo_stats := k\<lparr>ws_written := ws_written k + length items\<rparr>,
                   wo_events := envs\<rparr>))"

definition write_payloads :: "writer_env \<Rightarrow> instant \<Rightarrow> instant \<Rightarrow> payload list \<Rightarrow> writer_out \<Rightarrow> writer_out" where
  "write_payloads wx now clock ps out =
     (let ts = wo_ts out;
          dup = filter (\<lambda>p. receipt_exists ts (rq_key (pl_row p))) ps;
          fresh = filter (\<lambda>p. \<not> receipt_exists ts (rq_key (pl_row p))) ps;
          pending = filter pl_pending dup;
          done = filter (\<lambda>p. \<not> pl_pending p) dup;
          q = complete_all now (map item_id done) (wo_queue out);
          k = (wo_stats out)\<lparr>ws_duplicates := length done, ws_written := length done\<rparr>
      in case bindR (new_item_samples (wx_rt wx) ts fresh) (\<lambda>samples.
              bindR (persist_samples_and_receipts (wx_rt wx) (wx_persist wx) fresh samples ts) (\<lambda>ts'.
                Inr (ts', length samples))) of
           Inl e \<Rightarrow>
             out\<lparr>wo_queue := retry_all now (clock + seconds 30) ''timescale_error'' (wx_exc_text wx e)
                   (map item_id fresh) q,
                 wo_stats := k\<lparr>ws_retried := length fresh\<rparr>\<rparr>
         | Inr (ts', n) \<Rightarrow>
             write_events wx now clock (fresh @ pending)
               (out\<lparr>wo_queue := q, wo_ts := ts', wo_stats := k\<lparr>ws_inserted := n\<rparr>,
                    wo_persisted := map (\<lambda>p. rq_key (pl_row p)) fresh\<rparr>))"

definition run_writer_once :: "writer_env \<Rightarrow> bool \<Rightarrow> string \<Rightarrow> int \<Rightarrow> nat \<Rightarrow> int list option \<Rightarrow> instant \<Rightarrow>
    instant \<Rightarrow> queue_db \<Rightarrow> ts_db \<Rightarrow> writer_out" where
  "run_writer_once wx enabled w ttl n parts now clock q ts =
     (let out = \<lparr>wo_queue = q, wo_ts = ts, wo_stats = zero_writer_stats, wo_error = None,
                wo_persisted = [], wo_events = []\<rparr>
      in if \<not> enabled then out
         else let (q1, rows) = claim_results now [] w ttl n parts q;
                  out1 = out\<lparr>wo_queue := q1, wo_stats := zero_writer_stats\<lparr>ws_claimed := length rows\<rparr>\<rparr>
              in if rows = [] then out1
                 else case mapR (result_payload (wx_rt wx)) rows of
                     Inl e \<Rightarrow> out1\<lparr>wo_error := Some e\<rparr>
                   | Inr ps \<Rightarrow> write_payloads wx now clock ps out1)"

subsection \<open>Receipts\<close>

definition receipt_keys :: "ts_db \<Rightarrow> string set" where
  "receipt_keys ts = rc_key ` set (ts_receipts ts)"

abbreviation item_key :: "payload \<Rightarrow> string" where
  "item_key p \<equiv> rq_key (pl_row p)"

lemma receipt_exists_keys: "receipt_exists ts k \<longleftrightarrow> k \<in> receipt_keys ts"
  by (simp add: receipt_exists_def receipt_keys_def)

lemma keys_fold_insert_absent:
  "key ` set (fold (\<lambda>x. insert_absent key (f x)) xs d) = (key \<circ> f) ` set xs \<union> key ` set d"
  by (induction xs arbitrary: d) (auto simp: keys_insert_absent)

lemma persist_keys:
  "persist_samples_and_receipts rt failure ps samples ts = Inr ts' \<Longrightarrow>
     receipt_keys ts' = item_key ` set ps \<union> receipt_keys ts"
proof -
  assume "persist_samples_and_receipts rt failure ps samples ts = Inr ts'"
  then have "ts_receipts ts' = fold (\<lambda>p. insert_absent rc_key (receipt_of rt p)) ps (ts_receipts ts)"
    by (auto simp: persist_samples_and_receipts_def bindR_eq_Inr split: option.splits)
  moreover have "rc_key \<circ> receipt_of rt = item_key"
    by (rule ext) (simp add: receipt_of_def)
  ultimately show ?thesis by (simp add: receipt_keys_def keys_fold_insert_absent)
qed

lemma claimed_keys_distinct:
  assumes "distinct (map rq_key (results q))" "claim_results now lk w ttl n parts q = (q1, rows)"
  shows "distinct (map rq_key rows)"
proof -
  obtain P where rows: "rows = map (grant_result w ttl now) (take n (sort_key result_order (filter P (results q))))"
    using assms(2) by (auto simp: claim_results_def claim_rows_def Let_def)
  have "distinct (map rq_key (sort_key result_order (filter P (results q))))"
    using distinct_map_filter [OF assms(1), of P]
    by (metis mset_map mset_sort mset_eq_imp_distinct_iff)
  moreover have "map rq_key rows = take n (map rq_key (sort_key result_order (filter P (results q))))"
    by (simp add: rows grant_result_def o_def take_map)
  ultimately show ?thesis by simp
qed

lemma payload_keys:
  "mapR (result_payload rt) rows = Inr ps \<Longrightarrow> map item_key ps = map rq_key rows"
  by (erule mapR_map) (auto simp: result_payload_def bindR_eq_Inr)

lemma write_events_keeps:
  "wo_ts (write_events wx now clock items out) = wo_ts out"
  "wo_persisted (write_events wx now clock items out) = wo_persisted out"
  by (simp_all add: write_events_def Let_def split: sum.split option.split)

lemma write_payloads_persisted:
  assumes "wo_persisted out = []"
  shows "wo_persisted (write_payloads wx now clock ps out) = [] \<and>
      wo_ts (write_payloads wx now clock ps out) = wo_ts out \<or>
    wo_persisted (write_payloads wx now clock ps out) =
      map item_key (filter (\<lambda>p. \<not> receipt_exists (wo_ts out) (item_key p)) ps) \<and>
    receipt_keys (wo_ts (write_payloads wx now clock ps out)) =
      set (wo_persisted (write_payloads wx now clock ps out)) \<union> receipt_keys (wo_ts out)"
  using assms
  by (auto simp: write_payloads_def Let_def write_events_keeps bindR_eq_Inr dest!: persist_keys
      split: sum.splits prod.splits)

lemma run_persisted:
  assumes "distinct (map rq_key (results q))"
    and out: "out = run_writer_once wx enabled w ttl n parts now clock q ts"
  shows "distinct (wo_persisted out) \<and> set (wo_persisted out) \<inter> receipt_keys ts = {} \<and>
    receipt_keys (wo_ts out) = set (wo_persisted out) \<union> receipt_keys ts"
proof -
  obtain q1 rows where c: "claim_results now [] w ttl n parts q = (q1, rows)" by fastforce
  show ?thesis
  proof (cases "enabled \<and> rows \<noteq> [] \<and> is_ok (mapR (result_payload (wx_rt wx)) rows)")
    case False
    then show ?thesis
      using c by (auto simp: out run_writer_once_def Let_def is_ok_def split: sum.splits)
  next
    case True
    then obtain ps where ps: "mapR (result_payload (wx_rt wx)) rows = Inr ps"
      by (auto simp: is_ok_def split: sum.splits)
    have dist: "distinct (map item_key ps)"
      using claimed_keys_distinct [OF assms(1) c] payload_keys [OF ps] by simp
    let ?o = "\<lparr>wo_queue = q1, wo_ts = ts,
      wo_stats = zero_writer_stats\<lparr>ws_claimed := length rows\<rparr>, wo_error = None,
      wo_persisted = [], wo_events = []\<rparr>"
    have o: "out = write_payloads wx now clock ps ?o"
      using True c ps by (simp add: out run_writer_once_def Let_def)
    show ?thesis
      using write_payloads_persisted [of ?o wx now clock ps] distinct_map_filter [OF dist]
      unfolding o by (auto simp: receipt_exists_keys)
  qed
qed

text \<open>
  Any number of runs, by any writers, over any states of the queue in which keys are unique, with
  any failures; the list collects the keys whose samples were stored.
\<close>

inductive writer_history :: "ts_db \<Rightarrow> ts_db \<Rightarrow> string list \<Rightarrow> bool"
  for ts0 where
  none_yet: "writer_history ts0 ts0 []"
| one_more: "writer_history ts0 ts ks \<Longrightarrow> distinct (map rq_key (results q)) \<Longrightarrow>
    out = run_writer_once wx enabled w ttl n parts now clock q ts \<Longrightarrow>
    writer_history ts0 (wo_ts out) (ks @ wo_persisted out)"

lemma history_once:
  "writer_history ts0 ts ks \<Longrightarrow>
     distinct ks \<and> set ks \<inter> receipt_keys ts0 = {} \<and> receipt_keys ts = set ks \<union> receipt_keys ts0"
proof (induction rule: writer_history.induct)
  case none_yet
  then show ?case by simp
next
  case (one_more ts ks q out wx enabled w ttl n parts now clock)
  with run_persisted [OF one_more.hyps(2,3)] show ?case by auto
qed

subsection \<open>Queue states after a run\<close>

lemma complete_all_results:
  "results (complete_all now ids q) =
     update_where (\<lambda>r. rq_id r \<in> set ids) (unlease_result now R_written) (results q)"
proof (induction ids arbitrary: q)
  case Nil
  then show ?case by (simp add: complete_all_def update_where_none)
next
  case (Cons i ids)
  have "complete_all now (i # ids) q = complete_all now ids (complete_result now i q)"
    by (simp add: complete_all_def)
  with Cons.IH show ?case
    by (simp add: complete_result_def on_result_def update_where_def unlease_result_def)
qed

lemma retry_all_results:
  "results (retry_all now at_time code msg ids q) =
     update_where (\<lambda>r. rq_id r \<in> set ids) (\<lambda>r. (unlease_result now R_retry_wait r)
       \<lparr>rq_received := at_time, rq_error_code := Some code, rq_error_message := Some msg\<rparr>) (results q)"
proof (induction ids arbitrary: q)
  case Nil
  then show ?case by (simp add: retry_all_def update_where_none)
next
  case (Cons i ids)
  have "retry_all now at_time code msg (i # ids) q =
      retry_all now at_time code msg ids (retry_result now i at_time (Some code) (Some msg) q)"
    by (simp add: retry_all_def)
  with Cons.IH show ?case
    by (simp add: retry_result_def on_result_def update_where_def unlease_result_def)
qed

lemma all_rows_written:
  assumes "map rq_id rows = map item_id ps" "set (map item_id ps) \<subseteq> rq_id ` set (results q1)"
  shows "\<forall>r \<in> set rows. \<exists>r' \<in> set (results (complete_all now (map item_id ps) q1)).
    rq_id r' = rq_id r \<and> rq_status r' = R_written"
proof
  fix r assume "r \<in> set rows"
  then have i: "rq_id r \<in> set (map item_id ps)" using assms(1) by (metis image_eqI set_map)
  with assms(2) obtain r0 where "r0 \<in> set (results q1)" "rq_id r0 = rq_id r" by auto
  with i show "\<exists>r' \<in> set (results (complete_all now (map item_id ps) q1)).
      rq_id r' = rq_id r \<and> rq_status r' = R_written"
    unfolding complete_all_results set_update_where
    by (intro bexI [of _ "unlease_result now R_written r0"]) (auto simp: unlease_result_def)
qed

lemma complete_all_append: "complete_all now (xs @ ys) q = complete_all now ys (complete_all now xs q)"
  by (simp add: complete_all_def)

lemma complete_all_perm:
  "set xs = set ys \<Longrightarrow> results (complete_all now xs q) = results (complete_all now ys q)"
  by (simp add: complete_all_results)

text \<open>When everything claimed is counted as written, the items completed are all of them.\<close>

lemma write_payloads_written:
  assumes "ws_written (wo_stats (write_payloads wx now clock ps out)) = length ps"
  shows "results (wo_queue (write_payloads wx now clock ps out)) =
    results (complete_all now (map item_id ps) (wo_queue out))"
proof -
  define dup where "dup = filter (\<lambda>p. receipt_exists (wo_ts out) (item_key p)) ps"
  define fresh where "fresh = filter (\<lambda>p. \<not> receipt_exists (wo_ts out) (item_key p)) ps"
  define pend where "pend = filter pl_pending dup"
  define fin where "fin = filter (\<lambda>p. \<not> pl_pending p) dup"
  have split: "set fin \<union> (set fresh \<union> set pend) = set ps"
    by (auto simp: dup_def fresh_def pend_def fin_def)
  have len: "length ps = length fresh + (length pend + length fin)"
    unfolding fresh_def fin_def pend_def dup_def
    using sum_length_filter_compl [of "\<lambda>p. receipt_exists (wo_ts out) (item_key p)" ps]
      sum_length_filter_compl [of pl_pending "filter (\<lambda>p. receipt_exists (wo_ts out) (item_key p)) ps"]
    by simp
  have every: "results (complete_all now (map item_id (fresh @ pend)) (complete_all now (map item_id fin) (wo_queue out)))
      = results (complete_all now (map item_id ps) (wo_queue out))"
    unfolding complete_all_append [symmetric]
    by (rule complete_all_perm) (simp add: image_Un [symmetric] split)
  have none: "results (complete_all now (map item_id fin) (wo_queue out)) =
      results (complete_all now (map item_id ps) (wo_queue out))" if "fresh = []" "pend = []"
    by (rule complete_all_perm) (use split that in \<open>simp add: image_Un [symmetric]\<close>)
  note names = dup_def [symmetric] fresh_def [symmetric] pend_def [symmetric] fin_def [symmetric]
  show ?thesis
    using assms every none len
    unfolding write_payloads_def Let_def names
    by (auto simp: write_events_def Let_def retry_all_def split: sum.splits option.splits prod.splits)
qed

lemma payload_ids: "mapR (result_payload rt) rows = Inr ps \<Longrightarrow> map item_id ps = map rq_id rows"
  by (erule mapR_map) (auto simp: result_payload_def bindR_eq_Inr item_id_def)

lemma claimed_in_results:
  assumes "claim_results now lk w ttl n parts q = (q1, rows)"
  shows "rq_id ` set rows \<subseteq> rq_id ` set (results q1)"
proof
  fix i assume "i \<in> rq_id ` set rows"
  then obtain r where r: "r \<in> set (results q)" "i = rq_id r"
    using assms
    by (auto simp: claim_results_def claim_rows_def Let_def grant_result_def dest!: in_set_takeD)
  have "map rq_id (results q1) = map rq_id (results q)"
    using assms by (auto simp: claim_results_def claim_rows_def Let_def grant_result_def
        update_where_def)
  with r show "i \<in> rq_id ` set (results q1)" by (metis image_eqI set_map)
qed

subsection \<open>Properties\<close>

text \<open>
  C11: every result's samples are stored at most once: over any number of runs by any writers,
  with failing databases and graph drivers, expired leases and retries in between, no
  idempotency key is stored twice or after its receipt exists, and every stored key has its
  receipt.
\<close>

theorem samples_stored_once:
  assumes "writer_history ts0 ts ks"
  shows "distinct ks \<and> set ks \<inter> receipt_keys ts0 = {} \<and> set ks \<subseteq> receipt_keys ts"
  using history_once [OF assms] by blast

definition demo_result_row :: result_row where
  "demo_result_row = result_row_of 0 \<lparr>nr_id = ''r1'', nr_task = ''t1'', nr_cycle = ''c'', nr_key = ''k1'',
     nr_protocol = ''SNMP'', nr_ci = ''n1'', nr_metric = ''cpu'', nr_observed = 5, nr_received = 5,
     nr_status = None, nr_priority = None, nr_partition = None,
     nr_envelope = [(''value'', PDict [(''numeric'', PInt 7)]), (''status'', PStr ''OK'')]\<rparr>"

definition demo_result_db :: queue_db where
  "demo_result_db = \<lparr>cycles = [], tasks = [], results = [demo_result_row]\<rparr>"

definition demo_icmp_settings :: icmp_settings where
  "demo_icmp_settings = \<lparr>is_latency_warning = Fin 100, is_latency_critical = Fin 200,
     is_jitter_warning = Fin 30, is_jitter_critical = Fin 60, is_loss_warning = Fin 10,
     is_loss_critical = Fin 50\<rparr>"

definition demo_wx :: writer_env where
  "demo_wx = \<lparr>wx_rt = demo_rt, wx_cfg = demo_icmp_settings, wx_persist = None, wx_events = None,
     wx_exc_text = (\<lambda>_. [])\<rparr>"

definition demo_out :: writer_out where
  "demo_out = run_writer_once demo_wx True ''w'' 60 10 None 6 6 demo_result_db \<lparr>ts_samples = [], ts_receipts = []\<rparr>"

theorem samples_stored_once_witness:
  "set [''k1''] \<subseteq> receipt_keys (wo_ts demo_out) \<and> wo_persisted demo_out = [''k1'']"
proof -
  let ?ts = "\<lparr>ts_samples = [], ts_receipts = []\<rparr>"
  have "distinct (map rq_key (results demo_result_db))" by (simp add: demo_result_db_def)
  from writer_history.one_more [OF writer_history.none_yet [of ?ts] this demo_out_def]
  have "writer_history ?ts (wo_ts demo_out) (wo_persisted demo_out)" by simp
  moreover have "wo_persisted demo_out = [''k1'']" by code_simp
  ultimately show ?thesis using samples_stored_once by metis
qed

text \<open>
  the statistics of a run can be trusted: when it reports everything it claimed as written,
  every claimed result is in the state \<open>written\<close>; and when storing the samples fails, nothing
  is stored and no event is written.
\<close>

theorem writer_outcome:
  assumes "claim_results now [] w ttl n parts q = (q1, rows)"
    and "out = run_writer_once wx True w ttl n parts now clock q ts" "wo_error out = None"
  shows "(ws_written (wo_stats out) = ws_claimed (wo_stats out) \<longrightarrow>
      (\<forall>r \<in> set rows. \<exists>r' \<in> set (results (wo_queue out)). rq_id r' = rq_id r \<and> rq_status r' = R_written)) \<and>
    (wx_persist wx \<noteq> None \<longrightarrow> wo_ts out = ts \<and> wo_persisted out = [] \<and> wo_events out = [])"
proof (cases "rows = []")
  case True
  with assms show ?thesis by (simp add: run_writer_once_def)
next
  case False
  let ?o = "\<lparr>wo_queue = q1, wo_ts = ts, wo_stats = zero_writer_stats\<lparr>ws_claimed := length rows\<rparr>,
    wo_error = None, wo_persisted = [], wo_events = []\<rparr>"
  obtain ps where ps: "mapR (result_payload (wx_rt wx)) rows = Inr ps"
    and o: "out = write_payloads wx now clock ps ?o"
    using assms False by (auto simp: run_writer_once_def Let_def split: sum.splits)
  have ids: "map item_id ps = map rq_id rows" by (rule payload_ids [OF ps])
  then have len: "length ps = length rows" by (metis length_map)
  have claimed: "ws_claimed (wo_stats out) = length rows"
    unfolding o write_payloads_def Let_def
    by (auto simp: write_events_def Let_def split: sum.splits option.splits prod.splits)
  have sub: "set (map item_id ps) \<subseteq> rq_id ` set (results q1)"
    using claimed_in_results [OF assms(1)] by (simp add: ids)
  have "\<forall>r \<in> set rows. \<exists>r' \<in> set (results (wo_queue out)). rq_id r' = rq_id r \<and> rq_status r' = R_written"
    if "ws_written (wo_stats out) = ws_claimed (wo_stats out)"
    using write_payloads_written [of wx now clock ps ?o] that all_rows_written [OF ids [symmetric] sub, of now]
    by (simp add: claimed len o [symmetric])
  moreover have "wo_ts out = ts \<and> wo_persisted out = [] \<and> wo_events out = []" if "wx_persist wx \<noteq> None"
    using that unfolding o write_payloads_def Let_def
    by (auto simp: persist_samples_and_receipts_def bindR_eq_Inr split: sum.splits)
  ultimately show ?thesis by blast
qed

theorem writer_outcome_witness:
  "\<exists>r' \<in> set (results (wo_queue demo_out)). rq_id r' = ''r1'' \<and> rq_status r' = R_written"
proof -
  obtain q1 rows where c: "claim_results 6 [] ''w'' 60 10 None demo_result_db = (q1, rows)" by fastforce
  have "map rq_id (snd (claim_results 6 [] ''w'' 60 10 None demo_result_db)) = [''r1'']"
    "ws_written (wo_stats demo_out) = ws_claimed (wo_stats demo_out)" "wo_error demo_out = None"
    by code_simp+
  with c writer_outcome [OF c demo_out_def] show ?thesis by auto
qed

definition demo_ping_down :: pydict where
  "demo_ping_down = [(''idempotency_key'', PStr ''k''), (''ci_id'', PStr ''n1''), (''metric_id'', PStr ''PING-CHECK''),
     (''protocol'', PStr ''ICMP''), (''status'', PStr ''CRITICAL''), (''observed_at'', PStr ''5''),
     (''value'', PDict [(''numeric'', PFloat (Fin 0))]),
     (''metadata'', PDict [(''metric_kind'', PStr ''availability''), (''availability_source'', PStr ''ICMP''),
        (''icmp'', PDict (icmp_metadata (ping_result False None)))])]"

definition demo_down_payload :: payload where
  "demo_down_payload = \<lparr>pl_row = demo_result_row, pl_envelope = demo_ping_down, pl_sample = None, pl_pending = False\<rparr>"

definition down_rows :: "event_row list result" where
  "down_rows = bindR (item_events demo_wx \<lparr>ts_samples = [], ts_receipts = []\<rparr> demo_down_payload)
     (\<lambda>evs. written_event_rows demo_rt (map snd evs))"

text \<open>
  a host that stops answering raises no availability event: the envelopes derived from an
  ICMP result keep its idempotency key, so that of the availability row and the packet loss row
  of one result only the packet loss row is left to be written.
\<close>

theorem availability_event_lost:
  "(case build_event_rows demo_rt [demo_ping_down] of
      Inr rows \<Rightarrow> map er_type rows = [Some ''AVAILABILITY''] | Inl _ \<Rightarrow> False) \<and>
   (case down_rows of
      Inr rows \<Rightarrow> map (\<lambda>r. (er_metric r, er_type r)) rows = [(''packet_loss_pct'', Some ''THRESHOLD_BREACH'')]
    | Inl _ \<Rightarrow> False)"
  by code_simp

end
