(* ===== verification/Cmdb_Bulk.thy ===== *)
theory Cmdb_Bulk
  imports Cmdb_Proposals
begin

section \<open>Bulk import of proposals (bulk_import_proposals)\<close>

text \<open>
  A CSV file of configuration items becomes one bulk proposal, or is refused as a whole with the
  errors of its rows. The file is a list of bytes; the UTF-8 decoder and the JSON parser are
  arguments. The CSV reader of the standard library (excel dialect, not strict) is written out
  below as the state machine it is.
\<close>

record bulk_env =
  be_env :: cmdb_env
  be_utf8 :: "string \<Rightarrow> string option"
  be_json :: "string \<Rightarrow> pyval option"
  be_max_bytes :: nat
  be_max_rows :: nat

subsection \<open>The CSV reader\<close>

datatype csv_state =
    Start_record | Start_field | In_field | In_quoted_field | Quote_in_quoted_field | Eat_crnl

datatype csv_char = Ch char | Eol

text \<open>Reader state: what it is in, the finished fields of the record and the field begun.\<close>

type_synonym csv_reader = "csv_state \<times> string list \<times> string"

definition csv_field_limit :: int where
  "csv_field_limit = 131072"

definition add_char :: "csv_state \<Rightarrow> string list \<Rightarrow> string \<Rightarrow> char \<Rightarrow> csv_reader option" where
  "add_char st fs f c = (if int (length f) \<ge> csv_field_limit then None else Some (st, fs, f @ [c]))"

definition is_newline :: "char \<Rightarrow> bool" where
  "is_newline c = (c = CHR 0x0A \<or> c = CHR 0x0D)"

fun csv_step :: "csv_reader \<Rightarrow> csv_char \<Rightarrow> csv_reader option" where
  "csv_step (Start_record, fs, f) Eol = Some (Start_record, fs, f)"
| "csv_step (Start_field, fs, f) Eol = Some (Start_record, fs @ [f], [])"
| "csv_step (In_field, fs, f) Eol = Some (Start_record, fs @ [f], [])"
| "csv_step (In_quoted_field, fs, f) Eol = Some (In_quoted_field, fs, f)"
| "csv_step (Quote_in_quoted_field, fs, f) Eol = Some (Start_record, fs @ [f], [])"
| "csv_step (Eat_crnl, fs, f) Eol = Some (Start_record, fs, f)"
| "csv_step (In_quoted_field, fs, f) (Ch c) =
     (if c = CHR 0x22 then Some (Quote_in_quoted_field, fs, f) else add_char In_quoted_field fs f c)"
| "csv_step (Quote_in_quoted_field, fs, f) (Ch c) =
     (if c = CHR 0x22 then add_char In_quoted_field fs f c
      else if c = CHR '','' then Some (Start_field, fs @ [f], [])
      else if is_newline c then Some (Eat_crnl, fs @ [f], [])
      else add_char In_field fs f c)"
| "csv_step (Eat_crnl, fs, f) (Ch c) = (if is_newline c then Some (Eat_crnl, fs, f) else None)"
| "csv_step (In_field, fs, f) (Ch c) =
     (if is_newline c then Some (Eat_crnl, fs @ [f], [])
      else if c = CHR '','' then Some (Start_field, fs @ [f], [])
      else add_char In_field fs f c)"
| "csv_step (st, fs, f) (Ch c) =
     (if is_newline c then Some (Eat_crnl, if st = Start_record then fs else fs @ [f], [])
      else if c = CHR 0x22 then Some (In_quoted_field, fs, f)
      else if c = CHR '','' then Some (Start_field, fs @ [f], [])
      else add_char In_field fs f c)"

text \<open>The lines of the text, each with its line end, and the events the reader sees.\<close>

fun csv_events :: "string \<Rightarrow> csv_char list" where
  "csv_events [] = []"
| "csv_events [c] = [Ch c, Eol]"
| "csv_events (c # d # s) = Ch c # (if c = CHR 0x0A then Eol # csv_events (d # s) else csv_events (d # s))"

text \<open>\<open>None\<close> is \<open>csv.Error\<close>; at the end of the input an unfinished field is still a field.\<close>

fun csv_rows :: "csv_reader \<Rightarrow> csv_char list \<Rightarrow> string list list option" where
  "csv_rows (st, fs, f) [] =
     Some (if f \<noteq> [] \<or> st = In_quoted_field then [fs @ [f]] else [])"
| "csv_rows r (c # cs) =
     (case csv_step r c of None \<Rightarrow> None
      | Some (st, fs, f) \<Rightarrow>
          if c = Eol \<and> st = Start_record
          then map_option (Cons fs) (csv_rows (Start_record, [], []) cs)
          else csv_rows (st, fs, f) cs)"

definition parse_csv :: "string \<Rightarrow> string list list option" where
  "parse_csv text = csv_rows (Start_record, [], []) (csv_events text)"

text \<open>
  \<open>csv.DictReader\<close>: the first record names the columns, blank records are skipped, missing cells
  are \<open>None\<close>. Surplus cells go under the key \<open>None\<close>, which nothing reads.
\<close>

type_synonym csv_row = "(string \<times> string option) list"

definition dict_row :: "string list \<Rightarrow> string list \<Rightarrow> csv_row" where
  "dict_row names cells =
     fold (\<lambda>k. AList.update k None) (drop (length cells) names)
       (fold (\<lambda>(k, v). AList.update k (Some v)) (zip names cells) [])"

definition dict_reader :: "string list list \<Rightarrow> csv_row list" where
  "dict_reader recs =
     (case recs of [] \<Rightarrow> [] | names # rest \<Rightarrow> map (dict_row names) (filter (\<lambda>r. r \<noteq> []) rest))"

subsection \<open>Checks of the file\<close>

definition bom :: string where
  "bom = [CHR 0xEF, CHR 0xBB, CHR 0xBF]"

definition strip_bom :: "string \<Rightarrow> string" where
  "strip_bom bytes = (if starts_with bom bytes then drop 3 bytes else bytes)"

definition control_char :: "char \<Rightarrow> bool" where
  "control_char c =
     (c \<notin> {CHR 0x0A, CHR 0x0D, CHR 0x09} \<and> ((of_char c :: nat) < 32 \<or> (of_char c :: nat) = 127))"

definition looks_like_csv :: "bulk_env \<Rightarrow> string \<Rightarrow> bool" where
  "looks_like_csv b bytes =
     (bytes \<noteq> [] \<and>
      (let sample = strip_bom (take 4096 bytes)
       in sample \<noteq> [] \<and> (case be_utf8 b sample of None \<Rightarrow> False | Some text \<Rightarrow> list_all (\<lambda>c. \<not> control_char c) text)))"

text \<open>A short file is its own sample, which evaluates faster.\<close>

lemma looks_like_csv_short [code]:
  "looks_like_csv b bytes =
     (bytes \<noteq> [] \<and>
      (let sample = strip_bom (if int (length bytes) \<le> 4096 then bytes else take 4096 bytes)
       in sample \<noteq> [] \<and> (case be_utf8 b sample of None \<Rightarrow> False | Some text \<Rightarrow> list_all (\<lambda>c. \<not> control_char c) text)))"
  by (simp add: looks_like_csv_def)

definition bulk_secret_denylist :: "string list" where
  "bulk_secret_denylist = [''authkey'', ''privkey'', ''key'', ''token'', ''secret'', ''password'']"

definition allowed_snmp_columns :: "string list" where
  "allowed_snmp_columns = [''snmp_community'', ''snmp_read'', ''snmp_write'', ''snmp_version'', ''snmp_port'', ''community'']"

text \<open>
  The matching deny-list token; which one of several is reported depends on the order in which
  the set is enumerated, here the order of the list.
\<close>

definition secret_column_match :: "string \<Rightarrow> string option" where
  "secret_column_match col =
     (if col = '''' then None
      else
        let low = map (\<lambda>c. if c = CHR ''-'' then CHR ''_'' else c) (lower col);
            leaf = last (split_on (CHR ''.'') low)
        in if low \<in> set allowed_snmp_columns then None
           else if leaf \<in> set bulk_secret_denylist then Some leaf
           else find (\<lambda>t. contains t low) bulk_secret_denylist)"

definition csv_injection_risk :: "string \<Rightarrow> bool" where
  "csv_injection_risk cell = (case cell of [] \<Rightarrow> False | c # _ \<Rightarrow> c \<in> set ''=+-@'')"

subsection \<open>One row\<close>

text \<open>\<open>raw.get(a) or raw.get(b) or ... or dflt\<close>\<close>

fun cell :: "csv_row \<Rightarrow> string list \<Rightarrow> string \<Rightarrow> string" where
  "cell raw [] dflt = dflt"
| "cell raw (k # ks) dflt =
     (case map_of raw k of Some (Some s) \<Rightarrow> if s = '''' then cell raw ks dflt else s | _ \<Rightarrow> cell raw ks dflt)"

definition or_text :: "string \<Rightarrow> string \<Rightarrow> string" where
  "or_text a dflt = (if a = '''' then dflt else a)"

definition or_none :: "string \<Rightarrow> string option" where
  "or_none a = (if a = '''' then None else Some a)"

definition row_id :: "csv_row \<Rightarrow> string" where
  "row_id raw =
     (let i = strip (cell raw [''id'', ''ID''] '''')
      in if starts_with ''('' i \<and> contains ''Auto-ID'' i then '''' else i)"

definition row_label :: "csv_row \<Rightarrow> string" where
  "row_label raw = strip (cell raw [''label'', ''Label''] '''')"

definition row_category :: "string option \<Rightarrow> csv_row \<Rightarrow> string" where
  "row_category dflt raw =
     or_text (strip (cell raw [''category'', ''NetworkLayer'', ''Category''] '''')) (strip (text_or_empty dflt))"

definition row_owner :: "string option \<Rightarrow> csv_row \<Rightarrow> string" where
  "row_owner dflt raw = or_text (strip (cell raw [''owner'', ''Owner''] '''')) (strip (text_or_empty dflt))"

definition row_status :: "csv_row \<Rightarrow> string" where
  "row_status raw =
     (let s = or_text (strip (cell raw [''status'', ''OperationalStatus''] '''')) ''OK''
      in if upper s \<in> {''ACTIVE'', ''UP'', ''ONLINE''} then ''OK'' else s)"

definition row_snmp :: "csv_row \<Rightarrow> pyval" where
  "row_snmp raw =
     (let comm = strip (cell raw [''snmp_community'', ''SNMP_Read'', ''SNMP_Community'', ''community''] '''');
          ver = strip (cell raw [''snmp_version'', ''SNMP_Version''] ''v2c'');
          port = strip (cell raw [''snmp_port'', ''SNMP_Port''] ''161'')
      in if comm = '''' then PNone
         else PDict [(''version'', PStr ver), (''community'', PStr comm),
                     (''port'', PInt (case parse_int port of None \<Rightarrow> 161 | Some n \<Rightarrow> n))])"

definition row_location :: "csv_row \<Rightarrow> pydict option" where
  "row_location raw =
     (let lat = strip (cell raw [''Latitude'', ''latitude''] '''');
          lon = strip (cell raw [''Longitude'', ''longitude''] '''')
      in if lat = '''' \<or> lon = '''' then None
         else case (parse_float lat, parse_float lon) of
           (Some a, Some b) \<Rightarrow> Some [(''lat'', PFloat a), (''long'', PFloat b)] | _ \<Rightarrow> None)"

definition row_secret :: "csv_row \<Rightarrow> (string \<times> string) option" where
  "row_secret raw =
     (case find (\<lambda>(k, v). (case v of None \<Rightarrow> False | Some s \<Rightarrow> s \<noteq> '''') \<and> secret_column_match k \<noteq> None) raw of
        None \<Rightarrow> None
      | Some (k, _) \<Rightarrow> (case secret_column_match k of None \<Rightarrow> None | Some t \<Rightarrow> Some (k, t)))"

definition quoted :: "string \<Rightarrow> string" where
  "quoted s = [CHR 0x27] @ s @ [CHR 0x27]"

definition injection_errors :: "(string \<times> string) list \<Rightarrow> string list" where
  "injection_errors parts =
     map (\<lambda>(name, v). name @ '' starts with '' @ quoted (take 1 v) @ '' (CSV-injection risk)'')
       (filter (\<lambda>(name, v). csv_injection_risk v) parts)"

definition secret_error :: "string \<Rightarrow> string \<Rightarrow> string" where
  "secret_error col token =
     ''column '' @ quoted col @ '' matches secret deny-list ('' @ quoted token @ ''); use '' @ quoted ''<field>_ref''
       @ '' with a secret:// URL instead''"

text \<open>The errors of a row before its metadata is read; \<open>seen\<close> are the ids of earlier rows.\<close>

definition row_errors :: "bulk_env \<Rightarrow> cmdb \<Rightarrow> string option \<Rightarrow> string list \<Rightarrow> csv_row \<Rightarrow> string list" where
  "row_errors b db dflt seen_ids raw =
     (let i = row_id raw; l = row_label raw; c = row_category dflt raw;
          names = (case resolve_category (be_env b) db of None \<Rightarrow> [] | Some ns \<Rightarrow> ns)
      in (if i = '''' then [''missing id''] else []) @
         (if l = '''' then [''missing label''] else []) @
         (if c = '''' then [''missing category (column empty and no default_category provided)''] else []) @
         injection_errors [(''id'', i), (''label'', l), (''category'', c)] @
         (case row_secret raw of None \<Rightarrow> []
          | Some (k, t) \<Rightarrow> [secret_error k t]) @
         (if i \<noteq> '''' \<and> i \<in> set seen_ids then [''duplicate id '' @ quoted i @ '' inside the file'']
          else if i \<noteq> '''' \<and> ci_id_exists (be_env b) db i
          then [''id '' @ quoted i @ '' collides with an existing :CI'']
          else []) @
         (if c \<noteq> '''' \<and> c \<notin> set names
          then [''category '' @ quoted c @ '' does not exist (live :Category required)''] else []))"

definition row_metadata :: "bulk_env \<Rightarrow> string option \<Rightarrow> csv_row \<Rightarrow> pydict option" where
  "row_metadata b dflt_owner raw =
     (let o' = row_owner dflt_owner raw;
          loc = strip (cell raw [''location_name'', ''Location''] '''');
          base = (if o' = '''' then [] else [(''owner'', PStr o')]) @
                 (if loc = '''' then [] else [(''location_name'', PStr loc)])
      in case map_of raw ''metadata_json'' of
           Some (Some t) \<Rightarrow>
             (if t = '''' then Some base
              else case be_json b t of None \<Rightarrow> None
                | Some (PDict extra) \<Rightarrow> Some (merge_dict base extra) | Some _ \<Rightarrow> Some base)
         | _ \<Rightarrow> Some base)"

definition row_node :: "string option \<Rightarrow> pydict \<Rightarrow> csv_row \<Rightarrow> node" where
  "row_node dflt meta raw =
     \<lparr>nd_id = row_id raw, nd_label = row_label raw, nd_type = row_category dflt raw,
      nd_status = Some (row_status raw), nd_ip = or_none (strip (cell raw [''ip'', ''IP''] '''')),
      nd_public_ip = None, nd_location = row_location raw,
      nd_metadata = (if meta = [] then None else Some meta), nd_owner = None,
      nd_location_name = or_none (strip (cell raw [''location_name'', ''Location''] '''')),
      nd_polling = Some 60, nd_snmp = row_snmp raw,
      nd_brand = or_none (strip (cell raw [''brand'', ''Brand''] '''')),
      nd_model = or_none (strip (cell raw [''model'', ''Model''] '''')),
      nd_serial = or_none (strip (cell raw [''serialNumber'', ''SerialNumber''] '''')),
      nd_firmware = or_none (strip (cell raw [''firmwareVersion'', ''Firmware''] '''')),
      nd_metrics = Some (PList [])\<rparr>"

text \<open>The rows in order: the errors by row number (the header is row 1), the ids seen, the nodes.\<close>

record bulk_scan =
  bs_errors :: "(nat \<times> string list) list"
  bs_seen :: "string list"
  bs_nodes :: "node list"

definition scan_row ::
  "bulk_env \<Rightarrow> cmdb \<Rightarrow> string option \<Rightarrow> string option \<Rightarrow> nat \<times> csv_row \<Rightarrow> bulk_scan \<Rightarrow> bulk_scan" where
  "scan_row b db dcat downer r s =
     (let errs = row_errors b db dcat (bs_seen s) (snd r)
      in if errs \<noteq> [] then s\<lparr>bs_errors := bs_errors s @ [(fst r, errs)]\<rparr>
         else
           let s1 = s\<lparr>bs_seen := row_id (snd r) # bs_seen s\<rparr>
           in case row_metadata b downer (snd r) of
                None \<Rightarrow> s1\<lparr>bs_errors := bs_errors s @ [(fst r, [''metadata_json is not valid JSON''])]\<rparr>
              | Some meta \<Rightarrow> s1\<lparr>bs_nodes := bs_nodes s @ [row_node dcat meta (snd r)]\<rparr>)"

definition scan_rows ::
  "bulk_env \<Rightarrow> cmdb \<Rightarrow> string option \<Rightarrow> string option \<Rightarrow> csv_row list \<Rightarrow> bulk_scan" where
  "scan_rows b db dcat downer rows =
     fold (scan_row b db dcat downer) (zip [2..<2 + length rows] rows) \<lparr>bs_errors = [], bs_seen = [], bs_nodes = []\<rparr>"

subsection \<open>The import\<close>

definition dump_node_compact :: "node \<Rightarrow> pydict" where
  "dump_node_compact n = filter (\<lambda>(k, v). v \<noteq> PNone) (dump_node n)"

definition bulk_manifest :: "string \<Rightarrow> node list \<Rightarrow> pydict" where
  "bulk_manifest who ns =
     [(''schema_version'', PInt 1), (''cis'', PList (map (\<lambda>n. PDict (dump_node_compact n)) ns)),
      (''mode'', PStr ''bulk''),
      (''rationale'', PStr (''Bulk CSV import: '' @ show_nat (length ns) @ '' CI(s) by '' @ who)),
      (''source_refs'', PList [PStr (''csv:upload:'' @ who)])]"

definition error_rows :: "(nat \<times> string list) list \<Rightarrow> pyval" where
  "error_rows es =
     PList (map (\<lambda>(i, ms). PDict [(''row'', PInt (int i)), (''errors'', PList (map PStr ms))]) es)"

definition bulk_import ::
  "bulk_env \<Rightarrow> int \<Rightarrow> instant \<Rightarrow> string \<Rightarrow> string \<Rightarrow> string option \<Rightarrow> string option \<Rightarrow> account \<Rightarrow> bool \<Rightarrow> cmdb \<Rightarrow>
     (api_error + create_answer) \<times> cmdb" where
  "bulk_import b tick now pid bytes dcat downer u dry db =
     (let e = be_env b
      in if \<not> check_permission ''CI_BULK_IMPORT'' u
         then (Inl (missing_permission ''CI_BULK_IMPORT required to bulk-import CIs''), db)
         else if length bytes > be_max_bytes b
         then (Inl (Api 413 (detail ''file_too_large'' @
                 [(''bytes'', PInt (int (length bytes))), (''max_bytes'', PInt (int (be_max_bytes b)))])), db)
         else if \<not> looks_like_csv b bytes then (Inl (Api 415 (detail ''not_a_csv'')), db)
         else case (case be_utf8 b (strip_bom bytes) of None \<Rightarrow> None | Some text \<Rightarrow> parse_csv text) of
           None \<Rightarrow> (Inl (Api 422 (detail ''csv_parse_failed'')), db)
         | Some recs \<Rightarrow>
             let rows = dict_reader recs; sc = scan_rows b db dcat downer rows
             in if rows = [] then (Inl (Api 422 (detail ''empty_csv'')), db)
                else if length rows > be_max_rows b
                then (Inl (Api 413 (detail ''too_many_rows'' @
                        [(''rows'', PInt (int (length rows))), (''max_rows'', PInt (int (be_max_rows b)))])), db)
                else if bs_errors sc \<noteq> []
                then (Inl (Api 422 (detail ''bulk_validation_failed'' @ [(''errors'', error_rows (bs_errors sc))])), db)
                else
                  let ns = bs_nodes sc; m = bulk_manifest (ac_name u) ns; role = role_or u ''OPERATOR'';
                      name = ''bulk:'' @ show_nat (length ns)
                  in if validate_manifest e m = None then (Inl (Api 422 (detail ''invalid_manifest'')), db)
                     else
                       let (g, gs) = check_all_guards (ce_guard e) tick now (ac_name u) ''propose_ci''
                              [''ci_proposal:bulk''] (cm_guard db);
                           db1 = db\<lparr>cm_guard := gs\<rparr>
                       in if \<not> gr_allowed g
                          then (Inr (Harness_denied (reason_text g) (reason_code g)),
                                log_operation e tick now role (ac_name u) ''ci_proposal:bulk'' name ''blocked'' (gr_reason g) db1)
                          else if dry then (Inr (Preview (length ns) (sort (remdups (map nd_type ns))) m), db1)
                          else drafted e tick now pid u (ac_name u) role name m
                                 (Some (nd_type (hd ns))) (Some (nd_id (hd ns))) (Some ''bulk'') (Some (length ns))
                                 ''proposal_created_bulk_csv'' db1)"

end
