(* ===== verification/Cmdb_Properties.thy ===== *)
theory Cmdb_Properties
  imports Cmdb_Bulk
begin

section \<open>What the proposal service guarantees\<close>

text \<open>
  The requests the service answers, with the identifier a new proposal gets, and runs of them. Each
  request meets its own environment, so that calls may fail in one and work in the next, and its
  own instants.
\<close>

datatype cmdb_request =
    Propose string pydict account string
  | Import string string "string option" "string option" account bool
  | Approve string int account "string option"
  | Revoke string int account "string option" "string option"
  | Sweep int

fun cmdb_step :: "bulk_env \<Rightarrow> int \<Rightarrow> instant \<Rightarrow> cmdb_request \<Rightarrow> cmdb \<Rightarrow> cmdb" where
  "cmdb_step b tick now (Propose pid raw u agent) db = snd (create_proposal (be_env b) tick now pid raw u agent db)"
| "cmdb_step b tick now (Import pid bytes dcat downer u dry) db =
     snd (bulk_import b tick now pid bytes dcat downer u dry db)"
| "cmdb_step b tick now (Approve pid v u cat) db = snd (approve_proposal (be_env b) now pid v u cat db)"
| "cmdb_step b tick now (Revoke pid v u why role) db = snd (revoke_proposal (be_env b) now pid v u why role db)"
| "cmdb_step b tick now (Sweep days) db = sweep_main (be_env b) now days db"

fun cmdb_run :: "(bulk_env \<times> int \<times> instant \<times> cmdb_request) list \<Rightarrow> cmdb \<Rightarrow> cmdb" where
  "cmdb_run [] db = db"
| "cmdb_run ((b, tick, now, r) # rs) db = cmdb_run rs (cmdb_step b tick now r db)"

text \<open>
  A small environment for the examples: node and manifest objects are read field by field, a text
  is its own encoding, and nothing fails.
\<close>

definition demo_node :: "pydict \<Rightarrow> node option" where
  "demo_node d =
     (case (get d ''id'', get d ''label'', get d ''type'') of
        (PStr i, PStr l, PStr t) \<Rightarrow>
          Some \<lparr>nd_id = i, nd_label = l, nd_type = t, nd_status = Some ''OK'',
            nd_ip = (case get d ''ip'' of PStr a \<Rightarrow> Some a | _ \<Rightarrow> None), nd_public_ip = None, nd_location = None,
            nd_metadata = (case get d ''metadata'' of PDict m \<Rightarrow> Some m | _ \<Rightarrow> None), nd_owner = None,
            nd_location_name = None, nd_polling = Some 60, nd_snmp = get d ''snmp'', nd_brand = None,
            nd_model = None, nd_serial = None, nd_firmware = None, nd_metrics = Some (PList [])\<rparr>
      | _ \<Rightarrow> None)"

fun demo_nodes :: "pyval list \<Rightarrow> node list" where
  "demo_nodes [] = []"
| "demo_nodes (PDict d # vs) = (case demo_node d of None \<Rightarrow> demo_nodes vs | Some n \<Rightarrow> n # demo_nodes vs)"
| "demo_nodes (v # vs) = demo_nodes vs"

definition demo_manifest :: "pydict \<Rightarrow> manifest option" where
  "demo_manifest d =
     Some \<lparr>mf_schema_version = 1, mf_ci = (case get d ''ci'' of PDict c \<Rightarrow> demo_node c | _ \<Rightarrow> None),
       mf_cis = (case get d ''cis'' of PList vs \<Rightarrow> Some (demo_nodes vs) | _ \<Rightarrow> None),
       mf_mode = (if get d ''mode'' = PStr ''bulk'' then Bulk else Single), mf_rationale = '''', mf_source_refs = []\<rparr>"

definition demo_env :: cmdb_env where
  "demo_env = \<lparr>ce_rt = \<lparr>rt_fmt = (\<lambda>_. ''?''), rt_sha = id, rt_uuid5 = id, rt_iso = show_int, rt_parse_iso = (\<lambda>_. None)\<rparr>,
     ce_guard = default_guard_config, ce_manifest = demo_manifest, ce_node = demo_node, ce_valid_ip = (\<lambda>_. True),
     ce_catalog_fails = False, ce_lookup_fails = False, ce_log_fails = False, ce_audit_fails = False,
     ce_request = Some \<lparr>hr_path = Some ''/api/cmdb/proposals'', hr_method = Some ''POST'', hr_headers = [], hr_host = None\<rparr>, ce_write_fails = (\<lambda>_. False)\<rparr>"

definition demo_bulk :: bulk_env where
  "demo_bulk = \<lparr>be_env = demo_env, be_utf8 = Some, be_json = (\<lambda>_. None), be_max_bytes = 512, be_max_rows = 20\<rparr>"

definition demo_cmdb :: cmdb where
  "demo_cmdb = \<lparr>cm_items = [], cm_categories = [''router'', ''switch''], cm_owners = [], cm_models = [],
     cm_metric_links = [], cm_proposals = [], cm_guard = \<lparr>gs_cache = \<lparr>cl_entries = [], cl_last_sweep = 0\<rparr>, gs_log = []\<rparr>,
     cm_audit = []\<rparr>"

definition demo_admin :: account where
  "demo_admin = \<lparr>ac_name = ''ana'', ac_role = Some ''ADMIN'', ac_permissions = []\<rparr>"

definition demo_ci :: "string \<Rightarrow> string \<Rightarrow> pydict" where
  "demo_ci i t = [(''ci'', PDict [(''id'', PStr i), (''label'', PStr ''core''), (''category'', PStr t),
     (''ip'', PStr ''10.0.0.1''), (''snmp'', PDict [(''community'', PStr ''public''), (''port'', PInt 161)])])]"

definition demo_proposed :: cmdb where
  "demo_proposed = cmdb_run [(demo_bulk, 1, 1, Propose ''p1'' (demo_ci ''r1'' ''router'') demo_admin ''bot'')] demo_cmdb"

subsection \<open>A proposal moves forward only\<close>

text \<open>The ways an import can end: refused, denied by the guard, previewed, or drafted.\<close>

lemma bulk_import_cases:
  assumes "bulk_import b tick now pid bytes dcat downer u dry db = (r, db')"
  obtains (refused) err where "r = Inl err" "db' = db"
  | (accepted) recs g gs where
      "(case be_utf8 b (strip_bom bytes) of None \<Rightarrow> None | Some text \<Rightarrow> parse_csv text) = Some recs"
      "dict_reader recs \<noteq> []"
      "bs_errors (scan_rows b db dcat downer (dict_reader recs)) = []"
      "check_all_guards (ce_guard (be_env b)) tick now (ac_name u) ''propose_ci'' [''ci_proposal:bulk''] (cm_guard db)
         = (g, gs)"
      "let ns = bs_nodes (scan_rows b db dcat downer (dict_reader recs)); m = bulk_manifest (ac_name u) ns;
           name = ''bulk:'' @ show_nat (length ns)
       in (r, db') =
         (if \<not> gr_allowed g
          then (Inr (Harness_denied (reason_text g) (reason_code g)),
                log_operation (be_env b) tick now (role_or u ''OPERATOR'') (ac_name u) ''ci_proposal:bulk'' name
                  ''blocked'' (gr_reason g) (db\<lparr>cm_guard := gs\<rparr>))
          else if dry then (Inr (Preview (length ns) (sort (remdups (map nd_type ns))) m), db\<lparr>cm_guard := gs\<rparr>)
          else drafted (be_env b) tick now pid u (ac_name u) (role_or u ''OPERATOR'') name m
                 (Some (nd_type (hd ns))) (Some (nd_id (hd ns))) (Some ''bulk'') (Some (length ns))
                 ''proposal_created_bulk_csv'' (db\<lparr>cm_guard := gs\<rparr>))"
proof -
  obtain g gs where g: "check_all_guards (ce_guard (be_env b)) tick now (ac_name u) ''propose_ci''
      [''ci_proposal:bulk''] (cm_guard db) = (g, gs)" by force
  show thesis
  proof (cases "\<exists>err. r = Inl err \<and> db' = db")
    case True
    with refused show ?thesis by blast
  next
    case no: False
    show ?thesis
    proof (cases "case be_utf8 b (strip_bom bytes) of None \<Rightarrow> None | Some text \<Rightarrow> parse_csv text")
      case None
      with assms no show ?thesis by (auto simp: bulk_import_def Let_def split: if_splits)
    next
      case (Some recs)
      show ?thesis
        by (rule accepted [OF Some _ _ g])
           (use assms no Some g in \<open>auto simp: bulk_import_def Let_def split: if_splits\<close>)
    qed
  qed
qed

lemma evolves_import:
  assumes "bulk_import b tick now pid bytes dcat downer u dry db = (r, db')"
  shows "evolves db db'"
  using assms
proof (cases rule: bulk_import_cases)
  case refused
  then show ?thesis by simp
next
  case (accepted recs g gs)
  then show ?thesis
    by (auto simp: Let_def intro: evolves_same dest!: sym [of "(_, _)"] evolves_drafted_guarded split: if_splits)
qed


lemma evolves_step: "evolves db (cmdb_step b tick now r db)"
proof (cases r)
  case (Propose pid raw u agent)
  then show ?thesis by (simp add: evolves_create [OF surjective_pairing])
next
  case (Import pid bytes dcat downer u dry)
  then show ?thesis by (simp add: evolves_import [OF surjective_pairing])
next
  case (Approve pid v u cat)
  then show ?thesis by (simp add: evolves_approve_proposal [OF surjective_pairing])
next
  case (Revoke pid v u why role)
  then show ?thesis by (simp add: evolves_revoke_proposal [OF surjective_pairing])
next
  case (Sweep days)
  then show ?thesis by (simp add: evolves_sweep_main)
qed

lemma evolves_run: "evolves db (cmdb_run rs db)"
proof (induction rs arbitrary: db)
  case Nil
  then show ?case by simp
next
  case (Cons x rs)
  obtain b tick now r where "x = (b, tick, now, r)" by (cases x)
  with evolves_trans [OF evolves_step Cons.IH] show ?case by simp
qed

text \<open>
  C16: Proposals move forward only. Over any run of proposals, imports, approvals, revocations and
  sweeps, with calls failing anywhere, the identifiers stay unique, a draft stays unreviewed and
  at version 1, and every proposal is as it was or has moved along draft, approved, revoked with
  its version raised; its manifest, its author and its creation time never change.
\<close>

theorem proposal_lifecycle:
  assumes "proposals_ok db"
  shows "proposals_ok (cmdb_run rs db) \<and>
    (\<forall>p \<in> set (cm_proposals db). \<exists>q \<in> set (cm_proposals (cmdb_run rs db)). advances p q)"
  using evolves_run [of db rs] assms by (simp add: evolves_def)

theorem proposal_lifecycle_witness:
  "let rs = [(demo_bulk, 2, 2, Approve ''p1'' 1 demo_admin (Some ''router'')),
             (demo_bulk, 3, 3, Revoke ''p1'' 2 demo_admin (Some ''wrong'') None)];
       db = cmdb_run rs demo_proposed
   in map (\<lambda>p. (pr_status p, pr_version p)) (cm_proposals db) = [(REVOKED, 3)] \<and>
      map cr_id (cm_items db) = [''r1''] \<and>
      proposals_ok db \<and> (\<forall>p \<in> set (cm_proposals demo_proposed). \<exists>q \<in> set (cm_proposals db). advances p q)"
proof -
  have "proposals_ok demo_proposed" by code_simp
  note advance = proposal_lifecycle [OF this]
  show ?thesis
    unfolding Let_def by (intro conjI advance [THEN conjunct1] advance [THEN conjunct2]) code_simp+
qed

subsection \<open>The guard\<close>

text \<open>No cooldown runs on the targets the service asks the guard about.\<close>

definition guard_targets :: "string list" where
  "guard_targets = [''ci_proposal:new'', ''ci_proposal:bulk'']"

definition free_key :: "cooldown_key \<Rightarrow> bool" where
  "free_key k = (case k of (a, op, t) \<Rightarrow> \<not> (op = ''propose_ci'' \<and> t \<in> set guard_targets))"

definition guard_free :: "cmdb \<Rightarrow> bool" where
  "guard_free db = list_all free_key (map fst (cl_entries (gs_cache (cm_guard db))))"

definition cache_free :: "cooldown_cache \<Rightarrow> bool" where
  "cache_free c = list_all free_key (map fst (cl_entries c))"

text \<open>A new proposal's identifier is a UUID, never one of the guard's targets.\<close>

definition fresh_request :: "cmdb_request \<Rightarrow> bool" where
  "fresh_request r =
     (case r of Propose pid _ _ _ \<Rightarrow> pid \<notin> set guard_targets
      | Import pid _ _ _ _ _ \<Rightarrow> pid \<notin> set guard_targets | _ \<Rightarrow> True)"

definition denied :: "api_error + create_answer \<Rightarrow> bool" where
  "denied r = (case r of Inr (Harness_denied _ _) \<Rightarrow> True | _ \<Rightarrow> False)"

lemma sweep_free: "cache_free c \<Longrightarrow> cache_free (sweep_expired tick c)"
  by (auto simp: cache_free_def sweep_expired_def list_all_iff)

lemma set_free: "cache_free c \<Longrightarrow> free_key (a, op, t) \<Longrightarrow> cache_free (set_cooldown g tick a op t c)"
  using sweep_free [of c tick]
  by (auto simp: cache_free_def set_cooldown_def cache_set_def Let_def list_all_iff dom_update)

lemma log_free:
  "guard_free db \<Longrightarrow> out = ''success'' \<longrightarrow> t \<notin> set guard_targets \<Longrightarrow>
     guard_free (log_operation e tick now r a t n out why db)"
  using set_free [of "gs_cache (cm_guard db)"]
  by (auto simp: guard_free_def cache_free_def log_operation_def record_operation_def Let_def free_key_def)

lemma guards_allow:
  assumes "cache_free (gs_cache s)" "t \<in> set guard_targets"
    and "check_all_guards g tick now a ''propose_ci'' [t] s = (res, s')"
  shows "gr_allowed res" "cache_free (gs_cache s')"
proof -
  have "map_of (cl_entries (sweep_expired tick (gs_cache s))) (a, ''propose_ci'', t) = None"
    using sweep_free [OF assms(1), of tick] assms(2)
    by (force simp: cache_free_def list_all_iff free_key_def map_of_eq_None_iff)
  then have "check_cooldown tick (a, ''propose_ci'', t) (gs_cache s) = ((False, 0), sweep_expired tick (gs_cache s))"
    by (simp add: check_cooldown_def get_remaining_def Let_def)
  with assms(3) sweep_free [OF assms(1)] show "gr_allowed res" "cache_free (gs_cache s')"
    by (auto simp: check_all_guards_def check_behavioral_guards_def check_bulk_detection_def Let_def
        allow_def escalate_def split: if_splits)
qed


text \<open>Reviewing and sweeping do not touch the guard.\<close>

lemma guard_audit [simp]: "cm_guard (record_audit e t a ev why f db) = cm_guard db"
  by (simp add: record_audit_def)

lemma guard_commit: "create_update_node e u n db = (r, db') \<Longrightarrow> cm_guard db' = cm_guard db"
  by (auto simp: create_update_node_def upsert_node_def create_default_ping_metric_def Let_def split: if_splits)

lemma guard_commit_all: "commit_all e u ns db = (bad, db') \<Longrightarrow> cm_guard db' = cm_guard db"
proof (induction ns arbitrary: bad db db')
  case Nil
  then show ?case by simp
next
  case (Cons n ns)
  obtain r db1 where one: "create_update_node e u n db = (r, db1)" by force
  obtain bad2 db2 where rest: "commit_all e u ns db1 = (bad2, db2)" by force
  from Cons.prems one rest have "db' = db2" by (cases r) auto
  with Cons.IH [OF rest] guard_commit [OF one] show ?case by simp
qed

lemma guard_approved: "approved e now p v u ci why db = (r, db') \<Longrightarrow> cm_guard db' = cm_guard db"
  by (auto simp: approved_def repo_approve_def transition_def split: option.splits)

lemma guard_approve:
  assumes "approve_proposal e now pid v u cat db = (r, db')"
  shows "cm_guard db' = cm_guard db"
proof -
  have single: "approve_single e now p v u cat db = (r, db') \<Longrightarrow> cm_guard db' = cm_guard db" for p
    by (auto simp: approve_single_def dest!: guard_commit guard_approved
        split: pyval.splits option.splits if_splits prod.splits sum.splits api_error.splits)
  have bulk: "approve_bulk e now p v u cat db = (r, db') \<Longrightarrow> cm_guard db' = cm_guard db" for p
    by (auto simp: approve_bulk_def Let_def simp del: commit_all.simps parse_nodes.simps
        dest!: guard_commit_all guard_approved
        split: pyval.splits list.splits option.splits if_splits prod.splits)
  show ?thesis
    using assms by (auto simp: approve_proposal_def dest: single bulk split: if_splits option.splits)
qed

lemma guard_revoke: "revoke_proposal e now pid v u why role db = (r, db') \<Longrightarrow> cm_guard db' = cm_guard db"
  by (auto simp: revoke_proposal_def repo_revoke_def transition_def Let_def split: if_splits option.splits)

lemma guard_fold_audit: "cm_guard (fold (emit_audit e t) ps db) = cm_guard db"
  by (induction ps arbitrary: db) (simp_all add: emit_audit_def)

lemma guard_sweep: "cm_guard (sweep_main e now days db) = cm_guard db"
  by (auto simp: sweep_main_def ttl_sweep_def Let_def guard_fold_audit)

lemma drafted_free:
  assumes "guard_free db" "pid \<notin> set guard_targets"
    and "drafted e tick now pid u agent role name m cat ci mode cnt why db = (r, db')"
  shows "\<not> denied r" "guard_free db'"
proof -
  have kept: "create_draft now pid m (ac_name u) role cat ci mode cnt db = Some (p, db1) \<Longrightarrow> guard_free db1" for p db1
    using assms(1) by (auto simp: create_draft_def Let_def guard_free_def split: if_splits)
  have "guard_free (record_audit e t ac ev w f db1) = guard_free db1" for t ac ev w f db1
    by (simp add: guard_free_def)
  with assms kept show "\<not> denied r" "guard_free db'"
    by (auto simp: drafted_def denied_def split: option.splits intro!: log_free)
qed

text \<open>A gate on one of the service's targets lets the request pass.\<close>

lemma gate_open:
  assumes "guard_free db" "t \<in> set guard_targets"
    and "check_all_guards g tick now a ''propose_ci'' [t] (cm_guard db) = (res, gs)"
  shows "gr_allowed res" "guard_free (db\<lparr>cm_guard := gs\<rparr>)"
  using guards_allow [OF _ assms(2,3)] assms(1) by (simp_all add: guard_free_def cache_free_def)

lemma propose_free:
  assumes "guard_free db" "pid \<notin> set guard_targets"
    and "create_proposal e tick now pid raw u agent db = (r, db')"
  shows "\<not> denied r" "guard_free db'"
proof -
  obtain g gs where gate: "check_all_guards (ce_guard e) tick now agent ''propose_ci'' [''ci_proposal:new''] (cm_guard db)
      = (g, gs)" by force
  have open_gate: "gr_allowed g" "guard_free (db\<lparr>cm_guard := gs\<rparr>)"
    using gate_open [OF assms(1) _ gate] by (simp_all add: guard_targets_def)
  note drafted = drafted_free [OF open_gate(2) assms(2)]
  show "\<not> denied r" "guard_free db'"
    using assms(1,3) gate open_gate(1)
    by (auto simp: create_proposal_def denied_def dest: drafted split: if_splits option.splits)
qed

lemma import_free:
  assumes "guard_free db" "pid \<notin> set guard_targets"
    and "bulk_import b tick now pid bytes dcat downer u dry db = (r, db')"
  shows "\<not> denied r" "guard_free db'"
proof -
  have "\<not> denied r \<and> guard_free db'"
    using assms(3)
  proof (cases rule: bulk_import_cases)
    case (refused err)
    with assms(1) show ?thesis by (simp add: denied_def)
  next
    case (accepted recs g gs)
    have open_gate: "gr_allowed g" "guard_free (db\<lparr>cm_guard := gs\<rparr>)"
      using gate_open [OF assms(1) _ accepted(4)] by (simp_all add: guard_targets_def)
    note drafted = drafted_free [OF open_gate(2) assms(2)]
    from accepted(5) open_gate show ?thesis
      by (auto simp: Let_def denied_def dest!: sym [of "(r, db')"] dest: drafted split: if_splits)
  qed
  then show "\<not> denied r" "guard_free db'" by simp_all
qed

lemma step_free:
  assumes "guard_free db" "fresh_request r"
  shows "guard_free (cmdb_step b tick now r db)"
proof (cases r)
  case (Propose pid raw u agent)
  with assms show ?thesis
    by (simp add: fresh_request_def propose_free(2) [OF _ _ surjective_pairing])
next
  case (Import pid bytes dcat downer u dry)
  with assms show ?thesis
    by (simp add: fresh_request_def import_free(2) [OF _ _ surjective_pairing])
next
  case (Approve pid v u cat)
  with assms(1) guard_approve [OF surjective_pairing] show ?thesis by (simp add: guard_free_def)
next
  case (Revoke pid v u why role)
  with assms(1) guard_revoke [OF surjective_pairing] show ?thesis by (simp add: guard_free_def)
next
  case (Sweep days)
  with assms(1) show ?thesis by (simp add: guard_free_def guard_sweep)
qed

lemma run_free: "guard_free db \<Longrightarrow> list_all (\<lambda>(b, tick, now, r). fresh_request r) rs \<Longrightarrow> guard_free (cmdb_run rs db)"
  by (induction rs arbitrary: db) (auto simp: step_free)

text \<open>
  The guard in front of the proposal service never denies anything. The cooldown of a
  successful proposal is set on the new proposal's identifier, while the gate asks about the fixed
  targets of the service, and the threshold on proposals only escalates, which the service does
  not look at. So from a process without cooldowns on these targets, after any run of requests
  and however fast they come, no proposal and no import is answered with a denial.
\<close>

theorem proposal_guard_never_denies:
  assumes "guard_free db" "list_all (\<lambda>(b, tick, now, r). fresh_request r) rs" "pid \<notin> set guard_targets"
  shows "\<not> denied (fst (create_proposal e tick now pid raw u agent (cmdb_run rs db))) \<and>
    \<not> denied (fst (bulk_import b tick now pid bytes dcat downer u dry (cmdb_run rs db)))"
  using propose_free(1) [OF run_free [OF assms(1,2)] assms(3) surjective_pairing]
    import_free(1) [OF run_free [OF assms(1,2)] assms(3) surjective_pairing] by simp


theorem proposal_guard_never_denies_witness:
  "let rs = map (\<lambda>i. (demo_bulk, 1, 1, Propose (''p'' @ show_int i) (demo_ci (show_int i) ''router'') demo_admin ''bot''))
              [1..6];
       again = create_proposal demo_env 1 1 ''p7'' (demo_ci ''7'' ''router'') demo_admin ''bot''
                 (cmdb_run rs demo_cmdb)
   in length (cm_proposals (snd again)) = 7 \<and> \<not> denied (fst again)"
proof -
  let ?rs = "map (\<lambda>i. (demo_bulk, 1, 1, Propose (''p'' @ show_int i) (demo_ci (show_int i) ''router'') demo_admin ''bot''))
              [1..6]"
  have "guard_free demo_cmdb" "list_all (\<lambda>(b, tick, now, r). fresh_request r) ?rs" "''p7'' \<notin> set guard_targets"
    by code_simp+
  note passes = proposal_guard_never_denies [OF this, THEN conjunct1]
  show ?thesis unfolding Let_def by (intro conjI passes) code_simp
qed

end
