(* ===== verification/Cmdb_Review.thy ===== *)
theory Cmdb_Review
  imports Cmdb_Properties
begin

section \<open>What a review writes and what it records\<close>

text \<open>
  An approval writes the items of the draft to the graph and closes it; what happens when the
  version is stale; what the audit trail may hold; which swept drafts it misses.
\<close>

subsection \<open>Writing items\<close>

lemma revalidated_id [simp]: "nd_id (revalidated n) = nd_id n"
  by (simp add: revalidated_def)

lemma written_id [simp]: "cr_id (written_row n old) = nd_id n"
  by (simp add: written_row_def)

lemma find_written:
  "find (\<lambda>r. cr_id r = i) (update_where (\<lambda>r. cr_id r = k) (\<lambda>r. f r) rows) =
     (if i = k then map_option f (find (\<lambda>r. cr_id r = k) rows) else find (\<lambda>r. cr_id r = i) rows)"
  if "\<And>r. cr_id (f r) = k"
  using that by (induction rows) (auto simp: update_where_def)

lemma find_append: "find P (xs @ ys) = (case find P xs of None \<Rightarrow> find P ys | Some x \<Rightarrow> Some x)"
  by (induction xs) auto

lemma find_upsert:
  "find_item (upsert_node n db) i =
     (if i = nd_id n then Some (written_row n (find_item db i)) else find_item db i)"
proof (cases "find_item db (nd_id n)")
  case None
  then show ?thesis
    by (auto simp: upsert_node_def find_item_def find_append split: option.split)
next
  case (Some r)
  then show ?thesis
    by (auto simp: upsert_node_def find_item_def find_written)
qed

lemma find_ping [simp]: "find_item (create_default_ping_metric k db) i = find_item db i"
  by (simp add: create_default_ping_metric_def find_item_def)

lemma find_commit:
  assumes "create_update_node e u n db = (Inr x, db')"
  shows "find_item db' i =
      (if i = nd_id n then Some (written_row (revalidated n) (find_item db i)) else find_item db i)"
    and "check_permission ''CI_EDIT'' u"
  using assms
  by (auto simp: create_update_node_def find_upsert Let_def split: if_splits)

lemma commit_all_writes:
  assumes "commit_all e u ns db = ([], db')" "distinct (map nd_id ns)"
  shows "find_item db' i =
      (case find (\<lambda>n. nd_id n = i) ns of None \<Rightarrow> find_item db i
       | Some n \<Rightarrow> Some (written_row (revalidated n) (find_item db i)))"
  using assms
proof (induction ns arbitrary: db)
  case Nil
  then show ?case by simp
next
  case (Cons n ns)
  obtain r db1 where one: "create_update_node e u n db = (r, db1)" by force
  with Cons.prems(1) obtain x where r: "r = Inr x" and rest: "commit_all e u ns db1 = ([], db')"
    by (cases r) (auto split: prod.splits)
  note now = find_commit(1) [OF one [unfolded r]]
  have "find (\<lambda>m. nd_id m = nd_id n) ns = None"
    using Cons.prems(2) by (simp add: find_None_iff) (metis image_eqI)
  with Cons.IH [OF rest] Cons.prems(2) now show ?case by (auto split: option.splits)
qed

lemma commit_all_permission:
  "commit_all e u ns db = ([], db') \<Longrightarrow> ns \<noteq> [] \<Longrightarrow> check_permission ''CI_EDIT'' u"
  by (cases ns) (auto dest: find_commit(2) split: prod.splits sum.splits)

subsection \<open>Approving\<close>

text \<open>The items a proposal's manifest asks for.\<close>

definition is_bulk :: "proposal \<Rightarrow> bool" where
  "is_bulk p = (por (get (pr_manifest p) ''mode'') (por (opt_str (pr_mode p)) (PStr ''single'')) = PStr ''bulk'')"

definition requested_items :: "cmdb_env \<Rightarrow> proposal \<Rightarrow> node list option" where
  "requested_items e p =
     (if is_bulk p
      then (case por (get (pr_manifest p) ''cis'') (PList []) of
              PList vs \<Rightarrow> if vs = [] then None else parse_nodes e vs | _ \<Rightarrow> None)
      else (case get (pr_manifest p) ''ci'' of PDict d \<Rightarrow> map_option (\<lambda>n. [n]) (ce_node e d) | _ \<Rightarrow> None))"

definition approved_row :: "instant \<Rightarrow> account \<Rightarrow> string \<Rightarrow> proposal \<Rightarrow> proposal" where
  "approved_row now u ci p =
     p\<lparr>pr_status := APPROVED, pr_version := pr_version p + 1, pr_reviewed_by := Some (ac_name u),
       pr_reviewed_at := Some (whole_second now), pr_updated := whole_second now,
       pr_applied := Some (pr_manifest p), pr_resulted_ci := Some ci\<rparr>"

lemma find_updated:
  assumes "distinct (map key rows)" "p \<in> set rows" "P p" "\<And>r. P r \<Longrightarrow> key r = k" "\<And>r. key (f r) = key r"
  shows "find (\<lambda>r. key r = k) (update_where P f rows) = Some (f p)"
  using assms
proof (induction rows)
  case Nil
  then show ?case by simp
next
  case (Cons r rows)
  show ?case
  proof (cases "r = p")
    case True
    with Cons.prems(3-5) show ?thesis by (simp add: update_where_def)
  next
    case False
    with Cons.prems have p: "p \<in> set rows" and keys: "key p = k" "key r \<notin> key ` set rows" by auto
    then have "key r \<noteq> k" by (metis image_eqI)
    moreover have "find (\<lambda>r. key r = k) (update_where P f rows) = Some (f p)"
      using Cons.IH Cons.prems p by simp
    ultimately show ?thesis using Cons.prems(5) by (simp add: update_where_def)
  qed
qed

lemma find_SomeD: "find P xs = Some x \<Longrightarrow> x \<in> set xs \<and> P x"
  by (induction xs) (auto split: if_splits)

lemma repo_get_row:
  assumes "distinct (map pr_id (cm_proposals db))" "repo_get db pid = Some p"
  shows "p \<in> set (cm_proposals db)" "pr_id p = pid"
    and "q \<in> set (cm_proposals db) \<Longrightarrow> pr_id q = pid \<Longrightarrow> q = p"
proof -
  show p: "p \<in> set (cm_proposals db)" "pr_id p = pid"
    using assms(2) find_SomeD unfolding repo_get_def by fast+
  show "q = p" if "q \<in> set (cm_proposals db)" "pr_id q = pid"
    using assms(1) p that by (metis distinct_key_eq)
qed

lemma repo_approve_row:
  assumes "distinct (map pr_id (cm_proposals db))" "repo_get db pid = Some p"
    and "repo_approve now pid v (ac_name u) (pr_manifest p) ci db = Some (row, db')"
  shows "pr_version p = v" "pr_status p = DRAFT" "row = approved_row now u ci p"
    "repo_get db' pid = Some row" "cm_items db' = cm_items db"
proof -
  note p = repo_get_row [OF assms(1,2)]
  from assms(3) obtain q where q: "q \<in> set (cm_proposals db)" "pr_id q = pid" "pr_version q = v" "pr_status q = DRAFT"
    and row: "row = q\<lparr>pr_status := APPROVED, pr_version := v + 1, pr_reviewed_by := Some (ac_name u),
              pr_reviewed_at := Some (whole_second now), pr_updated := whole_second now,
              pr_applied := Some (pr_manifest p), pr_resulted_ci := Some ci\<rparr>"
    and db': "db' = db\<lparr>cm_proposals := update_where (\<lambda>p. pr_id p = pid \<and> pr_version p = v \<and> pr_status p = DRAFT)
       (\<lambda>r. r\<lparr>pr_status := APPROVED, pr_version := v + 1, pr_reviewed_by := Some (ac_name u),
              pr_reviewed_at := Some (whole_second now), pr_updated := whole_second now,
              pr_applied := Some (pr_manifest p), pr_resulted_ci := Some ci\<rparr>) (cm_proposals db)\<rparr>"
    by (auto simp: repo_approve_def transition_def dest!: find_SomeD split: option.splits)
  from p q have "q = p" by blast
  with q row show "pr_version p = v" "pr_status p = DRAFT" "row = approved_row now u ci p"
    by (auto simp: approved_row_def)
  show "cm_items db' = cm_items db" by (simp add: db')
  show "repo_get db' pid = Some row"
    unfolding repo_get_def db' row
    by (simp, rule find_updated [OF assms(1) q(1)]) (use q in auto)
qed


lemma repo_get_cong: "cm_proposals db1 = cm_proposals db \<Longrightarrow> repo_get db1 pid = repo_get db pid"
  by (simp add: repo_get_def)

lemma find_item_cong: "cm_items db1 = cm_items db \<Longrightarrow> find_item db1 i = find_item db i"
  by (simp add: find_item_def)

lemma audit_keeps [simp]:
  "repo_get (record_audit e t a ev why f db) pid = repo_get db pid"
  "find_item (record_audit e t a ev why f db) i = find_item db i"
  "cm_items (record_audit e t a ev why f db) = cm_items db"
  by (simp_all add: record_audit_def repo_get_def find_item_def)

lemma approved_ok:
  assumes "approved e now p v u ci why db1 = (Inr row, db')"
    and "distinct (map pr_id (cm_proposals db))" "repo_get db pid = Some p" "cm_proposals db1 = cm_proposals db"
  shows "pr_version p = v" "pr_status p = DRAFT" "row = approved_row now u ci p" "repo_get db' pid = Some row"
    "find_item db' i = find_item db1 i"
proof -
  from assms(2-4) have 1: "distinct (map pr_id (cm_proposals db1))" "repo_get db1 pid = Some p"
    by (simp_all add: repo_get_def)
  note pid = repo_get_row(2) [OF 1]
  obtain db2 where 2: "repo_approve now pid v (ac_name u) (pr_manifest p) ci db1 = Some (row, db2)"
    and db': "repo_get db' pid = repo_get db2 pid" "find_item db' i = find_item db2 i"
    using assms(1) pid by (auto simp: approved_def split: option.splits)
  note repo_approve_row [OF 1 2]
  with db' show "pr_version p = v" "pr_status p = DRAFT" "row = approved_row now u ci p" "repo_get db' pid = Some row"
    "find_item db' i = find_item db1 i" by (simp_all add: find_item_def)
qed

text \<open>What a successful approval of a proposal with the items \<open>ns\<close> has done.\<close>

definition writes :: "node list \<Rightarrow> cmdb \<Rightarrow> cmdb \<Rightarrow> string \<Rightarrow> bool" where
  "writes ns db db' i =
     (find_item db' i =
       (case find (\<lambda>n. nd_id n = i) ns of None \<Rightarrow> find_item db i
        | Some n \<Rightarrow> Some (written_row (revalidated n) (find_item db i))))"

lemma single_ok:
  assumes "approve_single e now p v u cat db = (Inr row, db')"
    and "distinct (map pr_id (cm_proposals db))" "repo_get db pid = Some p" "\<not> is_bulk p"
    and "requested_items e p = Some ns"
  shows "pr_version p = v \<and> check_permission ''CI_EDIT'' u \<and> repo_get db' pid = Some row \<and>
    row = approved_row now u (nd_id (hd ns)) p \<and>
    (\<forall>n \<in> set ns. nd_type n \<in> set (cm_categories db) \<and> \<not> ci_id_exists e db (nd_id n)) \<and> writes ns db db' i"
proof -
  from assms(4,5) obtain d n where d: "get (pr_manifest p) ''ci'' = PDict d" "ce_node e d = Some n" and ns: "ns = [n]"
    by (auto simp: requested_items_def split: pyval.splits)
  obtain r db1 where one: "create_update_node e u n db = (r, db1)" by force
  with assms(1) d obtain x where r: "r = Inr x" and fin: "approved e now p v u (nd_id n) ''proposal_approved'' db1 = (Inr row, db')"
    and checks: "nd_type n \<in> set (cm_categories db)" "\<not> ci_id_exists e db (nd_id n)"
    by (auto simp: approve_single_def resolve_category_def split: if_splits option.splits sum.splits api_error.splits)
  note commit = find_commit [OF one [unfolded r]]
  note ok = approved_ok [OF fin assms(2,3) proposals_commit [OF one]]
  show ?thesis
    using ok(1,3,4) ok(5) [of i] commit checks by (simp add: ns writes_def)
qed

lemma bulk_ok:
  assumes "approve_bulk e now p v u cat db = (Inr row, db')"
    and "distinct (map pr_id (cm_proposals db))" "repo_get db pid = Some p" "is_bulk p"
    and "requested_items e p = Some ns" "distinct (map nd_id ns)"
  shows "pr_version p = v \<and> check_permission ''CI_EDIT'' u \<and> repo_get db' pid = Some row \<and>
    row = approved_row now u (nd_id (hd ns)) p \<and>
    (\<forall>n \<in> set ns. nd_type n \<in> set (cm_categories db) \<and> \<not> ci_id_exists e db (nd_id n)) \<and> writes ns db db' i"
proof -
  from assms(4,5) obtain w vs where cis: "por (get (pr_manifest p) ''cis'') (PList []) = PList (w # vs)"
    and parsed: "parse_nodes e (w # vs) = Some ns"
    by (auto simp: requested_items_def simp del: parse_nodes.simps split: pyval.splits if_splits)
       (metis list.exhaust)
  from parsed have ne: "ns \<noteq> []" by (auto split: pyval.splits option.splits)
  obtain bad db1 where all: "commit_all e u ns db = (bad, db1)" by force
  from assms(1) cis parsed all have bad: "bad = []"
    and fin: "approved e now p v u (nd_id (hd ns)) ''proposal_approved_bulk'' db1 = (Inr row, db')"
    and checks: "\<forall>n \<in> set ns. nd_type n \<in> set (cm_categories db) \<and> \<not> ci_id_exists e db (nd_id n)"
    by (auto simp: approve_bulk_def resolve_category_def Let_def filter_empty_conv simp del: parse_nodes.simps commit_all.simps
        split: if_splits option.splits)
  note commit = commit_all_writes [OF all [unfolded bad] assms(6)] commit_all_permission [OF all [unfolded bad] ne]
  note ok = approved_ok [OF fin assms(2,3) proposals_commit_all [OF all]]
  show ?thesis
    using ok(1,3,4) ok(5) [of i] commit checks by (simp add: writes_def)
qed

text \<open>
  C17: An approval does what it says. When it succeeds, the reviewer may approve and edit items,
  the proposal was a draft of the given version, every item asked for has a live category and was
  not seen in the graph; afterwards exactly these items are written, each as its node says, every
  other item is untouched, and the proposal is approved at the next version with its manifest as
  the applied one.
\<close>

theorem approve_commits:
  assumes "approve_proposal e now pid v u cat db = (Inr row, db')" "proposals_ok db"
    and "repo_get db pid = Some p" "requested_items e p = Some ns" "distinct (map nd_id ns)"
  shows "pr_status p = DRAFT \<and> pr_version p = v \<and>
    check_permission ''CI_APPROVE_PROPOSAL'' u \<and> check_permission ''CI_EDIT'' u \<and>
    (\<forall>n \<in> set ns. nd_type n \<in> set (cm_categories db) \<and> \<not> ci_id_exists e db (nd_id n)) \<and>
    find_item db' i =
      (case find (\<lambda>n. nd_id n = i) ns of None \<Rightarrow> find_item db i
       | Some n \<Rightarrow> Some (written_row (revalidated n) (find_item db i))) \<and>
    repo_get db' pid = Some row \<and> row = approved_row now u (nd_id (hd ns)) p"
proof -
  have ids: "distinct (map pr_id (cm_proposals db))" using assms(2) by (simp add: proposals_ok_def)
  from assms(1,3) have "pr_status p = DRAFT" "check_permission ''CI_APPROVE_PROPOSAL'' u"
    and "(if is_bulk p then approve_bulk e now p v u cat db else approve_single e now p v u cat db) = (Inr row, db')"
    by (auto simp: approve_proposal_def is_bulk_def split: if_splits)
  then show ?thesis
    using bulk_ok [OF _ ids assms(3) _ assms(4,5), of now v u cat row db' i]
      single_ok [OF _ ids assms(3) _ assms(4), of now v u cat row db' i]
    by (auto simp: writes_def split: if_splits)
qed


definition demo_reviewer :: account where
  "demo_reviewer = \<lparr>ac_name = ''eva'', ac_role = Some ''OPERATOR'', ac_permissions = [''CI_APPROVE_PROPOSAL'', ''CI_EDIT'']\<rparr>"

text \<open>A draft with a small manifest.\<close>

definition demo_draft :: proposal where
  "demo_draft = \<lparr>pr_id = ''p1'', pr_manifest = [(''ci'', PDict [(''id'', PStr ''r1''), (''label'', PStr ''core''),
       (''type'', PStr ''router''), (''ip'', PStr ''10.0.0.1'')])], pr_applied = None, pr_status = DRAFT, pr_version = 1,
     pr_proposed_by = ''bot'', pr_proposed_role = ''AI_OPERATOR'', pr_reviewed_by = None, pr_reviewed_at = None,
     pr_created = 0, pr_updated = 0, pr_resulted_ci = None, pr_revoke_reason = None, pr_category = Some ''router'',
     pr_ci = Some ''r1'', pr_mode = Some ''single'', pr_count = Some 1\<rparr>"

definition demo_drafted :: cmdb where
  "demo_drafted = demo_cmdb\<lparr>cm_proposals := [demo_draft]\<rparr>"

definition demo_item :: node where
  "demo_item = the (demo_node [(''id'', PStr ''r1''), (''label'', PStr ''core''), (''type'', PStr ''router''),
     (''ip'', PStr ''10.0.0.1'')])"

theorem approve_commits_witness:
  "let (r, db') = approve_proposal demo_env 5 ''p1'' 1 demo_reviewer None demo_drafted
   in r = Inr (approved_row 5 demo_reviewer ''r1'' demo_draft) \<and>
      find_item db' ''r1'' = Some (written_row demo_item None) \<and>
      repo_get db' ''p1'' = Some (approved_row 5 demo_reviewer ''r1'' demo_draft)"
proof -
  obtain r db' where run: "approve_proposal demo_env 5 ''p1'' 1 demo_reviewer None demo_drafted = (r, db')" by force
  have r: "fst (approve_proposal demo_env 5 ''p1'' 1 demo_reviewer None demo_drafted)
      = Inr (approved_row 5 demo_reviewer ''r1'' demo_draft)" by code_simp
  with run have ok: "approve_proposal demo_env 5 ''p1'' 1 demo_reviewer None demo_drafted
      = (Inr (approved_row 5 demo_reviewer ''r1'' demo_draft), db')" by simp
  have 1: "proposals_ok demo_drafted" "repo_get demo_drafted ''p1'' = Some demo_draft"
    "requested_items demo_env demo_draft = Some [demo_item]" "distinct (map nd_id [demo_item])" by code_simp+
  have 2: "nd_id demo_item = ''r1''" "revalidated demo_item = demo_item" "find_item demo_drafted ''r1'' = None" by code_simp+
  from approve_commits [OF ok 1, of "''r1''"] run r 2 show ?thesis by simp
qed

text \<open>
  The version check comes too late. Approving a draft with a stale version is answered with a
  version conflict and leaves the proposal a draft, but its item has been written to the graph
  before the check; from then on the draft can be approved by nobody, because the item it asks for
  exists.
\<close>

theorem approve_conflict_publishes:
  assumes "proposals_ok db" "repo_get db pid = Some p" "pr_status p = DRAFT" "\<not> is_bulk p"
    and "get (pr_manifest p) ''ci'' = PDict d" "ce_node e d = Some n" "nd_id n \<noteq> ''''" "node_valid e n"
    and "\<not> ce_catalog_fails e" "nd_type n \<in> set (cm_categories db)"
    and "\<not> ce_lookup_fails e" "find_item db (nd_id n) = None" "\<not> ce_write_fails e (nd_id n)"
    and "check_permission ''CI_APPROVE_PROPOSAL'' u" "check_permission ''CI_EDIT'' u"
    and "v \<noteq> pr_version p" "check_permission ''CI_APPROVE_PROPOSAL'' u'"
  shows "let (r, db') = approve_proposal e now pid v u None db
    in r = Inl (version_conflict pid) \<and> repo_get db' pid = Some p \<and>
       find_item db' (nd_id n) = Some (written_row (revalidated n) None) \<and>
       approve_proposal e later pid (pr_version p) u' None db' =
         (Inl (Api 409 (detail ''ci_id_collision'' @ [(''ci_id'', PStr (nd_id n))])), db')"
proof -
  have ids: "distinct (map pr_id (cm_proposals db))" using assms(1) by (simp add: proposals_ok_def)
  note row = repo_get_row [OF ids assms(2)]
  obtain x db1 where one: "create_update_node e u n db = (Inr x, db1)"
    using assms(8,13,15) by (simp add: create_update_node_def Let_def)
  note same = proposals_commit [OF one]
  have cats: "cm_categories db1 = List.insert (nd_type n) (cm_categories db)"
    using one by (auto simp: create_update_node_def upsert_node_def create_default_ping_metric_def revalidated_def Let_def
        split: if_splits)
  have "find (\<lambda>q. pr_id q = pid \<and> pr_version q = v \<and> pr_status q = DRAFT) (cm_proposals db1) = None"
    using row(3) assms(16) by (auto simp: find_None_iff same)
  then have conflict: "repo_approve now pid v (ac_name u) (pr_manifest p) (nd_id n) db1 = None"
    by (simp add: repo_approve_def transition_def)
  have first: "approve_proposal e now pid v u None db = (Inl (version_conflict pid), db1)"
    using assms one conflict row(2)
    by (simp add: approve_proposal_def is_bulk_def approve_single_def resolve_category_def ci_id_exists_def approved_def)
  have item: "find_item db1 (nd_id n) = Some (written_row (revalidated n) None)"
    using find_commit(1) [OF one] assms(12) by simp
  have get1: "repo_get db1 pid = Some p" using assms(2) by (simp add: repo_get_def same)
  have "approve_proposal e later pid (pr_version p) u' None db1 =
      (Inl (Api 409 (detail ''ci_id_collision'' @ [(''ci_id'', PStr (nd_id n))])), db1)"
    using assms(3-7,9-11,17) get1 item cats
    by (simp add: approve_proposal_def is_bulk_def approve_single_def resolve_category_def ci_id_exists_def)
  with first get1 item show ?thesis by simp
qed

theorem approve_conflict_publishes_witness:
  "let (r, db') = approve_proposal demo_env 5 ''p1'' 7 demo_reviewer None demo_drafted
   in r = Inl (version_conflict ''p1'') \<and> repo_get db' ''p1'' = Some demo_draft \<and>
      find_item db' (nd_id demo_item) = Some (written_row (revalidated demo_item) None) \<and>
      approve_proposal demo_env 9 ''p1'' (pr_version demo_draft) demo_admin None db' =
        (Inl (Api 409 (detail ''ci_id_collision'' @ [(''ci_id'', PStr (nd_id demo_item))])), db')"
  by (rule approve_conflict_publishes [where d = "[(''id'', PStr ''r1''), (''label'', PStr ''core''),
        (''type'', PStr ''router''), (''ip'', PStr ''10.0.0.1'')]"]) code_simp+


subsection \<open>The audit trail\<close>

definition audit_clean :: "cmdb \<Rightarrow> bool" where
  "audit_clean db = list_all clean_event (cm_audit db)"

definition redacted_opt :: "pydict option \<Rightarrow> bool" where
  "redacted_opt v = (case v of None \<Rightarrow> True | Some d \<Rightarrow> redacted_dict d)"

lemma redacted_opt_simps [simp]:
  "redacted_opt None" "redacted_opt (Some (redact_manifest_secrets (PDict m)))"
  by (simp_all add: redacted_opt_def redact_manifest_secrets_def redact_redacted)

lemma context_keys_plain:
  "list_all (\<lambda>k. \<not> is_secret_field k)
     [''proposal_id'', ''proposed_by'', ''actor_role'', ''previous_state'', ''next_state'', ''version'',
      ''applied_manifest_summary'', ''applied_manifest_attributes'', ''resulted_ci_id'', ''revoke_reason'', ''manifest_diff'']"
  by code_simp

lemma context_redacted:
  assumes "redacted_opt (af_summary f)" "redacted_opt (af_attributes f)"
  shows "redacted_dict (audit_context f)"
  using context_keys_plain assms
  by (auto simp: audit_context_def redacted_opt_def opt_str_def split: option.splits)

lemma audit_recorded:
  assumes "audit_clean db" "redacted_opt (af_summary f)" "redacted_opt (af_attributes f)"
  shows "audit_clean (record_audit e t a ev why f db)"
  using assms(1) change_clean context_redacted [OF assms(2,3)] by (simp add: audit_clean_def record_audit_def)

lemma audit_emitted: "audit_clean db \<Longrightarrow> audit_clean (emit_audit e t p db)"
proof -
  assume "audit_clean db"
  then show ?thesis
    using context_keys_plain
    by (simp add: emit_audit_def audit_clean_def change_clean redact_manifest_secrets_def redact_redacted)
qed

lemma audit_same: "cm_audit db' = cm_audit db \<Longrightarrow> audit_clean db \<Longrightarrow> audit_clean db'"
  by (simp add: audit_clean_def)

lemma audit_logged: "audit_clean db \<Longrightarrow> audit_clean (log_operation e tick now r a t n out why db)"
  by (simp add: audit_clean_def log_operation_def)

lemma audit_commit: "create_update_node e u n db = (r, db') \<Longrightarrow> cm_audit db' = cm_audit db"
  by (auto simp: create_update_node_def upsert_node_def create_default_ping_metric_def Let_def split: if_splits)

lemma audit_commit_all: "commit_all e u ns db = (bad, db') \<Longrightarrow> cm_audit db' = cm_audit db"
proof (induction ns arbitrary: bad db db')
  case Nil
  then show ?case by simp
next
  case (Cons n ns)
  obtain r db1 where one: "create_update_node e u n db = (r, db1)" by force
  obtain bad2 db2 where rest: "commit_all e u ns db1 = (bad2, db2)" by force
  from Cons.prems one rest have "db' = db2" by (cases r) auto
  with Cons.IH [OF rest] audit_commit [OF one] show ?case by simp
qed

lemma audit_drafted:
  assumes "audit_clean db" "drafted e tick now pid u agent role name m cat ci mode cnt why db = (r, db')"
  shows "audit_clean db'"
proof -
  have "create_draft now pid m (ac_name u) role cat ci mode cnt db = Some (p, db1) \<Longrightarrow> audit_clean db1" for p db1
    using assms(1) by (auto simp: create_draft_def Let_def audit_clean_def split: if_splits)
  with assms show ?thesis
    by (auto simp: drafted_def intro!: audit_logged audit_recorded split: option.splits)
qed

lemma audit_create:
  assumes "audit_clean db" "create_proposal e tick now pid raw u agent db = (r, db')"
  shows "audit_clean db'"
proof -
  have "audit_clean (db\<lparr>cm_guard := g\<rparr>)" for g using assms(1) by (simp add: audit_clean_def)
  then show ?thesis
    using assms
    by (auto simp: create_proposal_def Let_def intro: audit_logged audit_drafted split: if_splits option.splits prod.splits)
qed

lemma audit_import:
  assumes "audit_clean db" "bulk_import b tick now pid bytes dcat downer u dry db = (r, db')"
  shows "audit_clean db'"
  using assms(2)
proof (cases rule: bulk_import_cases)
  case refused
  with assms(1) show ?thesis by simp
next
  case (accepted recs g gs)
  have "audit_clean (db\<lparr>cm_guard := gs\<rparr>)" using assms(1) by (simp add: audit_clean_def)
  with accepted(5) show ?thesis
    by (auto simp: Let_def dest!: sym [of "(r, db')"] intro: audit_logged audit_drafted split: if_splits)
qed

lemma audit_approved:
  assumes "audit_clean db" "approved e now p v u ci why db = (r, db')"
  shows "audit_clean db'"
proof -
  have "repo_approve now (pr_id p) v (ac_name u) (pr_manifest p) ci db = Some (row, db1) \<Longrightarrow> audit_clean db1" for row db1
    using assms(1) by (auto simp: repo_approve_def transition_def audit_clean_def split: option.splits)
  with assms show ?thesis by (auto simp: approved_def intro!: audit_recorded split: option.splits)
qed

lemma audit_approve:
  assumes "audit_clean db" "approve_proposal e now pid v u cat db = (r, db')"
  shows "audit_clean db'"
proof -
  have after: "cm_audit db1 = cm_audit db \<Longrightarrow> approved e now p v u ci why db1 = (r, db') \<Longrightarrow> audit_clean db'" for p ci why db1
    using assms(1) audit_same audit_approved by blast
  have single: "approve_single e now p v u cat db = (r, db') \<Longrightarrow> audit_clean db'" for p
    using assms(1)
    by (auto simp: approve_single_def dest: audit_commit after intro: audit_same
        split: pyval.splits option.splits if_splits prod.splits sum.splits api_error.splits)
  have bulk: "approve_bulk e now p v u cat db = (r, db') \<Longrightarrow> audit_clean db'" for p
    using assms(1)
    by (auto simp: approve_bulk_def Let_def simp del: commit_all.simps parse_nodes.simps
        dest!: audit_commit_all dest: after intro: audit_same
        split: pyval.splits list.splits option.splits if_splits prod.splits)
  show ?thesis
    using assms by (auto simp: approve_proposal_def dest: single bulk split: if_splits option.splits)
qed

lemma audit_revoke:
  assumes "audit_clean db" "revoke_proposal e now pid v u why role db = (r, db')"
  shows "audit_clean db'"
proof -
  have "repo_revoke now pid v by reason db = Some (row, db1) \<Longrightarrow> audit_clean db1" for row db1 "by" reason
    using assms(1) by (auto simp: repo_revoke_def transition_def audit_clean_def split: option.splits)
  with assms show ?thesis
    by (auto simp: revoke_proposal_def Let_def intro!: audit_recorded split: if_splits option.splits)
qed

lemma audit_folded: "audit_clean db \<Longrightarrow> audit_clean (fold (emit_audit e t) ps db)"
  by (induction ps arbitrary: db) (simp_all add: audit_emitted)

lemma audit_sweep: "audit_clean db \<Longrightarrow> audit_clean (sweep_main e now days db)"
proof -
  assume "audit_clean db"
  then have "audit_clean (snd (ttl_sweep now days db))"
    by (simp add: ttl_sweep_def Let_def audit_clean_def)
  then show ?thesis
    by (auto simp: sweep_main_def Let_def intro!: audit_folded split: prod.split)
qed

lemma audit_step: "audit_clean db \<Longrightarrow> audit_clean (cmdb_step b tick now r db)"
  by (cases r)
     (simp_all add: audit_sweep audit_create [OF _ surjective_pairing] audit_import [OF _ surjective_pairing]
       audit_approve [OF _ surjective_pairing] audit_revoke [OF _ surjective_pairing])

text \<open>
  C19: The audit trail is clean. Whatever proposals, imports, reviews and sweeps run, every entry
  they leave has a context of allowed keys only, in which every value under a key that looks like
  a secret, at any depth of a manifest, is the redaction mark, every text is cut to 256 and every list
  to 25 entries, and its actor, target and reason are within their limits.
\<close>

theorem audit_is_clean: "audit_clean db \<Longrightarrow> audit_clean (cmdb_run rs db)"
proof (induction rs arbitrary: db)
  case Nil
  then show ?case by simp
next
  case (Cons x rs)
  obtain b tick now r where "x = (b, tick, now, r)" by (cases x)
  with Cons.IH [OF audit_step [OF Cons.prems]] show ?case by simp
qed


theorem audit_is_clean_witness:
  "let db = cmdb_run [(demo_bulk, 1, 1, Propose ''p1'' (demo_ci ''r1'' ''router'') demo_admin ''bot'')] demo_cmdb
   in audit_clean db \<and> map ev_type (cm_audit db) = [''CI_PROPOSAL_CREATE'']"
  unfolding Let_def by (rule conjI, rule audit_is_clean, code_simp, code_simp)

subsection \<open>The sweep\<close>

lemma take_sorted:
  assumes "sorted (map key ys)" "\<And>x y. key x \<le> key y \<Longrightarrow> P y \<Longrightarrow> P x" "k \<le> length (filter P ys)"
  shows "list_all P (take k ys)"
  using assms(1,3)
proof (induction ys arbitrary: k)
  case Nil
  then show ?case by simp
next
  case (Cons y ys)
  show ?case
  proof (cases "P y")
    case True
    with Cons show ?thesis by (cases k) simp_all
  next
    case False
    then have "filter P (y # ys) = []"
      using Cons.prems(1) assms(2) by (auto simp: filter_empty_conv)
    with Cons.prems(2) show ?thesis by simp
  qed
qed

definition cutoff_of :: "instant \<Rightarrow> int \<Rightarrow> instant" where
  "cutoff_of now days = now - seconds (days * 86400)"

definition is_stale :: "instant \<Rightarrow> int \<Rightarrow> proposal \<Rightarrow> bool" where
  "is_stale now days p = (pr_status p = DRAFT \<and> pr_created p < cutoff_of now days)"

definition swept_by_system :: "proposal \<Rightarrow> bool" where
  "swept_by_system p = (pr_reviewed_by p = Some ''SYSTEM'' \<and> pr_revoke_reason p = Some ''ttl_expired'')"

lemma sweep_page_recent:
  assumes "max (fst (ttl_sweep now days db)) 50 \<le>
      length (filter (\<lambda>p. pr_status p = REVOKED \<and> cutoff_of now days \<le> pr_created p) (cm_proposals db))"
  shows "list_all (\<lambda>p. cutoff_of now days \<le> pr_created p)
     (repo_list \<lparr>lf_status = Some ''REVOKED'', lf_category = None, lf_proposed_by = None, lf_from = None, lf_to = None\<rparr>
        1 (int (max (fst (ttl_sweep now days db)) 50)) (snd (ttl_sweep now days db)))"
proof -
  let ?key = "\<lambda>p. (- pr_created p, pr_id p)" and ?old = "\<lambda>p. cutoff_of now days \<le> pr_created p"
  let ?db = "snd (ttl_sweep now days db)"
  let ?n = "max (fst (ttl_sweep now days db)) 50"
  let ?shown = "filter (\<lambda>p. status_text (pr_status p) = ''REVOKED'') (cm_proposals ?db)"
  have text_revoked: "status_text s = ''REVOKED'' \<longleftrightarrow> s = REVOKED" for s by (cases s) simp_all
  have "filter (\<lambda>p. pr_status p = REVOKED \<and> ?old p) (update_where (is_stale now days) f rows) =
      filter (\<lambda>p. pr_status p = REVOKED \<and> ?old p) rows"
    if "\<And>p. pr_created (f p) = pr_created p" for f rows
    using that by (induction rows) (auto simp: update_where_def is_stale_def)
  then have "filter ?old ?shown = filter (\<lambda>p. pr_status p = REVOKED \<and> ?old p) (cm_proposals db)"
    by (simp add: ttl_sweep_def Let_def text_revoked conj_commute is_stale_def [abs_def] cutoff_of_def)
  with assms have "?n \<le> length (filter ?old (sort_key ?key ?shown))"
    by (simp add: filter_sort)
  then have "list_all ?old (take ?n (sort_key ?key ?shown))"
    by (rule take_sorted [where key = ?key, rotated 2]) auto
  moreover have "in_listing \<lparr>lf_status = Some ''REVOKED'', lf_category = None, lf_proposed_by = None,
      lf_from = None, lf_to = None\<rparr> = (\<lambda>p. status_text (pr_status p) = ''REVOKED'')"
    by (rule ext) (simp add: in_listing_def)
  ultimately show ?thesis by (simp add: repo_list_def)
qed


lemma sweep_row_old:
  assumes "p \<in> set (cm_proposals (snd (ttl_sweep now days db)))" "cutoff_of now days \<le> pr_created p"
  shows "p \<in> set (cm_proposals db)"
  using assms by (auto simp: ttl_sweep_def Let_def cutoff_of_def update_where_def split: if_splits)

lemma sweep_revokes:
  assumes "p \<in> set (cm_proposals db)" "is_stale now days p"
  shows "\<exists>q \<in> set (cm_proposals (snd (ttl_sweep now days db))). pr_id q = pr_id p \<and> pr_status q = REVOKED"
proof -
  let ?f = "\<lambda>p. p\<lparr>pr_status := REVOKED, pr_version := pr_version p + 1, pr_reviewed_by := Some ''SYSTEM'',
      pr_reviewed_at := Some (whole_second now), pr_updated := whole_second now, pr_revoke_reason := Some ''ttl_expired''\<rparr>"
  have "?f p \<in> set (update_where (is_stale now days) ?f (cm_proposals db))"
    unfolding update_where_def set_map by (rule image_eqI [of _ _ p]) (simp_all add: assms)
  then have "?f p \<in> set (cm_proposals (snd (ttl_sweep now days db)))"
    by (simp add: ttl_sweep_def Let_def is_stale_def [abs_def] cutoff_of_def)
  then show ?thesis by (rule bexI [rotated]) simp
qed

lemma sweep_main_proposals: "cm_proposals (sweep_main e now days db) = cm_proposals (snd (ttl_sweep now days db))"
proof -
  have "cm_proposals (fold (emit_audit e t) ps db1) = cm_proposals db1" for ps db1 t
    by (induction ps arbitrary: db1) (simp_all add: emit_audit_def)
  then show ?thesis by (simp add: sweep_main_def Let_def split: prod.split)
qed

text \<open>
  The sweep can lose its audit entries. It revokes every stale draft, but looks for the drafts
  it has just revoked in the first page of all revoked proposals, newest first. When that page is
  full of proposals that people revoked and that were created since the retention limit, every stale
  draft is revoked and no audit entry is written for any.
\<close>

theorem sweep_audit_lost:
  assumes "max (length (filter (is_stale now days) (cm_proposals db))) 50 \<le>
      length (filter (\<lambda>p. pr_status p = REVOKED \<and> cutoff_of now days \<le> pr_created p) (cm_proposals db))"
    and "list_all (\<lambda>p. pr_status p = REVOKED \<and> cutoff_of now days \<le> pr_created p \<longrightarrow> \<not> swept_by_system p) (cm_proposals db)"
  shows "cm_audit (sweep_main e now days db) = cm_audit db \<and>
    (\<forall>p \<in> set (cm_proposals db). is_stale now days p \<longrightarrow>
      (\<exists>q \<in> set (cm_proposals (sweep_main e now days db)). pr_id q = pr_id p \<and> pr_status q = REVOKED))"
proof
  let ?n = "fst (ttl_sweep now days db)" and ?db = "snd (ttl_sweep now days db)"
  let ?page = "repo_list \<lparr>lf_status = Some ''REVOKED'', lf_category = None, lf_proposed_by = None, lf_from = None,
      lf_to = None\<rparr> 1 (int (max ?n 50)) ?db"
  have n: "?n = length (filter (is_stale now days) (cm_proposals db))"
    by (simp add: ttl_sweep_def Let_def is_stale_def [abs_def] cutoff_of_def)
  have "list_all (\<lambda>p. cutoff_of now days \<le> pr_created p) ?page"
    using assms(1) by (intro sweep_page_recent) (simp add: n)
  moreover have "set ?page \<subseteq> {p \<in> set (cm_proposals ?db). pr_status p = REVOKED}"
  proof -
    have "status_text s = ''REVOKED'' \<longleftrightarrow> s = REVOKED" for s by (cases s) simp_all
    moreover have "set (repo_list f page size db1) \<subseteq> {p \<in> set (cm_proposals db1). in_listing f p}" for f page size db1
      unfolding repo_list_def by (rule order_trans [OF set_take_subset order_trans [OF set_drop_subset]]) simp
    ultimately show ?thesis by (fastforce simp: in_listing_def)
  qed
  ultimately have "\<forall>p \<in> set ?page. \<not> swept_by_system p"
    using assms(2) sweep_row_old unfolding list_all_iff by blast
  then have "filter swept_by_system ?page = []" by (simp add: filter_empty_conv)
  moreover obtain m db1 where sw: "ttl_sweep now days db = (m, db1)" by force
  ultimately have "cm_audit (sweep_main e now days db) = cm_audit db1"
    by (simp add: sweep_main_def Let_def swept_by_system_def [abs_def])
  moreover have "cm_audit db1 = cm_audit db" using sw by (auto simp: ttl_sweep_def Let_def)
  ultimately show "cm_audit (sweep_main e now days db) = cm_audit db" by simp
  show "\<forall>p \<in> set (cm_proposals db). is_stale now days p \<longrightarrow>
      (\<exists>q \<in> set (cm_proposals (sweep_main e now days db)). pr_id q = pr_id p \<and> pr_status q = REVOKED)"
    using sweep_revokes by (auto simp: sweep_main_proposals)
qed

theorem sweep_audit_lost_witness:
  "let refused = map (\<lambda>i. demo_draft\<lparr>pr_id := show_int i, pr_status := REVOKED, pr_version := 2,
         pr_reviewed_by := Some ''eva'', pr_created := 86400000001\<rparr>) [1..50];
       db = demo_cmdb\<lparr>cm_proposals := demo_draft # refused\<rparr>;
       after = sweep_main demo_env 172800000000 1 db
   in cm_audit after = [] \<and> (\<exists>q \<in> set (cm_proposals after). pr_id q = ''p1'' \<and> pr_status q = REVOKED)"
proof -
  let ?refused = "map (\<lambda>i. demo_draft\<lparr>pr_id := show_int i, pr_status := REVOKED, pr_version := 2,
         pr_reviewed_by := Some ''eva'', pr_created := 86400000001\<rparr>) [1..50]"
  let ?db = "demo_cmdb\<lparr>cm_proposals := demo_draft # ?refused\<rparr>"
  have len: "length [1..50::int] = 50" by simp
  have stale: "is_stale 172800000000 1 demo_draft"
    by (simp add: is_stale_def demo_draft_def cutoff_of_def seconds_def)
  have fresh: "\<not> is_stale 172800000000 1 (demo_draft\<lparr>pr_id := x, pr_status := REVOKED, pr_version := 2,
         pr_reviewed_by := Some ''eva'', pr_created := 86400000001\<rparr>)" for x
    by (simp add: is_stale_def)
  have "max (length (filter (is_stale 172800000000 1) (cm_proposals ?db))) 50 \<le>
      length (filter (\<lambda>p. pr_status p = REVOKED \<and> cutoff_of 172800000000 1 \<le> pr_created p) (cm_proposals ?db))"
    using stale fresh by (simp add: filter_map o_def len cutoff_of_def seconds_def demo_draft_def)
  moreover have "list_all (\<lambda>p. pr_status p = REVOKED \<and> cutoff_of 172800000000 1 \<le> pr_created p \<longrightarrow>
      \<not> swept_by_system p) (cm_proposals ?db)"
    by (simp add: list_all_iff swept_by_system_def demo_draft_def)
  ultimately show ?thesis
    using sweep_audit_lost [of 172800000000 1 ?db demo_env] stale
    by (simp add: demo_cmdb_def) (simp add: demo_draft_def)
qed

end
