(* ===== verification/Cmdb_Import.thy ===== *)
theory Cmdb_Import
  imports Cmdb_Review
begin

section \<open>What an import does to the CMDB\<close>

text \<open>
  A file is taken as a whole or refused as a whole; what the rows of an accepted file have passed;
  what reaches the graph once the bulk proposal is approved.
\<close>

subsection \<open>The rows of an accepted file\<close>

text \<open>What the checks of a row establish for its node.\<close>

definition importable :: "bulk_env \<Rightarrow> cmdb \<Rightarrow> node \<Rightarrow> bool" where
  "importable b db n =
     (nd_id n \<noteq> '''' \<and> nd_label n \<noteq> '''' \<and> nd_type n \<noteq> '''' \<and>
      \<not> csv_injection_risk (nd_id n) \<and> \<not> csv_injection_risk (nd_label n) \<and> \<not> csv_injection_risk (nd_type n) \<and>
      \<not> ci_id_exists (be_env b) db (nd_id n) \<and> nd_type n \<in> set (cm_categories db))"

definition from_row :: "string option \<Rightarrow> csv_row \<Rightarrow> node \<Rightarrow> bool" where
  "from_row dcat r n =
     (nd_id n = row_id r \<and> nd_label n = row_label r \<and> nd_type n = row_category dcat r \<and>
      nd_status n = Some (row_status r) \<and> nd_snmp n = row_snmp r \<and> nd_owner n = None \<and> nd_public_ip n = None \<and>
      row_secret r = None)"

lemma row_accepted:
  assumes "row_errors b db dcat seen_ids r = []"
  shows "importable b db (row_node dcat meta r)" "from_row dcat r (row_node dcat meta r)" "row_id r \<notin> set seen_ids"
  using assms
  by (auto simp: row_errors_def row_node_def importable_def from_row_def injection_errors_def resolve_category_def Let_def
      filter_empty_conv split: if_splits option.splits)

lemma scan_row_grows: "bs_errors (scan_row b db dcat downer r s) = [] \<Longrightarrow> bs_errors s = []"
  by (auto simp: scan_row_def Let_def split: if_splits option.splits)

lemma scan_fold:
  assumes "bs_errors (fold (scan_row b db dcat downer) rs s) = []"
  shows "bs_errors s = [] \<and>
    (\<exists>ns. bs_nodes (fold (scan_row b db dcat downer) rs s) = bs_nodes s @ ns \<and>
      list_all2 (from_row dcat) (map snd rs) ns \<and> list_all (importable b db) ns \<and>
      distinct (map nd_id ns) \<and> set (map nd_id ns) \<inter> set (bs_seen s) = {})"
  using assms
proof (induction rs arbitrary: s)
  case Nil
  then show ?case by simp
next
  case (Cons r rs)
  let ?s = "scan_row b db dcat downer r s"
  from Cons.IH [of ?s] Cons.prems obtain ns where s1: "bs_errors ?s = []"
    and ns: "bs_nodes (fold (scan_row b db dcat downer) rs ?s) = bs_nodes ?s @ ns"
      "list_all2 (from_row dcat) (map snd rs) ns" "list_all (importable b db) ns" "distinct (map nd_id ns)"
      "set (map nd_id ns) \<inter> set (bs_seen ?s) = {}" by auto
  from scan_row_grows [OF s1] have s0: "bs_errors s = []" .
  from s1 s0 obtain meta where ok: "row_errors b db dcat (bs_seen s) (snd r) = []"
    and s: "bs_nodes ?s = bs_nodes s @ [row_node dcat meta (snd r)]" "bs_seen ?s = row_id (snd r) # bs_seen s"
    by (auto simp: scan_row_def Let_def split: if_splits option.splits)
  note row = row_accepted(1,2) [OF ok, of meta] row_accepted(3) [OF ok]
  have id: "nd_id (row_node dcat meta (snd r)) = row_id (snd r)" by (simp add: row_node_def)
  show ?case
    using ns row s s0 id
    by (intro conjI exI [of _ "row_node dcat meta (snd r) # ns"]) auto
qed

lemma scan_accepted:
  assumes "bs_errors (scan_rows b db dcat downer rows) = []"
  shows "list_all2 (from_row dcat) rows (bs_nodes (scan_rows b db dcat downer rows))"
    and "list_all (importable b db) (bs_nodes (scan_rows b db dcat downer rows))"
    and "distinct (map nd_id (bs_nodes (scan_rows b db dcat downer rows)))"
proof -
  have "map snd (zip [2..<2 + length rows] rows) = rows" by (rule map_snd_zip) (simp only: length_upt diff_add_inverse)
  then show "list_all2 (from_row dcat) rows (bs_nodes (scan_rows b db dcat downer rows))"
    "list_all (importable b db) (bs_nodes (scan_rows b db dcat downer rows))"
    "distinct (map nd_id (bs_nodes (scan_rows b db dcat downer rows)))"
    using scan_fold [OF assms [unfolded scan_rows_def]] by (auto simp: scan_rows_def)
qed

lemma drafted_created:
  assumes "drafted e tick now pid u agent role name m cat ci mode cnt why db = (r, db')"
  shows "cm_items db' = cm_items db \<and> cm_categories db' = cm_categories db \<and>
    (case r of Inr (Created p) \<Rightarrow> cm_proposals db' = cm_proposals db @ [p] \<and> pr_id p = pid \<and> pr_status p = DRAFT \<and>
        pr_version p = 1 \<and> pr_manifest p = m \<and> pr_proposed_by p = ac_name u \<and> pr_resulted_ci p = None
     | _ \<Rightarrow> cm_proposals db' = cm_proposals db)"
  using assms
  by (auto simp: drafted_def create_draft_def Let_def record_audit_def log_operation_def
      split: option.splits if_splits)

text \<open>An accepted import: the draft it makes from the rows.\<close>

lemma import_created:
  assumes "bulk_import b tick now pid bytes dcat downer u dry db = (Inr (Created p), db')"
  obtains body recs ns where "be_utf8 b (strip_bom bytes) = Some body" "parse_csv body = Some recs"
    "list_all2 (from_row dcat) (dict_reader recs) ns" "ns \<noteq> []" "pr_manifest p = bulk_manifest (ac_name u) ns"
    "distinct (map nd_id ns)" "list_all (importable b db) ns"
    "ns = bs_nodes (scan_rows b db dcat downer (dict_reader recs))"
    "\<not> dry" "cm_items db' = cm_items db" "cm_proposals db' = cm_proposals db @ [p]"
    "pr_id p = pid" "pr_status p = DRAFT" "pr_version p = 1"
  using assms
proof (cases rule: bulk_import_cases)
  case refused
  then show ?thesis by simp
next
  case (accepted recs g gs)
  let ?ns = "bs_nodes (scan_rows b db dcat downer (dict_reader recs))"
  note rows = scan_accepted [OF accepted(3)]
  obtain body where body: "be_utf8 b (strip_bom bytes) = Some body" "parse_csv body = Some recs"
    using accepted(1) by (auto split: option.splits)
  have ne: "?ns \<noteq> []" using rows(1) accepted(2) by auto
  from accepted(5) have live: "\<not> dry"
    and "drafted (be_env b) tick now pid u (ac_name u) (role_or u ''OPERATOR'')
        (''bulk:'' @ show_nat (length ?ns)) (bulk_manifest (ac_name u) ?ns)
        (Some (nd_type (hd ?ns))) (Some (nd_id (hd ?ns))) (Some ''bulk'') (Some (length ?ns))
        ''proposal_created_bulk_csv'' (db\<lparr>cm_guard := gs\<rparr>) = (Inr (Created p), db')"
    by (simp_all add: Let_def split: if_splits)
  note made = drafted_created [OF this(2), simplified]
  show ?thesis
    by (rule that [OF body rows(1) ne _ rows(3,2) refl live]) (use made in simp_all)
qed

lemma import_not_created:
  assumes "bulk_import b tick now pid bytes dcat downer u dry db = (r, db')" "\<And>p. r \<noteq> Inr (Created p)"
  shows "cm_items db' = cm_items db" "cm_proposals db' = cm_proposals db"
proof -
  have "cm_items db' = cm_items db \<and> cm_proposals db' = cm_proposals db"
    using assms(1)
  proof (cases rule: bulk_import_cases)
    case refused
    then show ?thesis by simp
  next
    case (accepted recs g gs)
    show ?thesis
    proof (cases "gr_allowed g \<and> \<not> dry")
      case True
      obtain role name m cat ci mode cnt why where
        "drafted (be_env b) tick now pid u (ac_name u) role name m cat ci mode cnt why (db\<lparr>cm_guard := gs\<rparr>) = (r, db')"
        using accepted(5) True by (auto simp: Let_def)
      from drafted_created [OF this] assms(2) show ?thesis by (auto split: sum.splits create_answer.splits)
    next
      case False
      then consider "\<not> gr_allowed g" | "gr_allowed g" "dry" by blast
      then show ?thesis
      proof cases
        case 1
        with accepted(5) show ?thesis by (simp add: Let_def log_operation_def)
      next
        case 2
        with accepted(5) show ?thesis by (simp add: Let_def)
      qed
    qed
  qed
  then show "cm_items db' = cm_items db" "cm_proposals db' = cm_proposals db" by simp_all
qed

text \<open>
  C18: An import is all or nothing. A file becomes exactly one draft at version 1, holding one item
  per data row in the order of the file, each with the identifier, the label and the category of
  its row, all identifiers different and none in the CMDB, every category live, no cell of the
  three opening a formula and no secret column filled; or no proposal at all. Items are written in
  neither case.
\<close>

theorem import_all_or_nothing:
  assumes "bulk_import b tick now pid bytes dcat downer u dry db = (r, db')"
  shows "cm_items db' = cm_items db \<and>
    (case r of
       Inr (Created p) \<Rightarrow>
         \<not> dry \<and> cm_proposals db' = cm_proposals db @ [p] \<and> pr_status p = DRAFT \<and> pr_version p = 1 \<and>
         (\<exists>body recs ns. be_utf8 b (strip_bom bytes) = Some body \<and> parse_csv body = Some recs \<and>
            list_all2 (from_row dcat) (dict_reader recs) ns \<and> ns \<noteq> [] \<and>
            pr_manifest p = bulk_manifest (ac_name u) ns \<and>
            distinct (map nd_id ns) \<and> list_all (importable b db) ns)
     | _ \<Rightarrow> cm_proposals db' = cm_proposals db)"
proof (cases "\<exists>p. r = Inr (Created p)")
  case True
  then obtain p where r: "r = Inr (Created p)" by blast
  show ?thesis
    by (rule import_created [OF assms [unfolded r]]) (auto simp: r)
next
  case False
  with import_not_created [OF assms] show ?thesis by (auto split: sum.split create_answer.split)
qed

definition demo_csv :: string where
  "demo_csv = ''id,label,category,owner'' @ [CHR 0x0D, CHR 0x0A] @ ''r1,core,router,ana'' @ [CHR 0x0D, CHR 0x0A] @
     ''s1,edge,switch,'' @ [CHR 0x0D, CHR 0x0A]"

definition demo_import :: cmdb where
  "demo_import = snd (bulk_import demo_bulk 1 1 ''p1'' demo_csv None None demo_admin False demo_cmdb)"

theorem import_all_or_nothing_witness:
  "let (r, db') = bulk_import demo_bulk 1 1 ''p1'' demo_csv None None demo_admin False demo_cmdb
   in cm_items db' = [] \<and> map pr_mode (cm_proposals db') = [Some ''bulk''] \<and> map pr_count (cm_proposals db') = [Some 2]"
proof -
  obtain r db' where run: "bulk_import demo_bulk 1 1 ''p1'' demo_csv None None demo_admin False demo_cmdb = (r, db')"
    by force
  have "map pr_mode (cm_proposals (snd (bulk_import demo_bulk 1 1 ''p1'' demo_csv None None demo_admin False demo_cmdb)))
      = [Some ''bulk''] \<and>
    map pr_count (cm_proposals (snd (bulk_import demo_bulk 1 1 ''p1'' demo_csv None None demo_admin False demo_cmdb)))
      = [Some 2] \<and> cm_items demo_cmdb = []" by code_simp
  with run import_all_or_nothing [OF run] show ?thesis by simp
qed


subsection \<open>What reaches the graph\<close>

text \<open>The parser of nodes reads back what a row dumped; an absent metadata object may become empty.\<close>

definition reads_back :: "cmdb_env \<Rightarrow> node \<Rightarrow> bool" where
  "reads_back e n =
     (case ce_node e (dump_node_compact n) of None \<Rightarrow> False | Some m \<Rightarrow> m\<lparr>nd_metadata := nd_metadata n\<rparr> = n)"

lemma parse_dumped:
  "list_all (reads_back e) ns \<Longrightarrow>
     \<exists>ms. parse_nodes e (map (\<lambda>n. PDict (dump_node_compact n)) ns) = Some ms \<and>
       list_all2 (\<lambda>n m. m\<lparr>nd_metadata := nd_metadata n\<rparr> = n) ns ms"
  by (induction ns) (auto simp: reads_back_def split: option.splits)

lemma list_all2_partner: "list_all2 R xs ys \<Longrightarrow> x \<in> set xs \<Longrightarrow> \<exists>y \<in> set ys. R x y"
  by (induction rule: list_all2_induct) auto

lemma find_key: "distinct (map k xs) \<Longrightarrow> x \<in> set xs \<Longrightarrow> find (\<lambda>y. k y = k x) xs = Some x"
  using find_updated [where P = "\<lambda>y. k y = k x" and f = "\<lambda>y. y" and key = k and rows = xs and p = x]
  by (simp add: update_where_def)

text \<open>The fields of a node that reach its item.\<close>

definition same_item :: "node \<Rightarrow> node \<Rightarrow> bool" where
  "same_item n m = (nd_id m = nd_id n \<and> nd_label m = nd_label n \<and> nd_type m = nd_type n \<and> nd_status m = nd_status n \<and>
     nd_snmp m = nd_snmp n \<and> nd_owner m = nd_owner n \<and> nd_public_ip m = nd_public_ip n)"

lemma same_item_read: "m\<lparr>nd_metadata := x\<rparr> = n \<Longrightarrow> same_item n m"
  by (auto simp: same_item_def)

text \<open>
  From file to graph. When an imported file is approved, the graph holds an item for each of
  its rows, with the row's identifier, label, category, status and SNMP settings; but no item has an
  owner, whatever the owner column or the default owner says, because the import puts the owner into
  the metadata of the node, which the graph does not keep.
\<close>

theorem import_reaches_graph:
  assumes "bulk_import b tick now pid bytes dcat downer u dry db = (Inr (Created p), db1)" "proposals_ok db"
    and "be_utf8 b (strip_bom bytes) = Some body" "parse_csv body = Some recs"
    and "list_all (reads_back e) (bs_nodes (scan_rows b db dcat downer (dict_reader recs)))"
    and "approve_proposal e later pid v u' cat db1 = (Inr row, db2)"
  shows "list_all (\<lambda>r. \<exists>item. find_item db2 (row_id r) = Some item \<and> cr_name item = row_label r \<and>
      cr_layer item = row_category dcat r \<and> cr_status item = Some (row_status r) \<and> cr_snmp item = row_snmp r \<and>
      cr_owner item = None) (dict_reader recs)"
proof -
  obtain ns where rows: "list_all2 (from_row dcat) (dict_reader recs) ns" and ne: "ns \<noteq> []"
    and man: "pr_manifest p = bulk_manifest (ac_name u) ns" and dist: "distinct (map nd_id ns)"
    and ns: "ns = bs_nodes (scan_rows b db dcat downer (dict_reader recs))"
    and p: "cm_proposals db1 = cm_proposals db @ [p]" "pr_id p = pid"
    by (rule import_created [OF assms(1)]) (use assms(3,4) in simp)
  have ids: "distinct (map pr_id (cm_proposals db1))"
    using evolves_import [OF assms(1)] assms(2) by (simp add: evolves_def proposals_ok_def)
  then have got: "repo_get db1 pid = Some p"
    using find_key [OF ids, of p] p by (simp add: repo_get_def)
  have bulk: "is_bulk p" by (simp add: is_bulk_def man bulk_manifest_def)
  obtain ms where ms: "parse_nodes e (map (\<lambda>n. PDict (dump_node_compact n)) ns) = Some ms"
      "list_all2 (\<lambda>n m. m\<lparr>nd_metadata := nd_metadata n\<rparr> = n) ns ms"
    using parse_dumped assms(5) ns by blast
  have "requested_items e p = Some ms"
    using ne ms(1) bulk by (simp add: requested_items_def man bulk_manifest_def)
  moreover have same: "list_all2 same_item ns ms"
    using ms(2) by (rule list_all2_mono) (rule same_item_read)
  moreover from same have "map nd_id ms = map nd_id ns"
    by (induction rule: list_all2_induct) (auto simp: same_item_def)
  moreover have "approve_bulk e later p v u' cat db1 = (Inr row, db2)"
    using assms(6) got bulk by (auto simp: approve_proposal_def is_bulk_def split: if_splits)
  ultimately have written: "writes ms db1 db2 i" for i
    using bulk_ok [OF _ ids got bulk] dist by metis
  have dist_ms: "distinct (map nd_id ms)" using \<open>map nd_id ms = map nd_id ns\<close> dist by simp
  show ?thesis
    unfolding list_all_iff
  proof
    fix r
    assume "r \<in> set (dict_reader recs)"
    then obtain n where n: "n \<in> set ns" "from_row dcat r n" using list_all2_partner [OF rows] by blast
    then obtain m where m: "m \<in> set ms" "same_item n m" using list_all2_partner [OF same] by blast
    have "find (\<lambda>k. nd_id k = row_id r) ms = Some m"
      using find_key [OF dist_ms m(1)] m(2) n(2) by (simp add: same_item_def from_row_def)
    then have "find_item db2 (row_id r) = Some (written_row (revalidated m) (find_item db1 (row_id r)))"
      using written [of "row_id r"] by (simp add: writes_def)
    moreover have "nd_public_ip m = None" using n m by (simp add: from_row_def same_item_def)
    ultimately show "\<exists>item. find_item db2 (row_id r) = Some item \<and> cr_name item = row_label r \<and>
      cr_layer item = row_category dcat r \<and> cr_status item = Some (row_status r) \<and> cr_snmp item = row_snmp r \<and>
      cr_owner item = None"
      using n(2) m(2) by (simp add: written_row_def revalidated_def from_row_def same_item_def)
  qed
qed


text \<open>A reader of nodes that keeps every field, for the example.\<close>

definition read_node :: "pydict \<Rightarrow> node option" where
  "read_node d =
     (let txt_of = (\<lambda>k. case get d k of PStr s \<Rightarrow> Some s | _ \<Rightarrow> None);
          obj = (\<lambda>k. case get d k of PDict m \<Rightarrow> Some m | _ \<Rightarrow> None)
      in case (txt_of ''id'', txt_of ''label'', txt_of ''type'') of
           (Some i, Some l, Some t) \<Rightarrow>
             Some \<lparr>nd_id = i, nd_label = l, nd_type = t, nd_status = txt_of ''status'', nd_ip = txt_of ''ip'',
               nd_public_ip = txt_of ''public_ip'', nd_location = obj ''location'',
               nd_metadata = Some (case obj ''metadata'' of None \<Rightarrow> [] | Some m \<Rightarrow> m),
               nd_owner = txt_of ''owner'', nd_location_name = txt_of ''location_name'',
               nd_polling = (case get d ''pollingInterval'' of PInt n \<Rightarrow> Some n | _ \<Rightarrow> None),
               nd_snmp = get d ''snmp'', nd_brand = txt_of ''brand'', nd_model = txt_of ''model'',
               nd_serial = txt_of ''serialNumber'', nd_firmware = txt_of ''firmwareVersion'',
               nd_metrics = (case get d ''metrics'' of PNone \<Rightarrow> None | v \<Rightarrow> Some v)\<rparr>
         | _ \<Rightarrow> None)"

definition reading_env :: cmdb_env where
  "reading_env = demo_env\<lparr>ce_node := read_node\<rparr>"

theorem import_reaches_graph_witness:
  "map fst (cm_metric_links (snd (approve_proposal reading_env 9 ''p1'' 1 demo_reviewer None demo_import))) = [] \<and>
   list_all (\<lambda>r. \<exists>item. find_item (snd (approve_proposal reading_env 9 ''p1'' 1 demo_reviewer None demo_import)) (row_id r) = Some item \<and>
      cr_name item = row_label r \<and>
      cr_layer item = row_category None r \<and> cr_status item = Some (row_status r) \<and> cr_snmp item = row_snmp r \<and>
      cr_owner item = None) (dict_reader (the (parse_csv demo_csv)))"
proof -
  have created: "case fst (bulk_import demo_bulk 1 1 ''p1'' demo_csv None None demo_admin False demo_cmdb) of
      Inr (Created p) \<Rightarrow> True | _ \<Rightarrow> False" by code_simp
  then obtain p where imp: "bulk_import demo_bulk 1 1 ''p1'' demo_csv None None demo_admin False demo_cmdb
      = (Inr (Created p), demo_import)"
    unfolding demo_import_def
    by (cases "bulk_import demo_bulk 1 1 ''p1'' demo_csv None None demo_admin False demo_cmdb")
       (auto split: sum.splits create_answer.splits)
  have approved: "case fst (approve_proposal reading_env 9 ''p1'' 1 demo_reviewer None demo_import) of
      Inr p \<Rightarrow> True | _ \<Rightarrow> False" by code_simp
  then obtain row where app: "approve_proposal reading_env 9 ''p1'' 1 demo_reviewer None demo_import
      = (Inr row, snd (approve_proposal reading_env 9 ''p1'' 1 demo_reviewer None demo_import))"
    by (cases "approve_proposal reading_env 9 ''p1'' 1 demo_reviewer None demo_import") (auto split: sum.splits)
  have facts: "proposals_ok demo_cmdb" "be_utf8 demo_bulk (strip_bom demo_csv) = Some demo_csv"
    "parse_csv demo_csv = Some (the (parse_csv demo_csv))"
    "list_all (reads_back reading_env) (bs_nodes (scan_rows demo_bulk demo_cmdb None None (dict_reader (the (parse_csv demo_csv)))))"
    by code_simp+
  note reached = import_reaches_graph [OF imp facts app]
  show ?thesis by (rule conjI [OF _ reached]) code_simp
qed

end
