(* ===== verification/Spec2Isabelle.thy ===== *)
theory Spec2Isabelle
  imports Poll_Roots Availability_Report Event_Closing Event_Pruning Graph_Disclosure Auth_Flow Backpressure Metadata_Cache Event_Graph Writer_Pool Cmdb_Import
begin

text \<open>header\<close>

end
